(* ===== verification/Prelude.thy ===== *)
theory Prelude
  imports Main "HOL-Library.Char_ord" "HOL-Library.List_Lexorder" "HOL-Library.Sublist"
    "HOL-Library.Word"
begin

text \<open>
  Shared vocabulary of the development: fallible results, the operations of the
  Rust standard library on \<open>str\<close> that the sources use, casts and saturating
  arithmetic on machine integers, and generic list lemmas.

  A Rust \<open>str\<close> is its sequence of UTF-8 bytes, that is a \<^typ>\<open>string\<close> whose
  characters are bytes.  The byte-wise order of \<open>str\<close> is then the lexicographic
  order of \<open>HOL-Library.List_Lexorder\<close> over \<open>HOL-Library.Char_ord\<close>.
\<close>

named_theorems str_simps "evaluation of the string operations"
named_theorems check_defs "evaluation functions of the runtime checks"


section \<open>Fallible results\<close>

type_synonym ('e, 'a) result = "'e + 'a"

abbreviation Ok :: "'a \<Rightarrow> ('e, 'a) result" where
  "Ok \<equiv> Inr"

abbreviation Err :: "'e \<Rightarrow> ('e, 'a) result" where
  "Err \<equiv> Inl"

text \<open>The question-mark operator: continue on \<open>Ok\<close>, return early on \<open>Err\<close>.\<close>

definition and_then :: "('e, 'a) result \<Rightarrow> ('a \<Rightarrow> ('e, 'b) result) \<Rightarrow> ('e, 'b) result" where
  "and_then r f = (case r of Inl e \<Rightarrow> Inl e | Inr x \<Rightarrow> f x)"

definition map_err :: "('e \<Rightarrow> 'd) \<Rightarrow> ('e, 'a) result \<Rightarrow> ('d, 'a) result" where
  "map_err f r = (case r of Inl e \<Rightarrow> Inl (f e) | Inr x \<Rightarrow> Inr x)"

definition is_ok :: "('e, 'a) result \<Rightarrow> bool" where
  "is_ok r = (case r of Inl _ \<Rightarrow> False | Inr _ \<Rightarrow> True)"

text \<open>A loop over a sequence whose body may return early with an error.\<close>

fun try_all :: "('a \<Rightarrow> ('e, unit) result) \<Rightarrow> 'a list \<Rightarrow> ('e, unit) result" where
  "try_all f [] = Ok ()"
| "try_all f (x # xs) = and_then (f x) (\<lambda>_. try_all f xs)"

lemma and_then_simps [simp]:
  "and_then (Ok x) f = f x"
  "and_then (Err e) f = Err e"
  by (simp_all add: and_then_def)

lemma and_then_eq_Ok_iff: "and_then r f = Ok y \<longleftrightarrow> (\<exists>x. r = Ok x \<and> f x = Ok y)"
  by (cases r) simp_all

lemma and_then_OkE:
  assumes "and_then r f = Ok y"
  obtains x where "r = Ok x" "f x = Ok y"
  using assms by (auto simp: and_then_eq_Ok_iff)

lemma and_then_eq_Err_iff:
  "and_then r f = Err e \<longleftrightarrow> r = Err e \<or> (\<exists>x. r = Ok x \<and> f x = Err e)"
  by (cases r) simp_all

lemma map_err_simps [simp]:
  "map_err f (Ok x) = Ok x"
  "map_err f (Err e) = Err (f e)"
  by (simp_all add: map_err_def)

lemma map_err_eq_Ok_iff [simp]: "map_err f r = Ok x \<longleftrightarrow> r = Ok x"
  by (cases r) simp_all

lemma is_ok_simps [simp]: "is_ok (Ok x)" "\<not> is_ok (Err e)"
  by (simp_all add: is_ok_def)

lemma is_ok_iff: "is_ok r \<longleftrightarrow> (\<exists>x. r = Ok x)"
  by (cases r) simp_all

lemma try_all_Ok_iff: "try_all f xs = Ok () \<longleftrightarrow> (\<forall>x \<in> set xs. f x = Ok ())"
  by (induction xs) (auto simp: and_then_eq_Ok_iff)


section \<open>Strings\<close>

definition byte :: "char \<Rightarrow> nat" where
  "byte c = of_char c"

definition is_ascii_digit :: "char \<Rightarrow> bool" where
  "is_ascii_digit c \<longleftrightarrow> 48 \<le> byte c \<and> byte c \<le> 57"

definition is_ascii_upper :: "char \<Rightarrow> bool" where
  "is_ascii_upper c \<longleftrightarrow> 65 \<le> byte c \<and> byte c \<le> 90"

definition is_ascii_lower :: "char \<Rightarrow> bool" where
  "is_ascii_lower c \<longleftrightarrow> 97 \<le> byte c \<and> byte c \<le> 122"

definition is_ascii_alphabetic :: "char \<Rightarrow> bool" where
  "is_ascii_alphabetic c \<longleftrightarrow> is_ascii_upper c \<or> is_ascii_lower c"

definition is_ascii_alphanumeric :: "char \<Rightarrow> bool" where
  "is_ascii_alphanumeric c \<longleftrightarrow> is_ascii_alphabetic c \<or> is_ascii_digit c"

definition char_lower :: "char \<Rightarrow> char" where
  "char_lower c = (if is_ascii_upper c then char_of (byte c + 32) else c)"

definition char_upper :: "char \<Rightarrow> char" where
  "char_upper c = (if is_ascii_lower c then char_of (byte c - 32) else c)"

definition to_ascii_lowercase :: "string \<Rightarrow> string" where
  "to_ascii_lowercase s = map char_lower s"

definition to_ascii_uppercase :: "string \<Rightarrow> string" where
  "to_ascii_uppercase s = map char_upper s"

text \<open>
  The code points with the Unicode property \<open>White_Space\<close>, which \<open>str::trim\<close>
  removes, as UTF-8 sequences.
\<close>

definition white_space :: "string list" where
  "white_space = map (map char_of)
     ([[9], [10], [11], [12], [13], [32], [194, 133], [194, 160], [225, 154, 128],
       [226, 128, 168], [226, 128, 169], [226, 128, 175], [226, 129, 159], [227, 128, 128::nat]]
      @ map (\<lambda>b. [226, 128, b]) [128..<139])"

text \<open>Removes the members of \<open>ps\<close> from the front as long as one is there.\<close>

function strip_all :: "string list \<Rightarrow> string \<Rightarrow> string" where
  "strip_all ps s =
     (case find (\<lambda>p. p \<noteq> [] \<and> prefix p s) ps of
        None \<Rightarrow> s
      | Some p \<Rightarrow> strip_all ps (drop (length p) s))"
  by pat_completeness auto
termination
  by (relation "measure (\<lambda>(ps, s). length s)")
     (auto simp: find_Some_iff prefix_def)

declare strip_all.simps [simp del]

definition trim_start :: "string \<Rightarrow> string" where
  "trim_start s = strip_all white_space s"

definition trim_end :: "string \<Rightarrow> string" where
  "trim_end s = rev (strip_all (map rev white_space) (rev s))"

definition trim :: "string \<Rightarrow> string" where
  "trim s = trim_end (trim_start s)"

text \<open>\<open>strip_prefix\<close>, and \<open>split (c)\<close>, which yields one more piece than there are separators.\<close>

definition strip_prefix :: "string \<Rightarrow> string \<Rightarrow> string option" where
  "strip_prefix s p = (if prefix p s then Some (drop (length p) s) else None)"

definition strip_suffix :: "string \<Rightarrow> string \<Rightarrow> string option" where
  "strip_suffix s p = (if suffix p s then Some (take (length s - length p) s) else None)"

fun split_on :: "char \<Rightarrow> string \<Rightarrow> string list" where
  "split_on c [] = [[]]"
| "split_on c (x # xs) =
     (if x = c then [] # split_on c xs
      else (case split_on c xs of [] \<Rightarrow> [[x]] | w # ws \<Rightarrow> (x # w) # ws))"

text \<open>\<open>str::splitn\<close>: at most \<open>n\<close> parts, the last one with the rest.\<close>

fun splitn :: "nat \<Rightarrow> char \<Rightarrow> string \<Rightarrow> string list" where
  "splitn 0 c s = []"
| "splitn (Suc 0) c s = [s]"
| "splitn (Suc (Suc n)) c s =
     (case dropWhile (\<lambda>x. x \<noteq> c) s of
        [] \<Rightarrow> [s]
      | _ # rest \<Rightarrow> takeWhile (\<lambda>x. x \<noteq> c) s # splitn (Suc n) c rest)"

text \<open>\<open>str::contains\<close>.\<close>

fun str_contains :: "string \<Rightarrow> string \<Rightarrow> bool" where
  "str_contains [] t \<longleftrightarrow> t = []"
| "str_contains (c # s) t \<longleftrightarrow> prefix t (c # s) \<or> str_contains s t"

definition eq_ignore_ascii_case :: "string \<Rightarrow> string \<Rightarrow> bool" where
  "eq_ignore_ascii_case s t \<longleftrightarrow> to_ascii_lowercase s = to_ascii_lowercase t"

definition ascii :: "string \<Rightarrow> bool" where
  "ascii s \<longleftrightarrow> (\<forall>c \<in> set s. byte c < 128)"

lemma byte_char_of [simp]: "n < 256 \<Longrightarrow> byte (char_of n) = n"
  by (simp add: byte_def)

lemma char_of_byte [simp]: "char_of (byte c) = c"
  by (simp add: byte_def)

lemma byte_less_256 [simp]: "byte c < 256"
  by (simp add: byte_def)

lemma byte_eq_iff [simp]: "byte c = byte d \<longleftrightarrow> c = d"
  by (simp add: byte_def)

lemma to_ascii_case_simps [simp]:
  "to_ascii_lowercase [] = []" "to_ascii_lowercase (c # s) = char_lower c # to_ascii_lowercase s"
  "to_ascii_uppercase [] = []" "to_ascii_uppercase (c # s) = char_upper c # to_ascii_uppercase s"
  by (simp_all add: to_ascii_lowercase_def to_ascii_uppercase_def)

lemma char_lower_idem [simp]: "char_lower (char_lower c) = char_lower c"
  by (auto simp: char_lower_def is_ascii_upper_def)

lemma to_ascii_lowercase_idem [simp]:
  "to_ascii_lowercase (to_ascii_lowercase s) = to_ascii_lowercase s"
  by (simp add: to_ascii_lowercase_def)

lemma length_to_ascii_lowercase [simp]: "length (to_ascii_lowercase s) = length s"
  by (simp add: to_ascii_lowercase_def)

lemma strip_prefix_Some_iff: "strip_prefix s p = Some r \<longleftrightarrow> s = p @ r"
  by (auto simp: strip_prefix_def prefix_def)

lemma strip_prefix_None_iff: "strip_prefix s p = None \<longleftrightarrow> \<not> prefix p s"
  by (simp add: strip_prefix_def)

lemma split_on_neq_Nil [simp]: "split_on c s \<noteq> []"
  by (cases s) (auto split: list.splits)

lemma split_on_no_sep: "w \<in> set (split_on c s) \<Longrightarrow> c \<notin> set w"
  by (induction s arbitrary: w) (auto split: if_splits list.splits)

lemma hd_split_on: "hd (split_on c s) = takeWhile (\<lambda>x. x \<noteq> c) s"
proof (induction s)
  case (Cons x s)
  then show ?case by (cases "split_on c s") auto
qed simp

text \<open>Trimming keeps a string that starts and ends with a printing ASCII character.\<close>

definition is_graphic :: "char \<Rightarrow> bool" where
  "is_graphic c \<longleftrightarrow> 32 < byte c \<and> byte c < 128"

lemma strip_all_id:
  assumes "\<And>p. p \<in> set ps \<Longrightarrow> p \<noteq> [] \<Longrightarrow> hd p \<noteq> c"
  shows "strip_all ps (c # s) = c # s"
proof -
  have "find (\<lambda>p. p \<noteq> [] \<and> prefix p (c # s)) ps = None"
    using assms by (fastforce simp: find_None_iff prefix_def Cons_eq_append_conv)
  then show ?thesis
    by (subst strip_all.simps) simp
qed

lemma white_space_not_graphic:
  assumes "p \<in> set white_space"
  shows "p \<noteq> [] \<and> \<not> is_graphic (hd p) \<and> \<not> is_graphic (last p)"
  using assms by (auto simp: white_space_def is_graphic_def)

lemma trim_graphic:
  assumes "s \<noteq> []" "is_graphic (hd s)" "is_graphic (last s)"
  shows "trim s = s"
proof -
  have "strip_all white_space s = s"
    using assms white_space_not_graphic strip_all_id [of white_space "hd s" "tl s"] by fastforce
  moreover have "strip_all (map rev white_space) (rev s) = rev s"
  proof -
    have rev: "rev s = last s # rev (butlast s)"
      using assms(1) by (metis append_butlast_last_id rev_eq_Cons_iff rev_rev_ident)
    have "hd p \<noteq> last s" if "p \<in> set (map rev white_space)" "p \<noteq> []" for p
      using that assms(3) white_space_not_graphic by (fastforce simp: hd_rev)
    then show ?thesis
      unfolding rev by (rule strip_all_id)
  qed
  ultimately show ?thesis
    by (simp add: trim_def trim_start_def trim_end_def)
qed

lemma trim_space: "trim (CHR '' '' # s) = trim s"
proof -
  have "find (\<lambda>p. p \<noteq> [] \<and> prefix p (CHR '' '' # s)) white_space = Some '' ''"
    by (simp add: white_space_def char_of_def bit_0)
  then show ?thesis
    by (simp add: trim_def trim_start_def strip_all.simps [of white_space "CHR '' '' # s"])
qed

text \<open>
  Strings of bytes are compared from the front; equal-length strings can be split
  off a common concatenation.
\<close>

lemma append_eq_append_lengthD:
  "xs @ ys = us @ vs \<Longrightarrow> length xs = length us \<Longrightarrow> xs = us \<and> ys = vs"
  by simp

lemma append_sep_eqD:
  assumes "xs @ c # ys = us @ c # vs" "c \<notin> set xs" "c \<notin> set us"
  shows "xs = us \<and> ys = vs"
  using assms
proof (induction xs arbitrary: us)
  case Nil
  then show ?case by (cases us) auto
next
  case (Cons x xs)
  then show ?case by (cases us) auto
qed


section \<open>Machine integers\<close>

text \<open>
  \<open>u32\<close> and \<open>u64\<close> are words: \<open>+\<close> wraps, \<open><\<close> is the unsigned order, and
  the casts \<open>as u64\<close> and \<open>as i64\<close> are \<^const>\<open>ucast\<close> and \<^const>\<open>sint\<close>.  \<open>i64\<close> is
  \<^typ>\<open>int\<close> with its range and its saturating operations written out.
\<close>

type_synonym u8 = "8 word"
type_synonym u32 = "32 word"
type_synonym u64 = "64 word"
type_synonym i64 = int

definition i64_MAX :: i64 where
  "i64_MAX = 9223372036854775807"

definition i64_MIN :: i64 where
  "i64_MIN = - 9223372036854775808"

definition is_i64 :: "int \<Rightarrow> bool" where
  "is_i64 x \<longleftrightarrow> i64_MIN \<le> x \<and> x \<le> i64_MAX"

definition i64_clamp :: "int \<Rightarrow> i64" where
  "i64_clamp x = max i64_MIN (min i64_MAX x)"

definition i64_saturating_sub :: "i64 \<Rightarrow> i64 \<Rightarrow> i64" where
  "i64_saturating_sub x y = i64_clamp (x - y)"

definition i64_saturating_add :: "i64 \<Rightarrow> i64 \<Rightarrow> i64" where
  "i64_saturating_add x y = i64_clamp (x + y)"

text \<open>Unchecked \<open>i64\<close> arithmetic wraps around in the release profile.\<close>

definition i64_wrap :: "int \<Rightarrow> i64" where
  "i64_wrap x = signed_take_bit 63 x"

text \<open>Division of \<open>i64\<close> rounds towards zero; \<open>clamp\<close> of \<open>Ord\<close>.\<close>

definition i64_div :: "i64 \<Rightarrow> i64 \<Rightarrow> i64" where
  "i64_div x y = sgn x * sgn y * (\<bar>x\<bar> div \<bar>y\<bar>)"

definition clamp_between :: "'a::linorder \<Rightarrow> 'a \<Rightarrow> 'a \<Rightarrow> 'a" where
  "clamp_between lo hi x = (if x < lo then lo else if hi < x then hi else x)"

lemma i64_div_nonneg: "0 \<le> x \<Longrightarrow> 0 < y \<Longrightarrow> i64_div x y = x div y"
  by (cases "x = 0") (simp_all add: i64_div_def)

lemma clamp_between_bounds: "lo \<le> hi \<Longrightarrow> lo \<le> clamp_between lo hi x \<and> clamp_between lo hi x \<le> hi"
  by (auto simp: clamp_between_def not_less)

definition i64_abs :: "i64 \<Rightarrow> i64" where
  "i64_abs x = i64_wrap \<bar>x\<bar>"

lemma is_i64_clamp [simp]: "is_i64 (i64_clamp x)"
  by (simp add: is_i64_def i64_clamp_def i64_MIN_def i64_MAX_def)

lemma i64_clamp_id [simp]: "is_i64 x \<Longrightarrow> i64_clamp x = x"
  by (simp add: is_i64_def i64_clamp_def)

lemma i64_clamp_mono: "x \<le> y \<Longrightarrow> i64_clamp x \<le> i64_clamp y"
  by (auto simp: i64_clamp_def)

lemma i64_wrap_id [simp]: "is_i64 x \<Longrightarrow> i64_wrap x = x"
  by (simp add: is_i64_def i64_wrap_def i64_MIN_def i64_MAX_def signed_take_bit_int_eq_self)


section \<open>Lists\<close>

lemma list_ex_iff_set [simp]: "list_ex P xs \<longleftrightarrow> (\<exists>x \<in> set xs. P x)"
  by (simp add: list_ex_iff)

section \<open>Decimal notation\<close>

text \<open>The \<open>Display\<close> form of an integer, as \<open>to_string\<close> and \<open>format!\<close> print it.\<close>

fun nat_to_string :: "nat \<Rightarrow> string" where
  "nat_to_string n =
     (if n < 10 then [char_of (48 + n)] else nat_to_string (n div 10) @ [char_of (48 + n mod 10)])"

declare nat_to_string.simps [simp del]

definition int_to_string :: "int \<Rightarrow> string" where
  "int_to_string x =
     (if x < 0 then CHR ''-'' # nat_to_string (nat (- x)) else nat_to_string (nat x))"

definition dec_value :: "string \<Rightarrow> nat" where
  "dec_value s = foldl (\<lambda>a c. 10 * a + (byte c - 48)) 0 s"

lemma dec_value_snoc [simp]: "dec_value (s @ [c]) = 10 * dec_value s + (byte c - 48)"
  by (simp add: dec_value_def)

lemma dec_value_Nil [simp]: "dec_value [] = 0"
  by (simp add: dec_value_def)

lemma dec_value_nat_to_string [simp]: "dec_value (nat_to_string n) = n"
proof (induction n rule: nat_to_string.induct)
  case (1 n)
  show ?case
  proof (cases "n < 10")
    case True
    then have "nat_to_string n = [] @ [char_of (48 + n)]"
      by (subst nat_to_string.simps) simp
    then show ?thesis
      using True by (simp only: dec_value_snoc) simp
  next
    case False
    then have "nat_to_string n = nat_to_string (n div 10) @ [char_of (48 + n mod 10)]"
      by (subst nat_to_string.simps) simp
    then show ?thesis
      using 1 False by (simp only: dec_value_snoc) simp
  qed
qed

lemma nat_to_string_inject [simp]: "nat_to_string m = nat_to_string n \<longleftrightarrow> m = n"
  by (metis dec_value_nat_to_string)

lemma nat_to_string_digits: "c \<in> set (nat_to_string n) \<Longrightarrow> is_ascii_digit c"
proof (induction n rule: nat_to_string.induct)
  case (1 n)
  then show ?case
    by (subst (asm) nat_to_string.simps)
       (auto simp: is_ascii_digit_def split: if_splits)
qed

lemma nat_to_string_neq_Nil [simp]: "nat_to_string n \<noteq> []"
  by (subst nat_to_string.simps) simp

lemma hd_nat_to_string: "is_ascii_digit (hd (nat_to_string n))"
  by (rule nat_to_string_digits [OF list.set_sel(1)]) simp

lemma minus_not_digit [simp]: "\<not> is_ascii_digit CHR ''-''"
  by (simp add: is_ascii_digit_def byte_def)

lemma int_to_string_inject [simp]: "int_to_string x = int_to_string y \<longleftrightarrow> x = y"
proof
  assume eq: "int_to_string x = int_to_string y"
  have "x < 0 \<longleftrightarrow> y < 0"
    using eq hd_nat_to_string minus_not_digit
    by (metis int_to_string_def list.sel(1))
  then show "x = y"
    using eq by (auto simp: int_to_string_def split: if_splits)
qed simp

lemma int_to_string_chars:
  "c \<in> set (int_to_string x) \<Longrightarrow> is_ascii_digit c \<or> c = CHR ''-''"
  by (auto simp: int_to_string_def dest: nat_to_string_digits split: if_splits)

end
