(* ===== verification/F64.thy ===== *)
theory F64
  imports Prelude "HOL-Library.Log_Nat"
begin

text \<open>
  IEEE-754 binary64 arithmetic as the sources use it (\<open>f64\<close>): addition,
  subtraction, multiplication, division by a constant, comparisons and the conversions from integers and from decimal
  literals, all correctly rounded to nearest, ties to even.

  Every finite double is an integer multiple of \<open>2 ^ -1074\<close>, so \<open>Fin k\<close> is
  the double of value \<open>k * 2 ^ -1074\<close>.  The two zeros, which no comparison and no
  operation below distinguishes, are one value.
\<close>

datatype f64 = Nan | PInf | NInf | Fin int

section \<open>Rounding\<close>

text \<open>The integer nearest to \<open>a / d\<close> for \<open>0 \<le> a\<close> and \<open>0 < d\<close>, ties to even.\<close>

definition half_even :: "int \<Rightarrow> int \<Rightarrow> int" where
  "half_even a d =
     (let q = a div d; r = a mod d in
      if 2 * r > d \<or> (2 * r = d \<and> odd q) then q + 1 else q)"

text \<open>
  The double nearest to \<open>a / d\<close> units.  A quotient of more than 53 bits loses its
  low \<open>s\<close> bits; a magnitude of \<open>2 ^ 1024\<close> or more overflows to an infinity.
\<close>

definition round_mag :: "int \<Rightarrow> int \<Rightarrow> int" where
  "round_mag a d = (let s = nat (bitlen (a div d) - 53) in half_even a (d * 2 ^ s) * 2 ^ s)"

definition overflow_unit :: int where
  "overflow_unit = 2 ^ 2098"

definition round_f64 :: "int \<Rightarrow> int \<Rightarrow> f64" where
  "round_f64 a d =
     (let v = round_mag \<bar>a\<bar> d in
      if v \<ge> overflow_unit then (if a < 0 then NInf else PInf)
      else Fin (if a < 0 then - v else v))"

section \<open>Operations\<close>

definition one_unit :: int where
  "one_unit = 2 ^ 1074"

text \<open>The cast \<open>n as f64\<close> of an integer, and the reading of the decimal \<open>n / 10 ^ k\<close>.\<close>

definition f64_of_int :: "int \<Rightarrow> f64" where
  "f64_of_int n = round_f64 (n * one_unit) 1"

definition f64_of_decimal :: "int \<Rightarrow> nat \<Rightarrow> f64" where
  "f64_of_decimal n k = round_f64 (n * one_unit) (10 ^ k)"

definition f64_zero :: f64 where
  "f64_zero = Fin 0"

fun f64_neg :: "f64 \<Rightarrow> f64" where
  "f64_neg Nan = Nan"
| "f64_neg PInf = NInf"
| "f64_neg NInf = PInf"
| "f64_neg (Fin k) = Fin (- k)"

fun f64_add :: "f64 \<Rightarrow> f64 \<Rightarrow> f64" where
  "f64_add Nan y = Nan"
| "f64_add PInf y = (case y of Nan \<Rightarrow> Nan | NInf \<Rightarrow> Nan | _ \<Rightarrow> PInf)"
| "f64_add NInf y = (case y of Nan \<Rightarrow> Nan | PInf \<Rightarrow> Nan | _ \<Rightarrow> NInf)"
| "f64_add (Fin j) y = (case y of Fin k \<Rightarrow> round_f64 (j + k) 1 | _ \<Rightarrow> y)"

definition f64_sub :: "f64 \<Rightarrow> f64 \<Rightarrow> f64" where
  "f64_sub x y = f64_add x (f64_neg y)"

fun f64_sign :: "f64 \<Rightarrow> int" where
  "f64_sign Nan = 0"
| "f64_sign PInf = 1"
| "f64_sign NInf = -1"
| "f64_sign (Fin k) = sgn k"

text \<open>An infinity times a zero is not a number; otherwise the sign of an infinite product is the product of the signs.\<close>

fun f64_mul :: "f64 \<Rightarrow> f64 \<Rightarrow> f64" where
  "f64_mul (Fin j) (Fin k) = round_f64 (j * k) one_unit"
| "f64_mul x y =
     (if x = Nan \<or> y = Nan then Nan
      else if f64_sign x * f64_sign y = 0 then Nan
      else if f64_sign x * f64_sign y > 0 then PInf else NInf)"

text \<open>Division by a positive integer constant of at most 53 bits.\<close>

fun f64_div_int :: "f64 \<Rightarrow> int \<Rightarrow> f64" where
  "f64_div_int (Fin j) n = round_f64 j n"
| "f64_div_int x n = x"

fun f64_lt :: "f64 \<Rightarrow> f64 \<Rightarrow> bool" where
  "f64_lt (Fin j) (Fin k) \<longleftrightarrow> j < k"
| "f64_lt (Fin j) y \<longleftrightarrow> y = PInf"
| "f64_lt NInf y \<longleftrightarrow> y = PInf \<or> (\<exists>k. y = Fin k)"
| "f64_lt _ _ \<longleftrightarrow> False"

fun f64_eq :: "f64 \<Rightarrow> f64 \<Rightarrow> bool" where
  "f64_eq Nan y \<longleftrightarrow> False"
| "f64_eq x y \<longleftrightarrow> x = y"

definition f64_le :: "f64 \<Rightarrow> f64 \<Rightarrow> bool" where
  "f64_le x y \<longleftrightarrow> f64_lt x y \<or> f64_eq x y"

abbreviation f64_gt :: "f64 \<Rightarrow> f64 \<Rightarrow> bool" where
  "f64_gt x y \<equiv> f64_lt y x"

abbreviation f64_ge :: "f64 \<Rightarrow> f64 \<Rightarrow> bool" where
  "f64_ge x y \<equiv> f64_le y x"

fun f64_is_finite :: "f64 \<Rightarrow> bool" where
  "f64_is_finite (Fin k) \<longleftrightarrow> True"
| "f64_is_finite _ \<longleftrightarrow> False"

fun f64_is_nan :: "f64 \<Rightarrow> bool" where
  "f64_is_nan Nan \<longleftrightarrow> True"
| "f64_is_nan _ \<longleftrightarrow> False"

section \<open>Exactness\<close>

lemma half_even_exact: "0 < d \<Longrightarrow> d dvd a \<Longrightarrow> half_even a d = a div d"
  by (auto simp: half_even_def Let_def)

lemma half_even_mono:
  assumes "0 < d" "a \<le> b"
  shows "half_even a d \<le> half_even b d"
proof (cases "a div d = b div d")
  case True
  moreover have "a mod d \<le> b mod d"
    using True assms by (metis add_le_cancel_left div_mult_mod_eq)
  ultimately show ?thesis
    by (auto simp: half_even_def Let_def)
next
  case False
  moreover have "a div d \<le> b div d"
    using assms by (simp add: zdiv_mono1)
  ultimately have "a div d + 1 \<le> b div d"
    by simp
  then show ?thesis
    by (auto simp: half_even_def Let_def)
qed

lemma round_mag_exact:
  assumes "0 \<le> m" "m \<le> 2 ^ 53"
  shows "round_mag (m * 2 ^ t) 1 = m * 2 ^ t"
proof (cases "m = 0")
  case True
  then show ?thesis
    by (simp add: round_mag_def half_even_def)
next
  case False
  define s where "s = nat (bitlen (m * 2 ^ t) - 53)"
  have "(2::int) ^ s dvd m * 2 ^ t"
  proof (cases "m = 2 ^ 53")
    case True
    have "s \<le> 53 + t"
      using True bitlen_le_iff_power [of m 54] by (simp add: s_def)
    then have "(2::int) ^ s dvd 2 ^ (53 + t)"
      by (rule le_imp_power_dvd)
    then show ?thesis
      unfolding True power_add .
  next
    case m: False
    have "bitlen m \<le> 53"
      using m assms bitlen_le_iff_power [of m 53] by simp
    then have "s \<le> t"
      using False assms by (simp add: s_def)
    then show ?thesis
      by (simp add: le_imp_power_dvd)
  qed
  then show ?thesis
    by (simp add: round_mag_def half_even_exact flip: s_def)
qed

lemma overflow_unit_eq: "overflow_unit = 2 ^ 1024 * one_unit"
  by (simp add: overflow_unit_def one_unit_def flip: power_add)

lemma one_unit_pos [simp]: "0 < one_unit"
  by (simp add: one_unit_def)

text \<open>Integers of at most 53 bits convert exactly, and their sums are exact.\<close>

lemma round_f64_int:
  assumes "\<bar>n\<bar> \<le> 2 ^ 53"
  shows "round_f64 (n * one_unit) 1 = Fin (n * one_unit)"
proof -
  have mag: "round_mag \<bar>n * one_unit\<bar> 1 = \<bar>n\<bar> * one_unit"
    using round_mag_exact [of "\<bar>n\<bar>" 1074] assms by (simp add: one_unit_def abs_mult)
  have "\<bar>n\<bar> * one_unit < 2 ^ 1024 * one_unit"
    using assms by (intro mult_strict_right_mono) (auto intro: le_less_trans)
  moreover have "n * one_unit < 0 \<longleftrightarrow> n < 0"
    using less_not_sym [OF one_unit_pos] by (simp add: mult_less_0_iff)
  ultimately show ?thesis
    by (auto simp: round_f64_def Let_def mag overflow_unit_eq)
qed

lemma f64_of_int_exact: "\<bar>n\<bar> \<le> 2 ^ 53 \<Longrightarrow> f64_of_int n = Fin (n * one_unit)"
  by (simp add: f64_of_int_def round_f64_int)

lemma f64_zero_eq: "f64_zero = f64_of_int 0"
  by (simp add: f64_zero_def f64_of_int_exact)

lemma f64_add_of_int:
  assumes "\<bar>m\<bar> \<le> 2 ^ 53" "\<bar>n\<bar> \<le> 2 ^ 53" "\<bar>m + n\<bar> \<le> 2 ^ 53"
  shows "f64_add (f64_of_int m) (f64_of_int n) = f64_of_int (m + n)"
  using assms by (simp add: f64_of_int_exact round_f64_int flip: distrib_right)

lemma f64_lt_of_int:
  "\<bar>m\<bar> \<le> 2 ^ 53 \<Longrightarrow> \<bar>n\<bar> \<le> 2 ^ 53 \<Longrightarrow> f64_lt (f64_of_int m) (f64_of_int n) \<longleftrightarrow> m < n"
  by (simp add: f64_of_int_exact)

lemma f64_eq_of_int:
  "\<bar>m\<bar> \<le> 2 ^ 53 \<Longrightarrow> \<bar>n\<bar> \<le> 2 ^ 53 \<Longrightarrow> f64_eq (f64_of_int m) (f64_of_int n) \<longleftrightarrow> m = n"
  by (simp add: f64_of_int_exact less_imp_neq [OF one_unit_pos, symmetric])

lemma f64_finite_of_int: "\<bar>n\<bar> \<le> 2 ^ 53 \<Longrightarrow> f64_is_finite (f64_of_int n)"
  by (simp add: f64_of_int_exact)

lemmas f64_int_simps = f64_zero_eq f64_add_of_int f64_lt_of_int f64_eq_of_int f64_finite_of_int

section \<open>Order\<close>

lemma f64_lt_irrefl [simp]: "\<not> f64_lt x x"
  by (cases x) auto

lemma f64_lt_trans: "f64_lt x y \<Longrightarrow> f64_lt y z \<Longrightarrow> f64_lt x z"
  by (cases x; cases y; cases z) auto

lemma f64_lt_le_trans: "f64_lt x y \<Longrightarrow> f64_le y z \<Longrightarrow> f64_lt x z"
  by (cases x; cases y; cases z) (auto simp: f64_le_def)

lemma f64_lt_total:
  "\<not> f64_is_nan x \<Longrightarrow> \<not> f64_is_nan y \<Longrightarrow> f64_lt x y \<or> f64_eq x y \<or> f64_lt y x"
  by (cases x; cases y) auto

lemma f64_not_lt_iff_le:
  "f64_is_finite x \<Longrightarrow> f64_is_finite y \<Longrightarrow> \<not> f64_lt x y \<longleftrightarrow> f64_le y x"
  by (cases x; cases y) (auto simp: f64_le_def)

lemma f64_le_simps [simp]:
  "f64_le (Fin j) (Fin k) \<longleftrightarrow> j \<le> k"
  "f64_le x PInf \<longleftrightarrow> \<not> f64_is_nan x"
  "f64_le NInf x \<longleftrightarrow> \<not> f64_is_nan x"
  "f64_le PInf (Fin k) \<longleftrightarrow> False"
  "f64_le (Fin k) NInf \<longleftrightarrow> False"
  "f64_le PInf NInf \<longleftrightarrow> False"
  "f64_le Nan x \<longleftrightarrow> False"
  "f64_le x Nan \<longleftrightarrow> False"
  by (cases x; auto simp: f64_le_def)+

text \<open>Rounding is monotone, so a larger summand never gives a smaller sum.\<close>

lemma half_even_bounds:
  assumes "0 < d"
  shows "a div d \<le> half_even a d" "half_even a d \<le> a div d + 1"
  by (auto simp: half_even_def Let_def)

lemma round_mag_lower:
  assumes "0 < a" "bitlen a = int n + 1"
  shows "2 ^ n \<le> round_mag a 1"
proof -
  define s where "s = nat (bitlen a - 53)"
  have s: "s \<le> n"
    using assms by (simp add: s_def)
  have "2 ^ n \<le> a"
    using assms bitlen_le_iff_power [of a n] by simp
  then have "2 ^ n div 2 ^ s \<le> a div 2 ^ s"
    by (simp add: zdiv_mono1)
  then have "2 ^ (n - s) \<le> half_even a (2 ^ s)"
    using half_even_bounds(1) [of "2 ^ s" a] s by (simp add: power_diff)
  then have "2 ^ (n - s) * 2 ^ s \<le> half_even a (2 ^ s) * 2 ^ s"
    by (simp add: mult_right_mono)
  then show ?thesis
    using s by (simp add: round_mag_def Let_def flip: s_def power_add)
qed

lemma int_div_less:
  assumes "a < q * (2::int) ^ s"
  shows "a div 2 ^ s < q"
proof (rule ccontr)
  assume "\<not> a div 2 ^ s < q"
  then have "q * 2 ^ s \<le> (a div 2 ^ s) * 2 ^ s"
    by (simp add: mult_right_mono)
  also have "\<dots> \<le> a"
    by (simp flip: minus_mod_eq_div_mult)
  finally show False
    using assms by simp
qed

lemma round_mag_upper:
  assumes "0 < a" "bitlen a \<le> int n"
  shows "round_mag a 1 \<le> 2 ^ n"
proof (cases "bitlen a \<le> 53")
  case True
  have "a < 2 ^ n"
    using assms bitlen_le_iff_power [of a n] by simp
  then show ?thesis
    using True by (simp add: round_mag_def half_even_def)
next
  case False
  define s where "s = nat (bitlen a - 53)"
  have s: "s \<le> n"
    using assms by (simp add: s_def)
  have "a < 2 ^ n"
    using assms bitlen_le_iff_power [of a n] by simp
  then have "a < 2 ^ (n - s) * 2 ^ s"
    using s by (simp flip: power_add)
  then have "a div 2 ^ s < 2 ^ (n - s)"
    by (rule int_div_less)
  then have "half_even a (2 ^ s) \<le> 2 ^ (n - s)"
    using half_even_bounds(2) [of "2 ^ s" a] by simp
  then have "half_even a (2 ^ s) * 2 ^ s \<le> 2 ^ (n - s) * 2 ^ s"
    by (simp add: mult_right_mono)
  then show ?thesis
    using s by (simp add: round_mag_def Let_def flip: s_def power_add)
qed

lemma bitlen_mono:
  assumes "a \<le> b"
  shows "bitlen a \<le> bitlen b"
proof (cases "0 < b")
  case True
  then have "a < 2 ^ nat (bitlen b)"
    using bitlen_bounds [of b] assms by simp
  then show ?thesis
    by (simp add: bitlen_le_iff_power bitlen_nonneg)
next
  case False
  then show ?thesis
    using assms by (simp add: bitlen_alt_def)
qed

lemma round_mag_mono:
  assumes "0 \<le> a" "a \<le> b"
  shows "round_mag a 1 \<le> round_mag b 1"
proof (cases "a = 0 \<or> bitlen a = bitlen b")
  case True
  then show ?thesis
  proof
    assume "a = 0"
    then show ?thesis
      using assms half_even_mono [of "2 ^ nat (bitlen b - 53)" 0 b]
      by (simp add: round_mag_def half_even_def Let_def)
  next
    assume "bitlen a = bitlen b"
    then show ?thesis
      using assms by (simp add: round_mag_def Let_def half_even_mono)
  qed
next
  case False
  then have "bitlen a < bitlen b" "0 < a" "0 < b"
    using assms bitlen_mono [of a b] by simp_all
  define n where "n = nat (bitlen b - 1)"
  have "bitlen b = int n + 1" "bitlen a \<le> int n"
    using \<open>bitlen a < bitlen b\<close> bitlen_nonneg [of a] by (simp_all add: n_def)
  then have "round_mag a 1 \<le> 2 ^ n" "2 ^ n \<le> round_mag b 1"
    using \<open>0 < a\<close> \<open>0 < b\<close> round_mag_upper round_mag_lower by blast+
  then show ?thesis
    by (rule order_trans)
qed

lemma round_mag_nonneg: "0 \<le> a \<Longrightarrow> 0 \<le> round_mag a 1"
  using round_mag_mono [of 0 a] by (simp add: round_mag_def half_even_def)

lemma round_f64_mono:
  assumes "a \<le> b"
  shows "f64_le (round_f64 a 1) (round_f64 b 1)"
proof -
  consider "0 \<le> a" "0 \<le> b" | "a < 0" "0 \<le> b" | "a < 0" "b < 0"
    using assms by linarith
  then show ?thesis
  proof cases
    case 1
    then show ?thesis
      using round_mag_mono [of a b] assms by (simp add: round_f64_def Let_def)
  next
    case 2
    then show ?thesis
      using round_mag_nonneg [of "- a"] round_mag_nonneg [of b]
      by (simp add: round_f64_def Let_def)
  next
    case 3
    then show ?thesis
      using round_mag_mono [of "- b" "- a"] assms
      by (simp add: round_f64_def Let_def)
  qed
qed

lemma round_f64_not_nan [simp]: "\<not> f64_is_nan (round_f64 a d)"
  by (simp add: round_f64_def Let_def)

lemma f64_add_mono:
  assumes "f64_is_finite x" "f64_le y z"
  shows "f64_le (f64_add x y) (f64_add x z)"
proof -
  obtain j where x: "x = Fin j"
    using assms(1) by (cases x) auto
  show ?thesis
  proof (cases "\<exists>k l. y = Fin k \<and> z = Fin l")
    case True
    then show ?thesis
      using assms(2) by (auto simp: x round_f64_mono)
  next
    case False
    then show ?thesis
      using assms(2) by (cases y; cases z) (auto simp: x)
  qed
qed

end
