(* ===== verification/Values.thy ===== *)
theory Values
  imports F64
begin

text \<open>
  Data shared by the components: JSON values with the accessors of
  \<open>serde_json::Value\<close> that the sources call, and the messages the sources build
  with \<open>format!\<close>.  A message is its template and its arguments, so the textual
  form of a float is not part of the model.
\<close>

text \<open>
  A JSON number is a non-negative or negative integer that fits its machine type, or a float.
  An object maps keys to values; its entries carry each key once.
\<close>

datatype json_num = PosInt u64 | NegInt int | Float f64

datatype json =
    JNull
  | JBool bool
  | JNum json_num
  | JStr string
  | JArr "json list"
  | JObj "(string \<times> json) list"

fun as_str :: "json \<Rightarrow> string option" where
  "as_str (JStr s) = Some s"
| "as_str _ = None"

fun as_bool :: "json \<Rightarrow> bool option" where
  "as_bool (JBool b) = Some b"
| "as_bool _ = None"

fun as_u64 :: "json \<Rightarrow> u64 option" where
  "as_u64 (JNum (PosInt n)) = Some n"
| "as_u64 _ = None"

fun as_f64 :: "json \<Rightarrow> f64 option" where
  "as_f64 (JNum (PosInt n)) = Some (f64_of_int (uint n))"
| "as_f64 (JNum (NegInt n)) = Some (f64_of_int n)"
| "as_f64 (JNum (Float x)) = Some x"
| "as_f64 _ = None"

fun as_i64 :: "json \<Rightarrow> i64 option" where
  "as_i64 (JNum (PosInt n)) = (if uint n \<le> i64_MAX then Some (uint n) else None)"
| "as_i64 (JNum (NegInt n)) = Some n"
| "as_i64 _ = None"

fun as_array :: "json \<Rightarrow> json list option" where
  "as_array (JArr xs) = Some xs"
| "as_array _ = None"

fun jget :: "json \<Rightarrow> string \<Rightarrow> json option" where
  "jget (JObj kvs) k = map_of kvs k"
| "jget _ _ = None"

section \<open>Messages\<close>

datatype msg = Fmt string "arg list"
and arg = AStr string | AF64 f64 | AInt int | AStrs "string list" | AMsg msg

abbreviation Msg :: "string \<Rightarrow> msg" where
  "Msg s \<equiv> Fmt s []"

text \<open>The bytes of an em dash in UTF-8.\<close>

definition em_dash :: string where
  "em_dash = [CHR 0xE2, CHR 0x80, CHR 0x94]"

text \<open>The argument for an unsigned machine integer.\<close>

definition AWord :: "'a::len word \<Rightarrow> arg" where
  "AWord w = AInt (uint w)"

section \<open>Digests\<close>

text \<open>
  SHA-256 (\<open>sha2\<close>) and the hexadecimal encoder (\<open>hex\<close>) are third-party functions
  on byte strings; the functions of the sources that hash take them in this record.
\<close>

record digests =
  sha256 :: "string \<Rightarrow> string"
  hex_encode :: "string \<Rightarrow> string"

end
