(* ===== verification/Canonical.thy ===== *)
theory Canonical
  imports Values
begin

text \<open>
  The canonical byte encodings of \<open>crypto_protocol.rs\<close>, over which every
  security-critical signature of the system is computed: a domain string and
  named fields, each with a four-byte length in front.  A field longer than
  \<open>u32::MAX\<close> panics, which is the value \<^term>\<open>None\<close>.

  The encoding is injective (\<open>canonical_fields_inject\<close>), so a signature over a
  payload is a signature over exactly one domain and one list of fields.
\<close>

definition CALL_SIGNATURE_VERSION :: string where
  "CALL_SIGNATURE_VERSION = ''2''"

definition CALL_SIGNATURE_DOMAIN :: string where
  "CALL_SIGNATURE_DOMAIN = ''sauron.call.v2''"

definition CALL_SIGNATURE_V3_VERSION :: string where
  "CALL_SIGNATURE_V3_VERSION = ''3''"

definition CALL_SIGNATURE_V3_DOMAIN :: string where
  "CALL_SIGNATURE_V3_DOMAIN = ''sauron.call.v3''"

definition PARTNER_REGISTRATION_DOMAIN :: string where
  "PARTNER_REGISTRATION_DOMAIN = ''sauron.partner-registration.v2''"

definition DEPLOYMENT_LICENCE_DOMAIN :: string where
  "DEPLOYMENT_LICENCE_DOMAIN = ''sauron.deployment-licence.v1''"

definition USER_AUTH_CHALLENGE_DOMAIN :: string where
  "USER_AUTH_CHALLENGE_DOMAIN = ''sauron.user-auth-challenge.v1''"

section \<open>The encoding\<close>

definition u32_to_be_bytes :: "u32 \<Rightarrow> string" where
  "u32_to_be_bytes w = map (\<lambda>k. char_of (unat (drop_bit k w) mod 256)) [24, 16, 8, 0]"

definition push_len_prefixed :: "string \<Rightarrow> string \<Rightarrow> string option" where
  "push_len_prefixed out value =
     (if length value < 2 ^ 32
      then Some (out @ u32_to_be_bytes (of_nat (length value)) @ value)
      else None)"

fun push_fields :: "string \<Rightarrow> (string \<times> string) list \<Rightarrow> string option" where
  "push_fields out [] = Some out"
| "push_fields out ((name, value) # fs) =
     Option.bind (push_len_prefixed out name) (\<lambda>out.
     Option.bind (push_len_prefixed out value) (\<lambda>out.
     push_fields out fs))"

definition canonical_fields :: "string \<Rightarrow> (string \<times> string) list \<Rightarrow> string option" where
  "canonical_fields domain fs =
     Option.bind (push_len_prefixed [] domain) (\<lambda>out. push_fields out fs)"

section \<open>The signed payloads\<close>

record call_signature_input =
  cs_agent_id :: string
  cs_tenant_id :: string
  cs_audience :: string
  cs_method :: string
  cs_target_uri :: string
  cs_content_type :: string
  cs_body_sha256_hex :: string
  cs_config_digest :: string
  cs_timestamp_ms :: string
  cs_nonce :: string

definition call_signature_payload :: "call_signature_input \<Rightarrow> string option" where
  "call_signature_payload i = canonical_fields CALL_SIGNATURE_DOMAIN
     [(''version'', CALL_SIGNATURE_VERSION),
      (''agent_id'', cs_agent_id i),
      (''tenant_id'', cs_tenant_id i),
      (''audience'', cs_audience i),
      (''method'', cs_method i),
      (''target_uri'', cs_target_uri i),
      (''content_type'', cs_content_type i),
      (''body_sha256'', cs_body_sha256_hex i),
      (''config_digest'', cs_config_digest i),
      (''timestamp_ms'', cs_timestamp_ms i),
      (''nonce'', cs_nonce i)]"

record call_signature_v3_input =
  c3_agent_id :: string
  c3_tenant_id :: string
  c3_audience :: string
  c3_method :: string
  c3_target_uri :: string
  c3_content_type :: string
  c3_body_sha256_hex :: string
  c3_config_digest :: string
  c3_mandate_digest :: string
  c3_run_id :: string
  c3_timestamp_ms :: string
  c3_expires_at_ms :: string
  c3_nonce :: string

definition call_signature_v3_payload :: "call_signature_v3_input \<Rightarrow> string option" where
  "call_signature_v3_payload i = canonical_fields CALL_SIGNATURE_V3_DOMAIN
     [(''version'', CALL_SIGNATURE_V3_VERSION),
      (''agent_id'', c3_agent_id i),
      (''tenant_id'', c3_tenant_id i),
      (''audience'', c3_audience i),
      (''method'', c3_method i),
      (''target_uri'', c3_target_uri i),
      (''content_type'', c3_content_type i),
      (''body_sha256'', c3_body_sha256_hex i),
      (''config_digest'', c3_config_digest i),
      (''mandate_digest'', c3_mandate_digest i),
      (''run_id'', c3_run_id i),
      (''timestamp_ms'', c3_timestamp_ms i),
      (''expires_at_ms'', c3_expires_at_ms i),
      (''nonce'', c3_nonce i)]"

record deployment_licence_input =
  dl_licence_id :: string
  dl_licensee :: string
  dl_tenant_id :: string
  dl_max_agents :: string
  dl_issued_at_ms :: string
  dl_expires_at_ms :: string

definition deployment_licence_payload :: "deployment_licence_input \<Rightarrow> string option" where
  "deployment_licence_payload i = canonical_fields DEPLOYMENT_LICENCE_DOMAIN
     [(''licence_id'', dl_licence_id i),
      (''licensee'', dl_licensee i),
      (''tenant_id'', dl_tenant_id i),
      (''max_agents'', dl_max_agents i),
      (''issued_at_ms'', dl_issued_at_ms i),
      (''expires_at_ms'', dl_expires_at_ms i)]"

record owner_mandate_input =
  om_tenant_id :: string
  om_human_key_image :: string
  om_agent_public_key_hex :: string
  om_pop_public_key_b64u :: string
  om_intent_json :: string
  om_ttl_secs :: string

definition owner_mandate_payload :: "owner_mandate_input \<Rightarrow> string option" where
  "owner_mandate_payload i = canonical_fields ''sauron.owner-mandate.v1''
     [(''tenant_id'', om_tenant_id i),
      (''human_key_image'', om_human_key_image i),
      (''agent_public_key_hex'', om_agent_public_key_hex i),
      (''pop_public_key_b64u'', om_pop_public_key_b64u i),
      (''intent_json'', om_intent_json i),
      (''ttl_secs'', om_ttl_secs i)]"

definition owner_mandate_hash :: "('z) digests_scheme \<Rightarrow> owner_mandate_input \<Rightarrow> string option" where
  "owner_mandate_hash H i = map_option (\<lambda>p. hex_encode H (sha256 H p)) (owner_mandate_payload i)"

record partner_registration_input =
  pr_tenant_id :: string
  pr_public_key_hex :: string
  pr_key_image_hex :: string
  pr_first_name :: string
  pr_last_name :: string
  pr_email :: string
  pr_date_of_birth :: string
  pr_nationality :: string
  pr_commitment :: string
  pr_auth_public_key_b64u :: string

definition partner_registration_payload :: "partner_registration_input \<Rightarrow> string option" where
  "partner_registration_payload i = canonical_fields PARTNER_REGISTRATION_DOMAIN
     [(''tenant_id'', pr_tenant_id i),
      (''public_key_hex'', pr_public_key_hex i),
      (''key_image_hex'', pr_key_image_hex i),
      (''first_name'', pr_first_name i),
      (''last_name'', pr_last_name i),
      (''email'', pr_email i),
      (''date_of_birth'', pr_date_of_birth i),
      (''nationality'', pr_nationality i),
      (''commitment'', pr_commitment i),
      (''auth_public_key_b64u'', pr_auth_public_key_b64u i)]"

definition user_auth_challenge_payload ::
  "string \<Rightarrow> string \<Rightarrow> string \<Rightarrow> string \<Rightarrow> i64 \<Rightarrow> string option" where
  "user_auth_challenge_payload challenge_id tenant_id key_image_hex nonce expires_at =
     canonical_fields USER_AUTH_CHALLENGE_DOMAIN
     [(''challenge_id'', challenge_id),
      (''tenant_id'', tenant_id),
      (''key_image_hex'', key_image_hex),
      (''nonce'', nonce),
      (''expires_at'', int_to_string expires_at)]"

text \<open>
  The RFC 7638 thumbprint of an Ed25519 key.  The base64url codec is third-party
  code: \<open>decode\<close> returns the decoder's error text, \<open>encode\<close> has no padding.
\<close>

definition jwk_json :: "string \<Rightarrow> string" where
  "jwk_json x =
     (let q = [CHR 0x22] in
      ''{'' @ q @ ''crv'' @ q @ '':'' @ q @ ''Ed25519'' @ q @ '','' @ q @ ''kty'' @ q @ '':'' @ q @
      ''OKP'' @ q @ '','' @ q @ ''x'' @ q @ '':'' @ q @ x @ q @ ''}'')"

definition ed25519_jwk_thumbprint ::
  "('z) digests_scheme \<Rightarrow> (string \<Rightarrow> (string, string) result) \<Rightarrow> (string \<Rightarrow> string) \<Rightarrow>
   string \<Rightarrow> (msg, string) result" where
  "ed25519_jwk_thumbprint H decode encode public_key_b64u =
     and_then (map_err (\<lambda>e. Fmt ''PoP public key is not base64url: {e}'' [AStr e])
         (decode (trim public_key_b64u))) (\<lambda>key.
     if length key \<noteq> 32
     then Err (Fmt ''PoP public key must decode to 32 bytes, got {}'' [AInt (int (length key))])
     else Ok (encode (sha256 H (jwk_json (trim public_key_b64u)))))"

section \<open>Injectivity\<close>

definition encoded :: "string \<Rightarrow> string" where
  "encoded value = u32_to_be_bytes (of_nat (length value)) @ value"

definition fits :: "string \<Rightarrow> bool" where
  "fits value \<longleftrightarrow> length value < 2 ^ 32"

lemma push_len_prefixed_Some_iff:
  "push_len_prefixed out value = Some x \<longleftrightarrow> fits value \<and> x = out @ encoded value"
  by (auto simp: push_len_prefixed_def fits_def encoded_def)

lemma push_fields_Some_iff:
  "push_fields out fs = Some x \<longleftrightarrow>
     (\<forall>(n, v) \<in> set fs. fits n \<and> fits v) \<and>
     x = out @ concat (map (\<lambda>(n, v). encoded n @ encoded v) fs)"
proof (induction fs arbitrary: out)
  case (Cons f fs)
  obtain n v where f: "f = (n, v)" by force
  show ?case
    by (auto simp: f bind_eq_Some_conv push_len_prefixed_Some_iff Cons)
qed auto

lemma canonical_fields_Some_iff:
  "canonical_fields domain fs = Some x \<longleftrightarrow>
     fits domain \<and> (\<forall>(n, v) \<in> set fs. fits n \<and> fits v) \<and>
     x = encoded domain @ concat (map (\<lambda>(n, v). encoded n @ encoded v) fs)"
  by (auto simp: canonical_fields_def bind_eq_Some_conv push_len_prefixed_Some_iff
      push_fields_Some_iff)

lemma length_u32_to_be_bytes [simp]: "length (u32_to_be_bytes w) = 4"
  by (simp add: u32_to_be_bytes_def)

lemma be_digits:
  assumes "n < 2 ^ 32"
  shows "256 * (256 * (256 * (n div 2 ^ 24 mod 256) + n div 2 ^ 16 mod 256) + n div 2 ^ 8 mod 256) +
    n mod 256 = (n :: nat)"
proof -
  have "n div 2 ^ 24 = n div 2 ^ 16 div 256" "n div 2 ^ 16 = n div 2 ^ 8 div 256"
      "n div 2 ^ 8 = n div 256"
    by (simp_all add: div_mult2_eq [symmetric])
  moreover have "n div 2 ^ 24 mod 256 = n div 2 ^ 24"
    using assms by (simp add: less_mult_imp_div_less)
  ultimately show ?thesis
    by (simp only: mult_div_mod_eq)
qed

lemma u32_to_be_bytes_value:
  "foldl (\<lambda>a c. 256 * a + byte c) 0 (u32_to_be_bytes w) = unat w"
proof -
  have "unat w < 2 ^ 32"
    using unsigned_less [of w, where 'a = nat] by simp
  then show ?thesis
    using be_digits by (simp add: u32_to_be_bytes_def unat_drop_bit_eq drop_bit_eq_div byte_def
        of_char_of unat_div)
qed

lemma u32_to_be_bytes_inject [simp]: "u32_to_be_bytes v = u32_to_be_bytes w \<longleftrightarrow> v = w"
  by (metis u32_to_be_bytes_value unsigned_word_eqI)

lemma unat_u32_of_nat: "n < 2 ^ 32 \<Longrightarrow> unat (of_nat n :: u32) = n"
  by (simp add: unat_of_nat)

lemma encoded_append_inject:
  assumes "encoded a @ u = encoded b @ v" "fits a" "fits b"
  shows "a = b \<and> u = v"
proof -
  have "u32_to_be_bytes (of_nat (length a)) = u32_to_be_bytes (of_nat (length b))"
      and tail: "a @ u = b @ v"
    using assms(1) by (simp_all add: encoded_def)
  then have "(of_nat (length a) :: u32) = of_nat (length b)"
    by simp
  then have "length a = length b"
    using assms(2,3) unat_u32_of_nat by (metis fits_def)
  with tail show ?thesis
    by simp
qed

lemma encoded_neq_Nil [simp]: "encoded a \<noteq> []" "[] \<noteq> encoded a"
  by (auto simp: encoded_def u32_to_be_bytes_def)

lemma encoded_fields_inject:
  assumes "concat (map (\<lambda>(n, v). encoded n @ encoded v) fs) =
      concat (map (\<lambda>(n, v). encoded n @ encoded v) gs)"
    and "\<forall>(n, v) \<in> set fs. fits n \<and> fits v" "\<forall>(n, v) \<in> set gs. fits n \<and> fits v"
  shows "fs = gs"
  using assms
proof (induction fs arbitrary: gs)
  case Nil
  then show ?case by (cases gs) auto
next
  case (Cons f fs)
  obtain n v where f: "f = (n, v)" by force
  from Cons.prems(1) obtain g gs' where gs: "gs = g # gs'"
    by (cases gs) (auto simp: f)
  obtain m w where g: "g = (m, w)" by force
  have "n = m \<and> encoded v @ concat (map (\<lambda>(n, v). encoded n @ encoded v) fs) =
      encoded w @ concat (map (\<lambda>(n, v). encoded n @ encoded v) gs')"
    using Cons.prems by (intro encoded_append_inject) (auto simp: f gs g)
  moreover from this have "v = w \<and> concat (map (\<lambda>(n, v). encoded n @ encoded v) fs) =
      concat (map (\<lambda>(n, v). encoded n @ encoded v) gs')"
    using Cons.prems by (intro encoded_append_inject) (auto simp: f gs g)
  ultimately show ?case
    using Cons.IH [of gs'] Cons.prems by (auto simp: f gs g)
qed

lemma canonical_fields_inject:
  assumes "canonical_fields d fs = Some x" "canonical_fields e gs = Some x"
  shows "d = e \<and> fs = gs"
proof -
  let ?c = "\<lambda>fs. concat (map (\<lambda>(n, v). encoded n @ encoded v) fs)"
  from assms have "encoded d @ ?c fs = encoded e @ ?c gs" "fits d" "fits e"
      and fit: "\<forall>(n, v) \<in> set fs. fits n \<and> fits v" "\<forall>(n, v) \<in> set gs. fits n \<and> fits v"
    by (auto simp: canonical_fields_Some_iff)
  then have "d = e \<and> ?c fs = ?c gs"
    by (intro encoded_append_inject)
  then show ?thesis
    using encoded_fields_inject fit by blast
qed

lemma canonical_fields_total:
  assumes "fits d" "\<forall>(n, v) \<in> set fs. fits n \<and> fits v"
  shows "\<exists>x. canonical_fields d fs = Some x"
  using assms canonical_fields_Some_iff by blast

section \<open>Signatures do not cross protocols\<close>

text \<open>A statement that some party of the system signs with its own key.\<close>

datatype signed_statement =
    CallV2 call_signature_input
  | CallV3 call_signature_v3_input
  | Licence deployment_licence_input
  | OwnerMandate owner_mandate_input
  | PartnerRegistration partner_registration_input
  | UserAuthChallenge string string string string i64

fun signed_payload :: "signed_statement \<Rightarrow> string option" where
  "signed_payload (CallV2 i) = call_signature_payload i"
| "signed_payload (CallV3 i) = call_signature_v3_payload i"
| "signed_payload (Licence i) = deployment_licence_payload i"
| "signed_payload (OwnerMandate i) = owner_mandate_payload i"
| "signed_payload (PartnerRegistration i) = partner_registration_payload i"
| "signed_payload (UserAuthChallenge c t k n e) = user_auth_challenge_payload c t k n e"

lemmas payload_defs =
  call_signature_payload_def call_signature_v3_payload_def deployment_licence_payload_def
  owner_mandate_payload_def partner_registration_payload_def user_auth_challenge_payload_def

lemmas domain_defs =
  CALL_SIGNATURE_DOMAIN_def CALL_SIGNATURE_V3_DOMAIN_def PARTNER_REGISTRATION_DOMAIN_def
  DEPLOYMENT_LICENCE_DOMAIN_def USER_AUTH_CHALLENGE_DOMAIN_def

text \<open>
  C8. The bytes signed for a call (protocol 2 or 3), a deployment licence, an owner
  mandate, a partner registration or a login challenge determine the protocol and every
  field: two statements with the same signed bytes are the same statement.  A signature
  can be replayed neither for other field values nor in another protocol.\<close>

theorem signed_payload_determines_statement:
  assumes "signed_payload s = Some x" "signed_payload t = Some x"
  shows "s = t"
  using assms
  by (cases s; cases t)
     (simp_all add: payload_defs domain_defs,
      (drule (1) canonical_fields_inject, simp)+)

definition demo_call :: call_signature_input where
  "demo_call = \<lparr> cs_agent_id = ''agt_1'', cs_tenant_id = ''acme'', cs_audience = ''sauron'',
     cs_method = ''POST'', cs_target_uri = ''/agent/payment/authorize'',
     cs_content_type = ''application/json'', cs_body_sha256_hex = ''e3b0'',
     cs_config_digest = ''sha256:00'', cs_timestamp_ms = ''1700000000000'',
     cs_nonce = ''n0123456789'' \<rparr>"

theorem signed_payload_determines_statement_witness:
  "\<exists>x. signed_payload (CallV2 demo_call) = Some x \<and>
     (\<forall>t. signed_payload t = Some x \<longrightarrow> t = CallV2 demo_call)"
proof -
  have "\<exists>x. signed_payload (CallV2 demo_call) = Some x"
    by (simp add: payload_defs domain_defs CALL_SIGNATURE_VERSION_def demo_call_def,
        rule canonical_fields_total) (simp_all add: fits_def)
  then show ?thesis
    using signed_payload_determines_statement by blast
qed

end
