(* ===== verification/Hash_Chain.thy ===== *)
theory Hash_Chain
  imports Prelude
begin

text \<open>
  The contract shared by the receipt chain of \<open>agent_action/receipts.rs\<close> and the audit
  chain of \<open>middleware/audit_log.rs\<close>.  An entry has a position and the link of its
  predecessor, and \<open>link\<close> computes what its successor must carry; \<open>link e = None\<close> when the
  entry itself does not verify.
\<close>

fun chained ::
  "('e \<Rightarrow> int) \<Rightarrow> ('e \<Rightarrow> string) \<Rightarrow> ('e \<Rightarrow> string option) \<Rightarrow> int \<Rightarrow> string \<Rightarrow> 'e list \<Rightarrow> bool" where
  "chained sq pv link n h [] \<longleftrightarrow> True"
| "chained sq pv link n h (e # es) \<longleftrightarrow> sq e = n \<and> pv e = h \<and>
     (case link e of None \<Rightarrow> False | Some h' \<Rightarrow> chained sq pv link (n + 1) h' es)"

text \<open>The link a chain ends with.\<close>

definition chain_end :: "('e \<Rightarrow> string option) \<Rightarrow> string \<Rightarrow> 'e list \<Rightarrow> string option" where
  "chain_end link h es = (if es = [] then Some h else link (last es))"

locale hash_chain =
  fixes sq :: "'e \<Rightarrow> int" and pv :: "'e \<Rightarrow> string" and link :: "'e \<Rightarrow> string option"
    and content :: "'e \<Rightarrow> 'c" and genesis :: string
  assumes content_sq: "content e = content f \<Longrightarrow> sq e = sq f"
    and content_pv: "content e = content f \<Longrightarrow> pv e = pv f"
begin

lemma chained_append:
  "chained sq pv link n h (es @ fs) \<longleftrightarrow> chained sq pv link n h es \<and>
     (fs = [] \<or> (\<exists>h'. chain_end link h es = Some h' \<and>
        chained sq pv link (n + int (length es)) h' fs))"
proof (induction es arbitrary: n h)
  case Nil
  then show ?case by (cases fs) (simp_all add: chain_end_def)
next
  case (Cons e es)
  show ?case
    by (auto simp: Cons chain_end_def add.assoc split: option.splits)
qed

lemma chained_snoc:
  "chained sq pv link n h (es @ [e]) \<longleftrightarrow> chained sq pv link n h es \<and>
     sq e = n + int (length es) \<and> chain_end link h es = Some (pv e) \<and> link e \<noteq> None"
  by (auto simp: chained_append split: option.splits)

lemma chained_nth_sq: "chained sq pv link n h es \<Longrightarrow> i < length es \<Longrightarrow> sq (es ! i) = n + int i"
proof (induction es arbitrary: n h i)
  case (Cons e es)
  then show ?case
    by (cases i) (force split: option.splits)+
qed simp

lemma chained_sq_bounds:
  assumes "chained sq pv link n h es" "e \<in> set es"
  shows "n \<le> sq e \<and> sq e < n + int (length es)"
  using assms by (auto simp: in_set_conv_nth chained_nth_sq)

lemma chained_sorted: "chained sq pv link n h es \<Longrightarrow> sorted (map sq es)"
  by (auto simp: sorted_iff_nth_mono chained_nth_sq)

lemma chained_distinct: "chained sq pv link n h es \<Longrightarrow> distinct (map sq es)"
  by (auto simp: distinct_conv_nth chained_nth_sq)

text \<open>A chain is determined, entry by entry, by its last link.\<close>

lemma chained_determined:
  assumes "chained sq pv link 1 genesis es" "chained sq pv link 1 genesis fs"
    and "es \<noteq> []" "fs \<noteq> []" "link (last es) = link (last fs)"
    and no_collision: "\<And>e f. e \<in> set es \<Longrightarrow> f \<in> set fs \<Longrightarrow> link e = link f \<Longrightarrow> content e = content f"
  shows "map content es = map content fs"
  using assms
proof (induction es arbitrary: fs rule: rev_induct)
  case (snoc e es)
  obtain fs' f where fs: "fs = fs' @ [f]"
    using snoc.prems(4) by (metis append_butlast_last_id)
  have same: "content e = content f"
    using snoc.prems(5,6) by (simp add: fs)
  have len: "length es = length fs'"
    using snoc.prems(1,2) content_sq [OF same] by (simp add: fs chained_snoc)
  have ends: "chain_end link genesis es = chain_end link genesis fs'"
    using snoc.prems(1,2) content_pv [OF same] by (simp add: fs chained_snoc)
  have "map content es = map content fs'"
  proof (cases "es = []")
    case True
    then show ?thesis using len by simp
  next
    case False
    then have "fs' \<noteq> []"
      using len by auto
    then show ?thesis
      using snoc.prems False ends
      by (intro snoc.IH) (auto simp: fs chained_snoc chain_end_def)
  qed
  then show ?case
    using same by (simp add: fs)
qed simp

end

end
