(* ===== verification/App_Error.thy ===== *)
theory App_Error
  imports Values
begin

text \<open>
  The errors of the HTTP handlers (\<open>error.rs\<close>).  \<open>Panicked\<close> is not a value of the
  source: it stands for a handler that panics, and its display form is never used.  The remediation hint of a detailed error
  is not part of the model.
\<close>

datatype app_error =
    BadRequest msg
  | Unauthorized msg
  | NotFound msg
  | Conflict msg
  | ServiceUnavailable msg
  | Internal msg
  | Detailed nat string msg
  | Panicked

fun status :: "app_error \<Rightarrow> nat" where
  "status (BadRequest _) = 400"
| "status (Unauthorized _) = 401"
| "status (NotFound _) = 404"
| "status (Conflict _) = 409"
| "status (ServiceUnavailable _) = 503"
| "status (Internal _) = 500"
| "status (Detailed s _ _) = s"
| "status Panicked = 500"

text \<open>The status, code and message of the response; an internal error hides its message.\<close>

fun into_response :: "app_error \<Rightarrow> nat \<times> string \<times> msg" where
  "into_response (BadRequest m) = (400, ''bad_request'', m)"
| "into_response (Unauthorized m) = (401, ''unauthorized'', m)"
| "into_response (NotFound m) = (404, ''not_found'', m)"
| "into_response (Conflict m) = (409, ''conflict'', m)"
| "into_response (ServiceUnavailable m) = (503, ''service_unavailable'', m)"
| "into_response (Internal m) = (500, ''internal'', Msg ''internal server error'')"
| "into_response (Detailed s c m) = (s, c, m)"
| "into_response Panicked = (500, ''internal'', Msg ''internal server error'')"

definition app_error_from :: "nat \<Rightarrow> msg \<Rightarrow> app_error" where
  "app_error_from s m =
     (if s = 400 then BadRequest m
      else if s = 401 then Unauthorized m
      else if s = 404 then NotFound m
      else if s = 409 then Conflict m
      else if s = 503 then ServiceUnavailable m
      else if s = 500 then Internal m
      else Detailed s
        (if s = 403 then ''forbidden''
         else if s = 422 then ''unprocessable_entity''
         else if s = 429 then ''rate_limited''
         else if s = 413 then ''payload_too_large''
         else ''error'') m)"

fun app_error_display :: "app_error \<Rightarrow> msg" where
  "app_error_display (BadRequest m) = Fmt ''bad request: {s}'' [AMsg m]"
| "app_error_display (Unauthorized m) = Fmt ''unauthorized: {s}'' [AMsg m]"
| "app_error_display (NotFound m) = Fmt ''not found: {s}'' [AMsg m]"
| "app_error_display (Conflict m) = Fmt ''conflict: {s}'' [AMsg m]"
| "app_error_display (ServiceUnavailable m) = Fmt ''service unavailable: {s}'' [AMsg m]"
| "app_error_display (Internal m) = Fmt ''internal: {s}'' [AMsg m]"
| "app_error_display (Detailed s c m) = Fmt ''{code}: {message}'' [AStr c, AMsg m]"
| "app_error_display Panicked = Msg []"

definition is_db_contention :: "string \<Rightarrow> bool" where
  "is_db_contention message =
     (let m = to_ascii_lowercase message in
      str_contains m ''database is locked'' \<or> str_contains m ''database table is locked'' \<or>
      str_contains m ''deadlock detected'' \<or> str_contains m ''could not serialize access'')"

definition from_db_message :: "string \<Rightarrow> string \<Rightarrow> app_error" where
  "from_db_message context message =
     (if is_db_contention message
      then Detailed 503 ''db_contention'' (Fmt ''{context}: {message}'' [AStr context, AStr message])
      else Internal (Fmt ''{context}: {message}'' [AStr context, AStr message]))"

text \<open>An early return of a handler with a status and a message.\<close>

abbreviation fail :: "nat \<Rightarrow> msg \<Rightarrow> (app_error, 'a) result" where
  "fail s m \<equiv> Err (app_error_from s m)"

definition require :: "bool \<Rightarrow> nat \<Rightarrow> msg \<Rightarrow> (app_error, unit) result" where
  "require b s m = (if b then Ok () else fail s m)"

definition ok_or :: "'a option \<Rightarrow> 'e \<Rightarrow> ('e, 'a) result" where
  "ok_or x e = (case x of None \<Rightarrow> Err e | Some y \<Rightarrow> Ok y)"

lemma require_simps [simp]:
  "require True s m = Ok ()" "require False s m = fail s m"
  by (simp_all add: require_def)

lemma require_Ok_iff [simp]: "require b s m = Ok u \<longleftrightarrow> b"
  by (simp add: require_def)

lemma ok_or_simps [simp]: "ok_or None e = Err e" "ok_or (Some x) e = Ok x"
  by (simp_all add: ok_or_def)

lemma ok_or_Ok_iff [simp]: "ok_or x e = Ok y \<longleftrightarrow> x = Some y"
  by (cases x) simp_all

lemma status_app_error_from [simp]: "status (app_error_from s m) = s"
  by (simp add: app_error_from_def)

end
