(* ===== verification/Receipts.thy ===== *)
theory Receipts
  imports Canonical Hash_Chain App_Error "HOL-Library.Multiset"
begin

text \<open>
  Action envelopes and receipts: the data of \<open>agent_action/types.rs\<close>, the canonical
  forms and hashes of \<open>agent_action/canonical.rs\<close>, and the receipt chain of
  \<open>agent_action/receipts.rs\<close>.  The table \<open>agent_action_receipts\<close> is the list of its
  rows; a query that orders by \<open>seq\<close> returns rows with equal \<open>seq\<close> in table order.

  The receipt chain is an instance of the locale \<open>hash_chain\<close>.
\<close>

section \<open>Data\<close>

record agent_action_envelope =
  ev_agent_id :: string
  ev_human_key_image :: string
  ev_action :: string
  ev_resource :: string
  ev_merchant_id :: string
  ev_amount_minor :: i64
  ev_currency :: string
  ev_nonce :: string
  ev_expires_at :: i64
  ev_policy_hash :: string
  ev_ajwt_jti :: string

record action_receipt =
  rc_tenant_id :: string
  rc_receipt_id :: string
  rc_action_hash :: string
  rc_agent_id :: string
  rc_ring_key_image_hex :: string
  rc_policy_version :: string
  rc_ajwt_jti :: string
  rc_pop_jkt :: string
  rc_timestamp :: i64
  rc_status :: string
  rc_signature :: string
  rc_seq :: i64
  rc_prev_hash :: string
  rc_owner_mandate_hash :: string

text \<open>
  HKDF and HMAC with SHA-256 (\<open>hkdf\<close>, \<open>hmac\<close>) and the JSON form of a string
  (\<open>serde_json::to_string\<close>) are third-party functions.
\<close>

record crypto = digests +
  hkdf_sha256 :: "string \<Rightarrow> string \<Rightarrow> string \<Rightarrow> string"
  hmac_sha256 :: "string \<Rightarrow> string \<Rightarrow> string"
  json_str :: "string \<Rightarrow> string"

definition derive_subkey :: "('z) crypto_scheme \<Rightarrow> string \<Rightarrow> string \<Rightarrow> string" where
  "derive_subkey H master_secret domain =
     hkdf_sha256 H ''sauronid-hkdf-sha256-v1'' master_secret domain"

section \<open>Canonical forms\<close>

definition quoted :: "string \<Rightarrow> string" where
  "quoted s = CHR 0x22 # s @ [CHR 0x22]"

definition canonical_envelope_json :: "('z) crypto_scheme \<Rightarrow> agent_action_envelope \<Rightarrow> string" where
  "canonical_envelope_json H e =
     ''{'' @ quoted ''agent_id'' @ '':'' @ json_str H (ev_agent_id e) @
     '','' @ quoted ''human_key_image'' @ '':'' @ json_str H (ev_human_key_image e) @
     '','' @ quoted ''action'' @ '':'' @ json_str H (ev_action e) @
     '','' @ quoted ''resource'' @ '':'' @ json_str H (ev_resource e) @
     '','' @ quoted ''merchant_id'' @ '':'' @ json_str H (ev_merchant_id e) @
     '','' @ quoted ''amount_minor'' @ '':'' @ int_to_string (ev_amount_minor e) @
     '','' @ quoted ''currency'' @ '':'' @ json_str H (ev_currency e) @
     '','' @ quoted ''nonce'' @ '':'' @ json_str H (ev_nonce e) @
     '','' @ quoted ''expires_at'' @ '':'' @ int_to_string (ev_expires_at e) @
     '','' @ quoted ''policy_hash'' @ '':'' @ json_str H (ev_policy_hash e) @
     '','' @ quoted ''ajwt_jti'' @ '':'' @ json_str H (ev_ajwt_jti e) @ ''}''"

definition action_hash :: "('z) crypto_scheme \<Rightarrow> agent_action_envelope \<Rightarrow> string" where
  "action_hash H e = hex_encode H (sha256 H (canonical_envelope_json H e))"

definition KYA_POLICY_MATRIX_VERSION :: string where
  "KYA_POLICY_MATRIX_VERSION = ''kya_matrix_v2''"

definition expected_policy_hash :: "('z) crypto_scheme \<Rightarrow> string \<Rightarrow> string" where
  "expected_policy_hash H action =
     hex_encode H (sha256 H (''SAURON_AGENT_ACTION_POLICY|'' @ KYA_POLICY_MATRIX_VERSION @ ''|'' @
       trim action))"

text \<open>The fields that every form of a receipt commits to, in the order of the chain payload.\<close>

definition chain_fields :: "action_receipt \<Rightarrow> (string \<times> string) list" where
  "chain_fields r =
     [(''seq'', int_to_string (rc_seq r)),
      (''prev_hash'', rc_prev_hash r),
      (''tenant_id'', rc_tenant_id r),
      (''receipt_id'', rc_receipt_id r),
      (''action_hash'', rc_action_hash r),
      (''agent_id'', rc_agent_id r),
      (''ring_key_image_hex'', rc_ring_key_image_hex r),
      (''policy_version'', rc_policy_version r),
      (''ajwt_jti'', rc_ajwt_jti r),
      (''pop_jkt'', rc_pop_jkt r),
      (''timestamp'', int_to_string (rc_timestamp r)),
      (''status'', rc_status r)]"

definition receipt_chain_payload :: "action_receipt \<Rightarrow> string option" where
  "receipt_chain_payload r =
     Option.bind (canonical_fields ''sauron.agent-action-receipt-chain.v1'' (chain_fields r)) (\<lambda>payload.
     if rc_owner_mandate_hash r = [] then Some payload
     else canonical_fields ''sauron.agent-action-receipt-chain.v2''
       (chain_fields r @ [(''owner_mandate_hash'', rc_owner_mandate_hash r)]))"

definition receipt_chain_hash :: "('z) crypto_scheme \<Rightarrow> action_receipt \<Rightarrow> string option" where
  "receipt_chain_hash H r =
     map_option (\<lambda>payload. hex_encode H (sha256 H payload)) (receipt_chain_payload r)"

section \<open>Signatures\<close>

definition signing_fields :: "action_receipt \<Rightarrow> (string \<times> string) list" where
  "signing_fields r =
     [(''tenant_id'', rc_tenant_id r),
      (''receipt_id'', rc_receipt_id r),
      (''action_hash'', rc_action_hash r),
      (''agent_id'', rc_agent_id r),
      (''ring_key_image_hex'', rc_ring_key_image_hex r),
      (''policy_version'', rc_policy_version r),
      (''ajwt_jti'', rc_ajwt_jti r),
      (''pop_jkt'', rc_pop_jkt r),
      (''timestamp'', int_to_string (rc_timestamp r)),
      (''status'', rc_status r)]"

definition receipt_signing_payload :: "action_receipt \<Rightarrow> string option" where
  "receipt_signing_payload r =
     (if 0 < rc_seq r \<and> rc_owner_mandate_hash r \<noteq> [] then
        canonical_fields ''sauron.agent-action-receipt.v4''
          (signing_fields r @ [(''seq'', int_to_string (rc_seq r)), (''prev_hash'', rc_prev_hash r),
             (''owner_mandate_hash'', rc_owner_mandate_hash r)])
      else if 0 < rc_seq r then
        canonical_fields ''sauron.agent-action-receipt.v3''
          (signing_fields r @ [(''seq'', int_to_string (rc_seq r)), (''prev_hash'', rc_prev_hash r)])
      else canonical_fields ''sauron.agent-action-receipt.v2'' (signing_fields r))"

definition sign_receipt :: "('z) crypto_scheme \<Rightarrow> string \<Rightarrow> action_receipt \<Rightarrow> string option" where
  "sign_receipt H jwt_secret r =
     (let key = derive_subkey H jwt_secret ''action-receipt-hmac-v2'' in
      map_option (\<lambda>payload. ''v2.'' @ hex_encode H (hmac_sha256 H key payload))
        (receipt_signing_payload r))"

definition verify_receipt_signature ::
  "('z) crypto_scheme \<Rightarrow> string \<Rightarrow> action_receipt \<Rightarrow> bool option" where
  "verify_receipt_signature H jwt_secret r =
     map_option (\<lambda>expected. expected = rc_signature r) (sign_receipt H jwt_secret r)"

section \<open>The receipt table\<close>

text \<open>Columns that may be \<open>NULL\<close> are options; \<open>seq\<close> is \<open>NULL\<close> on rows older than the chain.\<close>

record receipt_row =
  row_receipt_id :: string
  row_action_hash :: string
  row_agent_id :: string
  row_ring_key_image_hex :: string
  row_policy_version :: string
  row_ajwt_jti :: string
  row_pop_jkt :: string
  row_status :: string
  row_signature :: string
  row_created_at :: i64
  row_ring_id :: "string option"
  row_config_digest :: "string option"
  row_tenant_id :: string
  row_seq :: "i64 option"
  row_prev_hash :: "string option"
  row_owner_mandate_hash :: "string option"

type_synonym receipts_table = "receipt_row list"

definition ifnull :: "'a option \<Rightarrow> 'a \<Rightarrow> 'a" where
  "ifnull x d = (case x of None \<Rightarrow> d | Some y \<Rightarrow> y)"

definition receipt_of_row :: "receipt_row \<Rightarrow> action_receipt" where
  "receipt_of_row r =
     \<lparr> rc_tenant_id = row_tenant_id r,
       rc_receipt_id = row_receipt_id r,
       rc_action_hash = row_action_hash r,
       rc_agent_id = row_agent_id r,
       rc_ring_key_image_hex = row_ring_key_image_hex r,
       rc_policy_version = row_policy_version r,
       rc_ajwt_jti = row_ajwt_jti r,
       rc_pop_jkt = row_pop_jkt r,
       rc_timestamp = row_created_at r,
       rc_status = row_status r,
       rc_signature = row_signature r,
       rc_seq = ifnull (row_seq r) 0,
       rc_prev_hash = ifnull (row_prev_hash r) [],
       rc_owner_mandate_hash = ifnull (row_owner_mandate_hash r) [] \<rparr>"

definition load_receipt :: "receipts_table \<Rightarrow> string \<Rightarrow> action_receipt option" where
  "load_receipt db receipt_id =
     map_option receipt_of_row (find (\<lambda>r. row_receipt_id r = receipt_id) db)"

text \<open>\<open>Err None\<close> is a panic (an oversized field), \<open>Err (Some m)\<close> an error string.\<close>

definition next_chain_position ::
  "('z) crypto_scheme \<Rightarrow> receipts_table \<Rightarrow> string \<Rightarrow> (msg option, i64 \<times> string) result" where
  "next_chain_position H db tenant_id =
     (case sort_key (\<lambda>r. - ifnull (row_seq r) 0) (filter (\<lambda>r. row_tenant_id r = tenant_id) db) of
        [] \<Rightarrow> Ok (1, [])
      | head # _ \<Rightarrow>
          (let prev_seq = ifnull (row_seq head) 0 in
           if prev_seq = 0 then Ok (1, [])
           else
             and_then (ok_or (load_receipt db (row_receipt_id head))
                 (Some (Msg ''chain head receipt vanished between read and link''))) (\<lambda>prev.
             and_then (ok_or (receipt_chain_hash H prev) None) (\<lambda>h.
             Ok (i64_wrap (prev_seq + 1), h)))))"

fun verify_chain_loop ::
  "('z) crypto_scheme \<Rightarrow> receipts_table \<Rightarrow> string \<Rightarrow> string list \<Rightarrow> i64 \<Rightarrow> string \<Rightarrow> i64 \<Rightarrow>
   (msg option, i64) result" where
  "verify_chain_loop H db tenant_id [] expected_seq expected_prev checked = Ok checked"
| "verify_chain_loop H db tenant_id (rid # ids) expected_seq expected_prev checked =
     and_then (ok_or (load_receipt db rid)
         (Some (Fmt ''receipt {id} listed but not loadable'' [AStr rid]))) (\<lambda>receipt.
     if rc_seq receipt \<noteq> expected_seq then
       Err (Some (Fmt ''receipt chain break for tenant {tenant_id}: expected seq {expected_seq}, found {} ({})''
         [AStr tenant_id, AInt expected_seq, AInt (rc_seq receipt), AStr (rc_receipt_id receipt)]))
     else if rc_prev_hash receipt \<noteq> expected_prev then
       Err (Some (Fmt ''receipt chain break for tenant {tenant_id} at seq {}: prev_hash does not match the previous receipt''
         [AStr tenant_id, AInt (rc_seq receipt)]))
     else
       and_then (ok_or (receipt_chain_hash H receipt) None) (\<lambda>h.
       verify_chain_loop H db tenant_id ids (i64_wrap (expected_seq + 1)) h (i64_wrap (checked + 1))))"

definition verify_receipt_chain ::
  "('z) crypto_scheme \<Rightarrow> receipts_table \<Rightarrow> string \<Rightarrow> (msg option, i64) result" where
  "verify_receipt_chain H db tenant_id =
     verify_chain_loop H db tenant_id
       (map row_receipt_id
         (sort_key (\<lambda>r. ifnull (row_seq r) 0)
           (filter (\<lambda>r. row_tenant_id r = tenant_id \<and> 0 < ifnull (row_seq r) 0) db)))
       1 [] 0"

text \<open>
  \<open>INSERT ... ON CONFLICT (receipt_id) DO UPDATE\<close>: an existing row is updated by
  \<open>merge old new\<close>, otherwise the row is added.
\<close>

definition upsert_receipt ::
  "(receipt_row \<Rightarrow> receipt_row \<Rightarrow> receipt_row) \<Rightarrow> receipt_row \<Rightarrow> receipts_table \<Rightarrow> receipts_table" where
  "upsert_receipt merge row db =
     (if \<exists>r \<in> set db. row_receipt_id r = row_receipt_id row
      then map (\<lambda>r. if row_receipt_id r = row_receipt_id row then merge r row else r) db
      else db @ [row])"

lemma ifnull_simps [simp]: "ifnull None d = d" "ifnull (Some x) d = x"
  by (simp_all add: ifnull_def)

lemma receipt_of_row_simps [simp]:
  "rc_tenant_id (receipt_of_row r) = row_tenant_id r"
  "rc_receipt_id (receipt_of_row r) = row_receipt_id r"
  "rc_seq (receipt_of_row r) = ifnull (row_seq r) 0"
  "rc_prev_hash (receipt_of_row r) = ifnull (row_prev_hash r) []"
  by (simp_all add: receipt_of_row_def)

section \<open>What a receipt commits to\<close>

text \<open>Everything but the signature.\<close>

definition receipt_content :: "action_receipt \<Rightarrow> action_receipt" where
  "receipt_content r = r\<lparr> rc_signature := [] \<rparr>"

lemma receipt_content_eq_iff:
  "receipt_content r = receipt_content s \<longleftrightarrow>
     rc_tenant_id r = rc_tenant_id s \<and> rc_receipt_id r = rc_receipt_id s \<and>
     rc_action_hash r = rc_action_hash s \<and> rc_agent_id r = rc_agent_id s \<and>
     rc_ring_key_image_hex r = rc_ring_key_image_hex s \<and>
     rc_policy_version r = rc_policy_version s \<and> rc_ajwt_jti r = rc_ajwt_jti s \<and>
     rc_pop_jkt r = rc_pop_jkt s \<and> rc_timestamp r = rc_timestamp s \<and>
     rc_status r = rc_status s \<and> rc_seq r = rc_seq s \<and> rc_prev_hash r = rc_prev_hash s \<and>
     rc_owner_mandate_hash r = rc_owner_mandate_hash s"
  by (cases r; cases s) (auto simp: receipt_content_def)

lemma chain_fields_eqD:
  "chain_fields r = chain_fields s \<Longrightarrow> rc_owner_mandate_hash r = rc_owner_mandate_hash s \<Longrightarrow>
     receipt_content r = receipt_content s"
  by (simp add: chain_fields_def receipt_content_eq_iff)

lemma receipt_chain_payload_inject:
  assumes "receipt_chain_payload r = Some x" "receipt_chain_payload s = Some x"
  shows "receipt_content r = receipt_content s"
proof -
  have form: "\<exists>d. canonical_fields d (chain_fields r @ (if rc_owner_mandate_hash r = [] then []
        else [(''owner_mandate_hash'', rc_owner_mandate_hash r)])) = Some x"
    if "receipt_chain_payload r = Some x" for r
    using that by (auto simp: receipt_chain_payload_def bind_eq_Some_conv split: if_splits)
  obtain d e where "canonical_fields d (chain_fields r @ (if rc_owner_mandate_hash r = [] then []
        else [(''owner_mandate_hash'', rc_owner_mandate_hash r)])) = Some x"
      "canonical_fields e (chain_fields s @ (if rc_owner_mandate_hash s = [] then []
        else [(''owner_mandate_hash'', rc_owner_mandate_hash s)])) = Some x"
    using form assms by meson
  then have "chain_fields r @ (if rc_owner_mandate_hash r = [] then []
        else [(''owner_mandate_hash'', rc_owner_mandate_hash r)]) =
      chain_fields s @ (if rc_owner_mandate_hash s = [] then []
        else [(''owner_mandate_hash'', rc_owner_mandate_hash s)])"
    using canonical_fields_inject by blast
  then have "chain_fields r = chain_fields s" "rc_owner_mandate_hash r = rc_owner_mandate_hash s"
    by (auto simp: chain_fields_def split: if_splits)
  then show ?thesis
    by (rule chain_fields_eqD)
qed

lemma signing_fields_eqD:
  assumes "signing_fields r @ u = signing_fields s @ v"
  shows "signing_fields r = signing_fields s \<and> u = v"
  using assms by (rule append_eq_append_lengthD) (simp add: signing_fields_def)

lemma signing_fields_content:
  assumes "signing_fields r = signing_fields s" "rc_seq r = rc_seq s"
    "rc_prev_hash r = rc_prev_hash s" "rc_owner_mandate_hash r = rc_owner_mandate_hash s"
  shows "receipt_content r = receipt_content s"
  using assms by (simp add: signing_fields_def receipt_content_eq_iff)

lemma receipt_signing_payload_inject:
  assumes "receipt_signing_payload r = Some x" "receipt_signing_payload s = Some x" "0 < rc_seq r"
  shows "receipt_content r = receipt_content s"
proof (cases "rc_owner_mandate_hash r = []")
  case True
  then have r: "canonical_fields ''sauron.agent-action-receipt.v3''
      (signing_fields r @ [(''seq'', int_to_string (rc_seq r)), (''prev_hash'', rc_prev_hash r)]) = Some x"
    using assms(1,3) by (simp add: receipt_signing_payload_def)
  with assms(2) have "signing_fields r = signing_fields s \<and> rc_seq r = rc_seq s \<and>
      rc_prev_hash r = rc_prev_hash s \<and> rc_owner_mandate_hash s = []"
    unfolding receipt_signing_payload_def
    by (auto split: if_splits dest!: canonical_fields_inject [OF r] signing_fields_eqD)
  then show ?thesis
    using True by (intro signing_fields_content) simp_all
next
  case False
  then have r: "canonical_fields ''sauron.agent-action-receipt.v4''
      (signing_fields r @ [(''seq'', int_to_string (rc_seq r)), (''prev_hash'', rc_prev_hash r),
         (''owner_mandate_hash'', rc_owner_mandate_hash r)]) = Some x"
    using assms(1,3) by (simp add: receipt_signing_payload_def)
  with assms(2) have "signing_fields r = signing_fields s \<and> rc_seq r = rc_seq s \<and>
      rc_prev_hash r = rc_prev_hash s \<and> rc_owner_mandate_hash r = rc_owner_mandate_hash s"
    unfolding receipt_signing_payload_def
    by (auto split: if_splits dest!: canonical_fields_inject [OF r] signing_fields_eqD)
  then show ?thesis
    by (intro signing_fields_content) simp_all
qed

section \<open>The chain of a tenant\<close>

definition table_ok :: "receipts_table \<Rightarrow> bool" where
  "table_ok db \<longleftrightarrow> distinct (map row_receipt_id db) \<and> (\<forall>r \<in> set db. 0 \<le> ifnull (row_seq r) 0) \<and>
     int (length db) < i64_MAX"

definition chain_rows :: "receipts_table \<Rightarrow> string \<Rightarrow> receipt_row list" where
  "chain_rows db tenant_id = sort_key (\<lambda>r. ifnull (row_seq r) 0)
     (filter (\<lambda>r. row_tenant_id r = tenant_id \<and> 0 < ifnull (row_seq r) 0) db)"

definition receipt_chain :: "receipts_table \<Rightarrow> string \<Rightarrow> action_receipt list" where
  "receipt_chain db tenant_id = map receipt_of_row (chain_rows db tenant_id)"

interpretation receipts: hash_chain rc_seq rc_prev_hash "receipt_chain_hash H" receipt_content "[]" for H
  by unfold_locales (simp_all add: receipt_content_eq_iff)

lemma load_receipt_row:
  assumes "distinct (map row_receipt_id db)" "r \<in> set db"
  shows "load_receipt db (row_receipt_id r) = Some (receipt_of_row r)"
proof -
  have "find (\<lambda>s. row_receipt_id s = row_receipt_id r) db = Some r"
    using assms by (induction db) auto
  then show ?thesis
    by (simp add: load_receipt_def)
qed

lemma verify_chain_loop_Ok_iff:
  assumes "distinct (map row_receipt_id db)" "set rs \<subseteq> set db"
    and "0 \<le> n" "n + int (length rs) \<le> i64_MAX" "0 \<le> k" "k + int (length rs) \<le> i64_MAX"
  shows "verify_chain_loop H db t (map row_receipt_id rs) n h k = Ok m \<longleftrightarrow>
    chained rc_seq rc_prev_hash (receipt_chain_hash H) n h (map receipt_of_row rs) \<and>
    m = k + int (length rs)"
  using assms(2-)
proof (induction rs arbitrary: n h k)
  case (Cons r rs)
  have load: "load_receipt db (row_receipt_id r) = Some (receipt_of_row r)"
    using load_receipt_row [OF assms(1)] Cons.prems(1) by simp
  have wrap: "i64_wrap (n + 1) = n + 1" "i64_wrap (k + 1) = k + 1"
    using Cons.prems by (simp_all add: is_i64_def i64_MIN_def)
  have "verify_chain_loop H db t (map row_receipt_id rs) (n + 1) h' (k + 1) = Ok m \<longleftrightarrow>
      chained rc_seq rc_prev_hash (receipt_chain_hash H) (n + 1) h' (map receipt_of_row rs) \<and>
      m = k + 1 + int (length rs)" for h'
    using Cons.prems by (intro Cons.IH) auto
  then show ?case
    by (auto simp: load wrap and_then_eq_Ok_iff split: option.splits)
qed auto

lemma set_chain_rows [simp]: "set (chain_rows db t) =
    {r \<in> set db. row_tenant_id r = t \<and> 0 < ifnull (row_seq r) 0}"
  by (simp add: chain_rows_def)

lemma chain_rows_Nil_iff:
  "chain_rows db t = [] \<longleftrightarrow> (\<forall>r \<in> set db. row_tenant_id r = t \<longrightarrow> ifnull (row_seq r) 0 \<le> 0)"
  by (simp only: set_empty [symmetric] set_chain_rows) (auto simp: not_less)

lemma length_chain_rows: "length (chain_rows db t) \<le> length db"
  by (simp add: chain_rows_def)

lemma verify_receipt_chain_Ok_iff:
  assumes "table_ok db"
  shows "verify_receipt_chain H db t = Ok m \<longleftrightarrow>
    chained rc_seq rc_prev_hash (receipt_chain_hash H) 1 [] (receipt_chain db t) \<and>
    m = int (length (receipt_chain db t))"
proof -
  have "verify_receipt_chain H db t =
      verify_chain_loop H db t (map row_receipt_id (chain_rows db t)) 1 [] 0"
    by (simp add: verify_receipt_chain_def chain_rows_def)
  moreover have "int (length (chain_rows db t)) < i64_MAX"
    using assms length_chain_rows [of db t] by (simp add: table_ok_def)
  ultimately show ?thesis
    using verify_chain_loop_Ok_iff [of db "chain_rows db t" 1 0 H t "[]" m] assms
    by (auto simp: table_ok_def receipt_chain_def)
qed

section \<open>Appending to the chain\<close>

lemma sort_key_snoc:
  assumes "\<forall>y \<in> set xs. f y \<le> f x"
  shows "sort_key f (xs @ [x]) = sort_key f xs @ [x]"
proof (rule properties_for_sort_key)
  show "sorted (map f (sort_key f xs @ [x]))"
    using assms by (simp add: sorted_append)
  have "filter (\<lambda>y. f k = f y) (sort_key f xs) = filter (\<lambda>y. f k = f y) xs" for k
    using sort_key_stable [of f "f k" xs] by (simp only: eq_commute [of "f k"])
  then show "filter (\<lambda>y. f k = f y) (sort_key f xs @ [x]) = filter (\<lambda>y. f k = f y) (xs @ [x])" for k
    by simp
qed simp

lemma chain_rows_snoc_other:
  "row_tenant_id row \<noteq> t \<Longrightarrow> chain_rows (db @ [row]) t = chain_rows db t"
  by (simp add: chain_rows_def)

lemma chain_rows_snoc:
  assumes "row_tenant_id row = t" "row_seq row = Some (int (length (chain_rows db t)) + 1)"
    and "chained rc_seq rc_prev_hash (receipt_chain_hash H) 1 [] (receipt_chain db t)"
  shows "chain_rows (db @ [row]) t = chain_rows db t @ [row]"
proof -
  have "ifnull (row_seq r) 0 \<le> int (length (chain_rows db t))" if "r \<in> set (chain_rows db t)" for r
    using receipts.chained_sq_bounds [OF assms(3), of "receipt_of_row r"] that
    by (auto simp: receipt_chain_def simp del: set_chain_rows)
  then have "\<forall>r \<in> set (filter (\<lambda>r. row_tenant_id r = t \<and> 0 < ifnull (row_seq r) 0) db).
      ifnull (row_seq r) 0 \<le> ifnull (row_seq row) 0"
    unfolding assms(2) ifnull_simps by (fastforce intro: order_trans)
  from sort_key_snoc [where f = "\<lambda>r. ifnull (row_seq r) 0", OF this] show ?thesis
    using assms(1,2) by (simp add: chain_rows_def)
qed

text \<open>The row that \<open>ORDER BY seq DESC LIMIT 1\<close> finds is the last row of the chain.\<close>

lemma hd_sort_key_max:
  assumes "sort_key f xs = y # ys"
  shows "y \<in> set xs \<and> (\<forall>x \<in> set xs. f y \<le> f x)"
proof -
  have "sorted (map f (y # ys))"
    by (metis assms sorted_sort_key)
  moreover have "set xs = set (y # ys)"
    by (metis assms set_sort)
  ultimately show ?thesis
    by auto
qed

lemma chain_end_row:
  assumes "chained rc_seq rc_prev_hash (receipt_chain_hash H) 1 [] (receipt_chain db t)"
    and "r \<in> set (chain_rows db t)"
    and "\<forall>s \<in> set (chain_rows db t). ifnull (row_seq s) 0 \<le> ifnull (row_seq r) 0"
  shows "receipt_of_row r = last (receipt_chain db t) \<and>
    ifnull (row_seq r) 0 = int (length (chain_rows db t))"
proof -
  let ?rs = "receipt_chain db t"
  obtain i where i: "i < length ?rs" "?rs ! i = receipt_of_row r"
    using assms(2) by (auto simp: receipt_chain_def in_set_conv_nth simp del: set_chain_rows)
  then have seq: "ifnull (row_seq r) 0 = 1 + int i"
    using receipts.chained_nth_sq [OF assms(1) i(1)] by simp
  have ne: "?rs \<noteq> []"
    using i by auto
  then have last: "last (chain_rows db t) \<in> set (chain_rows db t)"
      "last ?rs = receipt_of_row (last (chain_rows db t))"
    by (simp_all add: receipt_chain_def last_map del: set_chain_rows)
  have "rc_seq (last ?rs) = 1 + int (length ?rs - 1)"
    using receipts.chained_nth_sq [OF assms(1), of "length ?rs - 1"] ne by (simp add: last_conv_nth)
  moreover have "rc_seq (last ?rs) \<le> ifnull (row_seq r) 0"
    using assms(3) last by (simp del: set_chain_rows)
  ultimately have "i = length ?rs - 1"
    using seq i ne by linarith
  then show ?thesis
    using i ne seq by (auto simp: last_conv_nth receipt_chain_def)
qed

lemma next_chain_position_eq:
  assumes ok: "table_ok db"
    and chain: "chained rc_seq rc_prev_hash (receipt_chain_hash H) 1 [] (receipt_chain db t)"
  shows "\<exists>h. next_chain_position H db t = Ok (int (length (receipt_chain db t)) + 1, h) \<and>
    chain_end (receipt_chain_hash H) [] (receipt_chain db t) = Some h"
proof -
  let ?rows = "filter (\<lambda>r. row_tenant_id r = t) db"
  let ?seq = "\<lambda>r. ifnull (row_seq r) 0"
  show ?thesis
  proof (cases "sort_key (\<lambda>r. - ?seq r) ?rows")
    case Nil
    then have "?rows = []"
      by (metis set_empty set_sort)
    then have "chain_rows db t = []"
      by (auto simp: chain_rows_Nil_iff filter_empty_conv)
    then show ?thesis
      by (simp add: next_chain_position_def Nil receipt_chain_def chain_end_def)
  next
    case (Cons r rs)
    then have r: "r \<in> set db" "row_tenant_id r = t" and top: "\<forall>s \<in> set ?rows. ?seq s \<le> ?seq r"
      using hd_sort_key_max [OF Cons] by auto
    show ?thesis
    proof (cases "?seq r = 0")
      case True
      then have "chain_rows db t = []"
        using top by (simp add: chain_rows_Nil_iff)
      then show ?thesis
        using True by (simp add: next_chain_position_def Cons Let_def receipt_chain_def chain_end_def)
    next
      case False
      then have mem: "r \<in> set (chain_rows db t)"
        using ok r by (fastforce simp: table_ok_def)
      have seq: "receipt_of_row r = last (receipt_chain db t)" "?seq r = int (length (chain_rows db t))"
        using chain_end_row [OF chain mem] top by auto
      have ne: "receipt_chain db t \<noteq> []"
        using mem by (auto simp: receipt_chain_def simp del: set_chain_rows)
      have "receipt_chain_hash H (last (receipt_chain db t)) \<noteq> None"
        using chain ne receipts.chained_snoc [of H 1 "[]" "butlast (receipt_chain db t)"
            "last (receipt_chain db t)"] by simp
      then obtain h where h: "receipt_chain_hash H (last (receipt_chain db t)) = Some h"
        by blast
      have "int (length (chain_rows db t)) + 1 \<le> i64_MAX"
        using ok length_chain_rows [of db t] by (simp add: table_ok_def)
      then have "i64_wrap (?seq r + 1) = int (length (receipt_chain db t)) + 1"
        using seq(2) by (simp add: receipt_chain_def is_i64_def i64_MIN_def)
      then show ?thesis
        using False h ne load_receipt_row [of db r] ok r seq(1)
        by (simp add: next_chain_position_def Cons Let_def chain_end_def table_ok_def)
    qed
  qed
qed

text \<open>
  A stored receipt: it takes the next position of its tenant's chain and a fresh id.
\<close>

definition next_row :: "('z) crypto_scheme \<Rightarrow> receipts_table \<Rightarrow> receipt_row \<Rightarrow> bool" where
  "next_row H db row \<longleftrightarrow>
     (\<exists>seq prev. next_chain_position H db (row_tenant_id row) = Ok (seq, prev) \<and>
        row_seq row = Some seq \<and> row_prev_hash row = Some prev) \<and>
     row_receipt_id row \<notin> row_receipt_id ` set db \<and>
     receipt_chain_hash H (receipt_of_row row) \<noteq> None"

lemma receipt_chain_append:
  assumes ok: "table_ok db"
    and chain: "chained rc_seq rc_prev_hash (receipt_chain_hash H) 1 [] (receipt_chain db (row_tenant_id row))"
    and next_row: "next_row H db row"
  shows "receipt_chain (db @ [row]) (row_tenant_id row) =
      receipt_chain db (row_tenant_id row) @ [receipt_of_row row] \<and>
    chained rc_seq rc_prev_hash (receipt_chain_hash H) 1 []
      (receipt_chain (db @ [row]) (row_tenant_id row))"
proof -
  let ?t = "row_tenant_id row"
  obtain seq prev where pos: "next_chain_position H db ?t = Ok (seq, prev)" "row_seq row = Some seq"
      "row_prev_hash row = Some prev"
    using next_row by (auto simp: next_row_def)
  then have seq: "seq = int (length (receipt_chain db ?t)) + 1"
      and prev: "chain_end (receipt_chain_hash H) [] (receipt_chain db ?t) = Some prev"
    using next_chain_position_eq [OF ok chain] by auto
  have "chain_rows (db @ [row]) ?t = chain_rows db ?t @ [row]"
    using chain pos(2) seq by (intro chain_rows_snoc) (auto simp: receipt_chain_def)
  then have app: "receipt_chain (db @ [row]) ?t = receipt_chain db ?t @ [receipt_of_row row]"
    by (simp add: receipt_chain_def)
  moreover have "chained rc_seq rc_prev_hash (receipt_chain_hash H) 1 []
      (receipt_chain db ?t @ [receipt_of_row row])"
    using chain pos prev seq next_row
    by (simp add: receipts.chained_snoc next_row_def)
  ultimately show ?thesis
    by simp
qed

lemma append_verifies:
  assumes "table_ok (db @ [row])" "verify_receipt_chain H db (row_tenant_id row) = Ok n"
    and "next_row H db row"
  shows "verify_receipt_chain H (db @ [row]) (row_tenant_id row) = Ok (n + 1)"
proof -
  have ok: "table_ok db"
    using assms(1) by (simp add: table_ok_def)
  then have "chained rc_seq rc_prev_hash (receipt_chain_hash H) 1 [] (receipt_chain db (row_tenant_id row))"
      "n = int (length (receipt_chain db (row_tenant_id row)))"
    using assms(2) by (simp_all add: verify_receipt_chain_Ok_iff)
  then show ?thesis
    using receipt_chain_append [OF ok _ assms(3)] by (auto simp: verify_receipt_chain_Ok_iff [OF assms(1)])
qed

lemma append_other_tenant:
  assumes "table_ok (db @ [row])" "row_tenant_id row \<noteq> t" "verify_receipt_chain H db t = Ok n"
  shows "verify_receipt_chain H (db @ [row]) t = Ok n"
proof -
  have "table_ok db"
    using assms(1) by (simp add: table_ok_def)
  then show ?thesis
    using assms by (simp add: verify_receipt_chain_Ok_iff receipt_chain_def chain_rows_snoc_other)
qed

lemma receipt_chain_hash_inject:
  assumes "inj_on (\<lambda>p. hex_encode H (sha256 H p)) P"
    and "\<And>p. receipt_chain_payload r = Some p \<Longrightarrow> p \<in> P"
    and "\<And>p. receipt_chain_payload s = Some p \<Longrightarrow> p \<in> P"
    and "receipt_chain_hash H r = receipt_chain_hash H s" "receipt_chain_hash H r \<noteq> None"
  shows "receipt_content r = receipt_content s"
proof -
  obtain p q where pq: "receipt_chain_payload r = Some p" "receipt_chain_payload s = Some q"
      "hex_encode H (sha256 H p) = hex_encode H (sha256 H q)"
    using assms(4,5) by (auto simp: receipt_chain_hash_def)
  then have "p = q"
    using assms(1-3) by (auto dest: inj_onD)
  then show ?thesis
    using pq receipt_chain_payload_inject by blast
qed

lemma verified_links:
  "chained sq pv link n h es \<Longrightarrow> e \<in> set es \<Longrightarrow> link e \<noteq> None"
  by (induction es arbitrary: n h) (auto split: option.splits)

lemma chain_rows_head:
  assumes "chained rc_seq rc_prev_hash (receipt_chain_hash H) 1 [] (receipt_chain db t)"
    and "row \<in> set (chain_rows db t)" "ifnull (row_seq row) 0 = int (length (chain_rows db t))"
  shows "row = last (chain_rows db t)"
proof -
  obtain i where i: "i < length (chain_rows db t)" "chain_rows db t ! i = row"
    using assms(2) unfolding in_set_conv_nth by blast
  then have "ifnull (row_seq row) 0 = 1 + int i"
    using receipts.chained_nth_sq [OF assms(1), of i] by (simp add: receipt_chain_def)
  then have "i = length (chain_rows db t) - 1"
    using assms(3) by linarith
  then show ?thesis
    using i by (metis last_conv_nth length_0_conv not_less_zero)
qed

lemma filter_neq_last:
  assumes "distinct (map f xs)" "xs \<noteq> []"
  shows "filter (\<lambda>x. f x \<noteq> f (last xs)) xs = butlast xs"
  using assms by (induction xs rule: rev_induct) (auto simp: filter_id_conv image_iff)

lemma chain_rows_filter: "chain_rows (filter P db) t = filter P (chain_rows db t)"
  by (simp add: chain_rows_def filter_sort conj_commute conj_left_commute)

subsection \<open>An example table\<close>

definition demo_crypto :: crypto where
  "demo_crypto = \<lparr> sha256 = \<lambda>s. s, hex_encode = \<lambda>s. s, hkdf_sha256 = \<lambda>salt ikm info. info,
     hmac_sha256 = \<lambda>key m. m, json_str = quoted \<rparr>"

definition demo_row :: "string \<Rightarrow> i64 \<Rightarrow> string \<Rightarrow> receipt_row" where
  "demo_row rid seq prev = \<lparr> row_receipt_id = rid, row_action_hash = ''h'', row_agent_id = ''agt_1'',
     row_ring_key_image_hex = ''k'', row_policy_version = ''kya_matrix_v2'', row_ajwt_jti = ''j'',
     row_pop_jkt = [], row_status = ''verified'', row_signature = ''v2.s'', row_created_at = 7,
     row_ring_id = None, row_config_digest = None, row_tenant_id = ''acme'', row_seq = Some seq,
     row_prev_hash = Some prev, row_owner_mandate_hash = None \<rparr>"

definition demo_link :: string where
  "demo_link = the (receipt_chain_hash demo_crypto (receipt_of_row (demo_row ''ar_1'' 1 [])))"

definition demo_table :: receipts_table where
  "demo_table = [demo_row ''ar_1'' 1 [], demo_row ''ar_2'' 2 demo_link]"

lemma int_to_string_digit: "0 \<le> x \<Longrightarrow> x < 10 \<Longrightarrow> int_to_string x = [char_of (48 + nat x)]"
  by (subst int_to_string_def, subst nat_to_string.simps) simp

lemma fits_simps: "fits s \<longleftrightarrow> length s < 4294967296"
  by (simp add: fits_def)

lemma demo_row_hash:
  assumes "length rid < 100" "0 \<le> seq" "seq < 10" "length prev < 1000"
  shows "receipt_chain_hash demo_crypto (receipt_of_row (demo_row rid seq prev)) \<noteq> None"
    and "length (the (receipt_chain_hash demo_crypto (receipt_of_row (demo_row rid seq prev)))) <
      500 + length prev"
proof -
  obtain x where x: "canonical_fields ''sauron.agent-action-receipt-chain.v1''
      (chain_fields (receipt_of_row (demo_row rid seq prev))) = Some x"
    using assms canonical_fields_total [of "''sauron.agent-action-receipt-chain.v1''"
        "chain_fields (receipt_of_row (demo_row rid seq prev))"]
    by (auto simp: chain_fields_def receipt_of_row_def demo_row_def fits_simps int_to_string_digit
        simp del: receipt_of_row_simps)
  then have hash: "receipt_chain_hash demo_crypto (receipt_of_row (demo_row rid seq prev)) = Some x"
    by (simp add: receipt_chain_hash_def receipt_chain_payload_def demo_crypto_def)
       (simp add: receipt_of_row_def demo_row_def)
  have "length x < 500 + length prev"
    using x assms by (auto simp: canonical_fields_Some_iff chain_fields_def receipt_of_row_def demo_row_def
        encoded_def int_to_string_digit simp del: receipt_of_row_simps)
  then show "receipt_chain_hash demo_crypto (receipt_of_row (demo_row rid seq prev)) \<noteq> None"
    "length (the (receipt_chain_hash demo_crypto (receipt_of_row (demo_row rid seq prev)))) <
      500 + length prev"
    using hash by simp_all
qed

lemma demo_table_ok: "table_ok demo_table"
  by (simp add: table_ok_def demo_table_def demo_row_def i64_MAX_def)

lemma demo_chain:
  "receipt_chain demo_table ''acme'' =
     [receipt_of_row (demo_row ''ar_1'' 1 []), receipt_of_row (demo_row ''ar_2'' 2 demo_link)]"
  by (simp add: receipt_chain_def chain_rows_def demo_table_def demo_row_def)

lemma demo_verifies: "verify_receipt_chain demo_crypto demo_table ''acme'' = Ok 2"
proof -
  obtain h where h: "receipt_chain_hash demo_crypto (receipt_of_row (demo_row ''ar_1'' 1 [])) = Some h"
    using demo_row_hash(1) [of "''ar_1''" 1 "[]"] by auto
  moreover have "length demo_link < 1000"
    using demo_row_hash(2) [of "''ar_1''" 1 "[]"] by (simp add: demo_link_def)
  then have "receipt_chain_hash demo_crypto (receipt_of_row (demo_row ''ar_2'' 2 demo_link)) \<noteq> None"
    by (intro demo_row_hash(1)) simp_all
  moreover have "demo_link = h"
    using h by (simp add: demo_link_def)
  ultimately show ?thesis
    by (auto simp: verify_receipt_chain_Ok_iff [OF demo_table_ok] demo_chain)
       (auto simp: demo_row_def)
qed

text \<open>The same table with other signatures: the chain does not commit to them.\<close>

definition resigned :: "string \<Rightarrow> receipts_table \<Rightarrow> receipts_table" where
  "resigned sig db = map (\<lambda>r. r\<lparr> row_signature := sig \<rparr>) db"

lemma receipt_chain_hash_signature [simp]:
  "receipt_chain_hash H (r\<lparr> rc_signature := sig \<rparr>) = receipt_chain_hash H r"
proof -
  have "chain_fields (r\<lparr> rc_signature := sig \<rparr>) = chain_fields r"
    by (simp add: chain_fields_def)
  then show ?thesis
    by (simp add: receipt_chain_hash_def receipt_chain_payload_def cong: if_cong)
qed

lemma receipt_signing_payload_signature [simp]:
  "receipt_signing_payload (r\<lparr> rc_signature := sig \<rparr>) = receipt_signing_payload r"
proof -
  have "signing_fields (r\<lparr> rc_signature := sig \<rparr>) = signing_fields r"
    by (simp add: signing_fields_def)
  then show ?thesis
    by (simp add: receipt_signing_payload_def cong: if_cong)
qed

lemma receipt_of_row_signature [simp]:
  "receipt_of_row (r\<lparr> row_signature := sig \<rparr>) = (receipt_of_row r)\<lparr> rc_signature := sig \<rparr>"
  by (simp add: receipt_of_row_def)

lemma chained_signature:
  "chained rc_seq rc_prev_hash (receipt_chain_hash H) n h (map (\<lambda>r. r\<lparr> rc_signature := sig \<rparr>) rs) =
   chained rc_seq rc_prev_hash (receipt_chain_hash H) n h rs"
  by (induction rs arbitrary: n h) (simp_all split: option.splits)

lemma resigned_ok: "table_ok db \<Longrightarrow> table_ok (resigned sig db)"
  by (simp add: table_ok_def resigned_def comp_def)

lemma insort_key_map: "insort_key f (g x) (map g ys) = map g (insort_key (\<lambda>y. f (g y)) x ys)"
  by (induction ys) simp_all

lemma sort_key_map: "sort_key f (map g xs) = map g (sort_key (\<lambda>x. f (g x)) xs)"
  by (induction xs) (simp_all add: insort_key_map)

lemma resigned_chain:
  "receipt_chain (resigned sig db) t = map (\<lambda>r. r\<lparr> rc_signature := sig \<rparr>) (receipt_chain db t)"
  by (simp add: receipt_chain_def chain_rows_def resigned_def filter_map comp_def sort_key_map
      receipt_of_row_def)

lemma resigned_verifies:
  assumes "verify_receipt_chain demo_crypto demo_table t = Ok n"
  shows "verify_receipt_chain demo_crypto (resigned sig demo_table) t = Ok n"
  using assms
  by (simp add: verify_receipt_chain_Ok_iff demo_table_ok resigned_ok resigned_chain chained_signature)

section \<open>Properties\<close>

text \<open>
  C10. The receipt chain is tamper-evident.  If two states of the receipt table both pass
  \<open>verify_receipt_chain\<close> for a tenant, their chains are not empty, and the last receipts
  have the same chain hash, then the two chains hold the same receipts in the same order,
  in every field except the signature: no receipt before the known head was edited,
  removed, inserted or reordered.  SHA-256 is assumed not to collide on the payloads of
  the receipts of the two chains.\<close>

theorem receipt_chain_tamper_evident:
  assumes "table_ok db" "table_ok db'"
    and "verify_receipt_chain H db t = Ok n" "0 < n"
    and "verify_receipt_chain H db' t = Ok m" "0 < m"
    and "receipt_chain_hash H (last (receipt_chain db t)) =
      receipt_chain_hash H (last (receipt_chain db' t))"
    and "inj_on (\<lambda>p. hex_encode H (sha256 H p))
      {p. \<exists>r \<in> set (receipt_chain db t) \<union> set (receipt_chain db' t). receipt_chain_payload r = Some p}"
  shows "map receipt_content (receipt_chain db t) = map receipt_content (receipt_chain db' t)"
proof -
  have ok: "chained rc_seq rc_prev_hash (receipt_chain_hash H) 1 [] (receipt_chain db t)"
      "chained rc_seq rc_prev_hash (receipt_chain_hash H) 1 [] (receipt_chain db' t)"
      "receipt_chain db t \<noteq> []" "receipt_chain db' t \<noteq> []"
    using assms(1-6) by (auto simp: verify_receipt_chain_Ok_iff)
  show ?thesis
  proof (rule receipts.chained_determined [OF ok assms(7)])
    fix r s assume "r \<in> set (receipt_chain db t)" "s \<in> set (receipt_chain db' t)"
      "receipt_chain_hash H r = receipt_chain_hash H s"
    moreover from this have "receipt_chain_hash H r \<noteq> None"
      using verified_links [OF ok(1)] by blast
    ultimately show "receipt_content r = receipt_content s"
      by (intro receipt_chain_hash_inject [OF assms(8)]) auto
  qed
qed

theorem receipt_chain_tamper_evident_witness:
  "verify_receipt_chain demo_crypto demo_table ''acme'' = Ok 2 \<and>
   verify_receipt_chain demo_crypto (resigned ''v2.x'' demo_table) ''acme'' = Ok 2 \<and>
   map receipt_content (receipt_chain demo_table ''acme'') =
     map receipt_content (receipt_chain (resigned ''v2.x'' demo_table) ''acme'')"
proof -
  have "last (receipt_chain (resigned ''v2.x'' demo_table) ''acme'') =
      (last (receipt_chain demo_table ''acme''))\<lparr> rc_signature := ''v2.x'' \<rparr>"
    by (simp add: resigned_chain demo_chain)
  then show ?thesis
    using receipt_chain_tamper_evident
        [OF demo_table_ok resigned_ok [OF demo_table_ok] demo_verifies _ resigned_verifies [OF demo_verifies]]
      demo_verifies resigned_verifies [OF demo_verifies]
    by (simp add: demo_crypto_def)
qed

text \<open>
  What the chain alone does not show: deleting the newest receipt of a tenant leaves a
  table that still verifies, with one receipt less.  A walk of the chain detects deletions
  only below a head that is known from elsewhere.\<close>

theorem deleting_the_head_is_not_detected:
  assumes "table_ok db" "verify_receipt_chain H db t = Ok n"
    and "row \<in> set db" "row_tenant_id row = t" "row_seq row = Some n" "0 < n"
  shows "verify_receipt_chain H (filter (\<lambda>r. row_receipt_id r \<noteq> row_receipt_id row) db) t = Ok (n - 1)"
proof -
  let ?db = "filter (\<lambda>r. row_receipt_id r \<noteq> row_receipt_id row) db"
  let ?rs = "chain_rows db t"
  have chain: "chained rc_seq rc_prev_hash (receipt_chain_hash H) 1 [] (receipt_chain db t)"
      and n: "n = int (length ?rs)"
    using assms(1,2) by (simp_all add: verify_receipt_chain_Ok_iff receipt_chain_def)
  have row: "row = last ?rs"
    using assms n by (intro chain_rows_head [OF chain]) simp_all
  have ne: "?rs \<noteq> []"
    using assms(6) n by auto
  have "distinct (map row_receipt_id ?rs)"
    using assms(1) by (auto simp: table_ok_def chain_rows_def distinct_map intro: inj_on_subset)
  then have "chain_rows ?db t = butlast ?rs"
    using filter_neq_last [OF _ ne] by (simp add: chain_rows_filter row)
  then have "receipt_chain ?db t = butlast (receipt_chain db t)"
    by (simp add: receipt_chain_def map_butlast)
  moreover have "table_ok ?db"
    using assms(1) by (auto simp: table_ok_def distinct_map_filter intro: le_less_trans [rotated])
  moreover have "receipt_chain db t = butlast (receipt_chain db t) @ [last (receipt_chain db t)]"
    using ne by (simp add: receipt_chain_def)
  then have "chained rc_seq rc_prev_hash (receipt_chain_hash H) 1 [] (butlast (receipt_chain db t))"
    using chain receipts.chained_snoc by metis
  ultimately show ?thesis
    using ne n by (auto simp: verify_receipt_chain_Ok_iff receipt_chain_def of_nat_diff Suc_le_eq)
qed

theorem deleting_the_head_is_not_detected_witness:
  "verify_receipt_chain demo_crypto demo_table ''acme'' = Ok 2 \<and>
   verify_receipt_chain demo_crypto
     (filter (\<lambda>r. row_receipt_id r \<noteq> row_receipt_id (demo_row ''ar_2'' 2 demo_link)) demo_table)
     ''acme'' = Ok 1"
  using deleting_the_head_is_not_detected
      [OF demo_table_ok demo_verifies, of "demo_row ''ar_2'' 2 demo_link"] demo_verifies
  by (simp add: demo_table_def demo_row_def)

text \<open>
  C11. A receipt signature of the server belongs to one receipt: two receipts of the chain
  whose signatures verify under the same secret and are equal are equal in every field.
  The receipt of one action cannot be presented for another.  HMAC-SHA-256 is assumed not
  to collide on the two signed payloads.\<close>

theorem receipt_signature_binds_receipt:
  assumes "verify_receipt_signature H k r = Some True" "verify_receipt_signature H k s = Some True"
    and "rc_signature r = rc_signature s" "0 < rc_seq r"
    and "inj_on (\<lambda>p. hex_encode H (hmac_sha256 H (derive_subkey H k ''action-receipt-hmac-v2'') p))
      {p. receipt_signing_payload r = Some p \<or> receipt_signing_payload s = Some p}"
  shows "r = s"
proof -
  let ?mac = "\<lambda>p. hex_encode H (hmac_sha256 H (derive_subkey H k ''action-receipt-hmac-v2'') p)"
  have signed: "\<exists>p. receipt_signing_payload r = Some p \<and> rc_signature r = ''v2.'' @ ?mac p"
    if "verify_receipt_signature H k r = Some True" for r
    using that unfolding verify_receipt_signature_def sign_receipt_def Let_def by fastforce
  obtain p q where p: "receipt_signing_payload r = Some p" "rc_signature r = ''v2.'' @ ?mac p"
      and q: "receipt_signing_payload s = Some q" "rc_signature s = ''v2.'' @ ?mac q"
    using signed [OF assms(1)] signed [OF assms(2)] by blast
  then have "?mac p = ?mac q"
    using assms(3) by (metis same_append_eq)
  then have "p = q"
    using inj_onD [OF assms(5)] p(1) q(1) by blast
  then have "receipt_content r = receipt_content s"
    using p(1) q(1) receipt_signing_payload_inject [OF _ _ assms(4)] by blast
  then show ?thesis
    using assms(3) by (intro action_receipt.equality) (simp_all add: receipt_content_eq_iff)
qed

definition demo_signed :: action_receipt where
  "demo_signed = (let r = receipt_of_row (demo_row ''ar_1'' 1 []) in
     r\<lparr> rc_signature := the (sign_receipt demo_crypto ''secret'' r) \<rparr>)"

theorem receipt_signature_binds_receipt_witness:
  "verify_receipt_signature demo_crypto ''secret'' demo_signed = Some True \<and>
   demo_signed = receipt_of_row ((demo_row ''ar_1'' 1 [])\<lparr> row_signature := rc_signature demo_signed \<rparr>)"
proof -
  let ?s = "receipt_of_row ((demo_row ''ar_1'' 1 [])\<lparr> row_signature := rc_signature demo_signed \<rparr>)"
  obtain x where x: "receipt_signing_payload (receipt_of_row (demo_row ''ar_1'' 1 [])) = Some x"
    using canonical_fields_total
    by (fastforce simp: receipt_signing_payload_def receipt_of_row_def demo_row_def signing_fields_def
        fits_simps int_to_string_digit simp del: receipt_of_row_simps)
  have payload: "receipt_signing_payload demo_signed = Some x" "receipt_signing_payload ?s = Some x"
    using x by (simp_all add: demo_signed_def Let_def)
  moreover have "verify_receipt_signature demo_crypto ''secret'' demo_signed = Some True"
      "verify_receipt_signature demo_crypto ''secret'' ?s = Some True"
    using x by (simp_all add: verify_receipt_signature_def sign_receipt_def Let_def demo_signed_def)
  moreover have "0 < rc_seq demo_signed"
    by (simp add: demo_signed_def Let_def) (simp add: demo_row_def)
  moreover have "rc_signature demo_signed = rc_signature ?s"
    by simp
  ultimately show ?thesis
    using receipt_signature_binds_receipt [of demo_crypto "''secret''" demo_signed ?s]
    by (simp add: demo_crypto_def)
qed

end
