(* ===== verification/Database.thy ===== *)
theory Database
  imports Receipts
begin

text \<open>
  The tables of the database (the schema of \<open>db.rs\<close>, function \<open>init_schema\<close>, with the
  columns added by its migrations), one record per row type and one field of the record
  \<open>database\<close> per table.  A table that the code only reaches through its primary key is a map
  from the key; a table the code scans or orders is a list in insertion order.

  A statement can fail.  The record \<open>any_env\<close> says what the connection does: the error of
  taking it, the error of the \<open>k\<close>th statement, and the text the driver
  reports when a uniqueness constraint is violated.
\<close>

section \<open>Rows\<close>

record agent_row =
  ag_agent_id :: string
  ag_tenant_id :: string
  ag_human_key_image :: string
  ag_agent_checksum :: string
  ag_intent_json :: string
  ag_assurance_level :: string
  ag_public_key_hex :: string
  ag_ring_key_image_hex :: string
  ag_issued_at :: i64
  ag_expires_at :: i64
  ag_revoked :: i64
  ag_parent_agent_id :: "string option"
  ag_delegation_depth :: i64
  ag_pop_jkt :: string
  ag_pop_public_key_b64u :: string
  ag_owner_mandate_hash :: string
  ag_owner_mandate_sig_b64u :: string
  ag_attestation_blob :: "string option"
  ag_attestation_kind :: string
  ag_attestation_pubkey_b64u :: "string option"
  ag_attestation_pcr_set :: "string option"

record user_row =
  us_public_key_hex :: string
  us_first_name :: string
  us_last_name :: string
  us_email :: string
  us_date_of_birth :: string
  us_nationality :: string

record registration_row =
  rg_client_name :: string
  rg_user_key_image_hex :: string
  rg_source :: string
  rg_timestamp :: i64
  rg_tenant_id :: string

record pop_challenge_row =
  pop_agent_id :: string
  pop_challenge :: string
  pop_exp :: i64

record payment_row =
  pa_auth_id :: string
  pa_agent_id :: string
  pa_jti :: string
  pa_amount_minor :: i64
  pa_currency :: string
  pa_merchant_id :: string
  pa_payment_ref :: string
  pa_created_at :: i64
  pa_expires_at :: i64
  pa_consumed :: i64
  pa_tenant_id :: string

record spend_log_row =
  sl_log_id :: string
  sl_policy_id :: string
  sl_agent_id :: string
  sl_action_id :: "string option"
  sl_amount_usd :: f64
  sl_recorded_at :: i64
  sl_source :: string
  sl_tenant_id :: string

record action_nonce_row =
  an_agent_id :: string
  an_action_hash :: string
  an_expires_at :: i64
  an_used_at :: i64

record ring_row =
  ri_rule_json :: string
  ri_version :: i64
  ri_created_at :: i64
  ri_updated_at :: i64

record usage_log_row =
  ul_log_id :: string
  ul_tenant_id :: string
  ul_ring_id :: string
  ul_key_image_hex :: string
  ul_model_id :: string
  ul_input_tokens :: i64
  ul_output_tokens :: i64
  ul_usd :: f64
  ul_recorded_at :: i64

record egress_row =
  eg_tenant_id :: string
  eg_agent_id :: string
  eg_target_host :: string
  eg_target_path :: string
  eg_method :: string
  eg_body_hash_hex :: string
  eg_status_code :: i64
  eg_ts :: i64
  eg_allowed :: i64

record capability_row =
  cap_token_hash_hex :: string
  cap_tenant_id :: string
  cap_agent_id :: string
  cap_method :: string
  cap_url :: string
  cap_body_hash_hex :: string
  cap_action_receipt_id :: string
  cap_expires_at :: i64
  cap_used_at :: "i64 option"

record request_log_row =
  rl_timestamp :: i64
  rl_action_type :: string
  rl_status :: string
  rl_detail :: string

record audit_row =
  au_audit_id :: string
  au_tenant_id :: string
  au_event_type :: string
  au_event_json :: string
  au_timestamp :: i64
  au_seq :: "i64 option"
  au_prev_hash :: string
  au_entry_hash :: string

record policy_row =
  po_policy_id :: string
  po_agent :: string
  po_version :: string
  po_raw_yaml :: string
  po_created_at :: i64
  po_updated_at :: i64
  po_tenant_id :: string

record policy_binding_row =
  pb_policy_id :: string
  pb_bound_at :: i64

record credential_row =
  cr_public_key_b64u :: string
  cr_created_at :: i64
  cr_session_epoch :: i64

record auth_challenge_row =
  ac_challenge_id :: string
  ac_tenant_id :: string
  ac_key_image_hex :: string
  ac_nonce :: string
  ac_expires_at :: i64
  ac_used_at :: i64

record attestation_challenge_row =
  at_id :: string
  at_tenant_id :: string
  at_human_key_image :: string
  at_nonce :: string
  at_pop_public_key_b64u :: string
  at_expires_at :: i64
  at_used_at :: "i64 option"

record checksum_inputs_row =
  ci_agent_type :: string
  ci_inputs_canonical :: string
  ci_computed_checksum :: string
  ci_version :: i64
  ci_created_at :: i64
  ci_updated_at :: i64

record checksum_audit_row =
  ca_agent_id :: string
  ca_from_checksum :: string
  ca_to_checksum :: string
  ca_from_inputs_hash :: string
  ca_to_inputs_hash :: string
  ca_reason :: string
  ca_actor :: string
  ca_ts :: i64

record vc_row =
  vc_json :: string
  vc_hash :: string
  vc_issued_at :: i64
  vc_expires_at :: i64
  vc_revoked :: i64

section \<open>The database\<close>

text \<open>
  The keys: \<open>agent_policy_bindings\<close> by tenant and agent, \<open>ring_members\<close> and \<open>rings\<close> by tenant and ring, the two ledgers by their primary
  keys \<open>(tenant, policy, agent, period)\<close> and \<open>(tenant, ring, key image)\<close>, \<open>user_auth_tenant_bindings\<close> by tenant and key image, \<open>agent_checksum_inputs\<close> and \<open>agent_vcs\<close> by agent;
  \<open>bank_kyc_links\<close> has the customer id and the key image of a row, \<open>user_auth_credentials\<close> the key image and the rest.
\<close>

record database =
  agents :: "agent_row list"
  users :: "(string \<times> user_row) list"
  user_registrations :: "registration_row list"
  merkle_leaves :: "(i64 \<times> string) list"
  ajwt_used_jtis :: "string \<rightharpoonup> i64"
  agent_pop_challenges :: "string \<rightharpoonup> pop_challenge_row"
  agent_call_nonces :: "string \<times> string \<rightharpoonup> i64"
  agent_payment_authorizations :: "payment_row list"
  spend_ledger :: "string \<times> string \<times> string \<times> i64 \<rightharpoonup> f64 \<times> i64"
  spend_log :: "spend_log_row list"
  agent_action_nonces :: "string \<rightharpoonup> action_nonce_row"
  agent_action_receipts :: receipts_table
  rings :: "((string \<times> string) \<times> ring_row) list"
  ring_members :: "((string \<times> string) \<times> string) list"
  usage_ledger :: "((string \<times> string \<times> string) \<times> i64 \<times> i64 \<times> f64) list"
  usage_log :: "usage_log_row list"
  agent_egress_log :: "egress_row list"
  agent_egress_capabilities :: "capability_row list"
  requests_log :: "request_log_row list"
  risk_rate_counters :: "string \<times> i64 \<rightharpoonup> i64"
  security_audit_log :: "audit_row list"
  policies :: "policy_row list"
  agent_policy_bindings :: "string \<times> string \<rightharpoonup> policy_binding_row"
  user_auth_credentials :: "(string \<times> credential_row) list"
  user_auth_challenges :: "auth_challenge_row list"
  user_auth_tenant_bindings :: "string \<times> string \<rightharpoonup> i64"
  bank_kyc_links :: "(string \<times> string) list"
  agent_attestation_challenges :: "attestation_challenge_row list"
  agent_checksum_inputs :: "string \<rightharpoonup> checksum_inputs_row"
  agent_checksum_audit :: "checksum_audit_row list"
  agent_vcs :: "string \<rightharpoonup> vc_row"

definition empty_database :: database where
  "empty_database =
     \<lparr>agents = [], users = [], user_registrations = [], merkle_leaves = [],
      ajwt_used_jtis = (\<lambda>k. None), agent_pop_challenges = (\<lambda>k. None), agent_call_nonces = (\<lambda>k. None),
      agent_payment_authorizations = [], spend_ledger = (\<lambda>k. None), spend_log = [],
      agent_action_nonces = (\<lambda>k. None), agent_action_receipts = [], rings = [], ring_members = [],
      usage_ledger = [], usage_log = [], agent_egress_log = [],
      agent_egress_capabilities = [], requests_log = [],
      risk_rate_counters = (\<lambda>k. None), security_audit_log = [],
      policies = [], agent_policy_bindings = (\<lambda>k. None), user_auth_credentials = [],
      user_auth_challenges = [], user_auth_tenant_bindings = (\<lambda>k. None), bank_kyc_links = [],
      agent_attestation_challenges = [], agent_checksum_inputs = (\<lambda>k. None), agent_checksum_audit = [],
      agent_vcs = (\<lambda>k. None)\<rparr>"

section \<open>Statements\<close>

record any_env =
  lock_fault :: "string option"
  stmt_fault :: "nat \<Rightarrow> string option"
  unique_text :: string

definition healthy :: any_env where
  "healthy = \<lparr>lock_fault = None, stmt_fault = (\<lambda>k. None), unique_text = ''UNIQUE constraint failed''\<rparr>"

text \<open>\<open>DELETE FROM t WHERE exp < now\<close>.\<close>

definition purge :: "('v \<Rightarrow> i64) \<Rightarrow> i64 \<Rightarrow> ('k \<rightharpoonup> 'v) \<Rightarrow> 'k \<rightharpoonup> 'v" where
  "purge exp_of now m =
     (\<lambda>k. case m k of None \<Rightarrow> None | Some v \<Rightarrow> if exp_of v < now then None else Some v)"

lemma purge_Some_iff: "purge e now m k = Some v \<longleftrightarrow> m k = Some v \<and> now \<le> e v"
  by (auto simp: purge_def split: option.splits)

lemma purge_None_iff: "purge e now m k = None \<longleftrightarrow> (\<forall>v. m k = Some v \<longrightarrow> e v < now)"
  by (auto simp: purge_def split: option.splits)

end
