(* ===== verification/Numbers.thy ===== *)
theory Numbers
  imports F64
begin

text \<open>
  \<open>str::parse\<close> of the Rust standard library for \<open>i64\<close> and \<open>f64\<close>.
\<close>

definition all_digits :: "string \<Rightarrow> bool" where
  "all_digits s \<longleftrightarrow> s \<noteq> [] \<and> (\<forall>c \<in> set s. is_ascii_digit c)"

text \<open>An optional sign and the rest.\<close>

fun split_sign :: "string \<Rightarrow> bool \<times> string" where
  "split_sign [] = (False, [])"
| "split_sign (c # cs) =
     (if c = CHR ''-'' then (True, cs) else if c = CHR ''+'' then (False, cs) else (False, c # cs))"

definition parse_int :: "string \<Rightarrow> int option" where
  "parse_int s =
     (case split_sign s of (neg, ds) \<Rightarrow>
        if all_digits ds
        then Some (if neg then - int (dec_value ds) else int (dec_value ds)) else None)"

definition parse_i64 :: "string \<Rightarrow> i64 option" where
  "parse_i64 s = (case parse_int s of None \<Rightarrow> None | Some x \<Rightarrow> if is_i64 x then Some x else None)"

text \<open>The value \<open>n * 10 ^ e\<close>, correctly rounded.\<close>

definition f64_of_scaled :: "int \<Rightarrow> int \<Rightarrow> f64" where
  "f64_of_scaled n e =
     (if 0 \<le> e then round_f64 (n * 10 ^ nat e * one_unit) 1
      else round_f64 (n * one_unit) (10 ^ nat (- e)))"

definition is_exponent_char :: "char \<Rightarrow> bool" where
  "is_exponent_char c \<longleftrightarrow> c = CHR ''e'' \<or> c = CHR ''E''"

definition parse_mantissa :: "string \<Rightarrow> (int \<times> nat) option" where
  "parse_mantissa s =
     (case split_on (CHR ''.'') s of
        [w] \<Rightarrow> if all_digits w then Some (int (dec_value w), 0) else None
      | [w, f] \<Rightarrow> if all_digits (w @ f) then Some (int (dec_value (w @ f)), length f) else None
      | _ \<Rightarrow> None)"

definition str_parse_f64 :: "string \<Rightarrow> f64 option" where
  "str_parse_f64 s =
     (case split_sign s of (neg, r) \<Rightarrow>
        let l = to_ascii_lowercase r in
        if l = ''inf'' \<or> l = ''infinity'' then Some (if neg then NInf else PInf)
        else if l = ''nan'' then Some Nan
        else
          let m = takeWhile (\<lambda>c. \<not> is_exponent_char c) r;
              e = drop (length m) r in
          (case (parse_mantissa m, if e = [] then Some 0 else parse_int (tl e)) of
             (Some (n, k), Some x) \<Rightarrow> Some (f64_of_scaled (if neg then - n else n) (x - int k))
           | _ \<Rightarrow> None))"

lemma all_digits_nat_to_string [simp]: "all_digits (nat_to_string n)"
  by (auto simp: all_digits_def dest: nat_to_string_digits)

text \<open>Printing and parsing of integers are inverse.\<close>

lemma parse_int_to_string: "parse_int (int_to_string x) = Some x"
proof (cases "x < 0")
  case False
  obtain c cs where c: "nat_to_string (nat x) = c # cs"
    by (cases "nat_to_string (nat x)") simp_all
  have "is_ascii_digit c"
    using nat_to_string_digits [of c "nat x"] by (simp add: c)
  then have "c \<noteq> CHR ''-'' \<and> c \<noteq> CHR ''+''"
    by (auto simp: is_ascii_digit_def byte_def)
  then have "split_sign (nat_to_string (nat x)) = (False, nat_to_string (nat x))"
    by (simp add: c)
  then show ?thesis
    using False by (simp add: parse_int_def int_to_string_def)
qed (simp add: parse_int_def int_to_string_def)

lemma parse_i64_to_string: "is_i64 x \<Longrightarrow> parse_i64 (int_to_string x) = Some x"
  by (simp add: parse_i64_def parse_int_to_string)

lemma parse_i64_is_i64: "parse_i64 s = Some x \<Longrightarrow> is_i64 x"
  by (auto simp: parse_i64_def split: option.splits if_splits)

end
