(* ===== verification/Runtime_Mode.thy ===== *)
theory Runtime_Mode
  imports Numbers Values
begin

text \<open>
  The runtime mode of \<open>runtime_mode.rs\<close> and its startup gate, with the configuration
  check of \<open>transparent_proof.rs\<close> that the gate calls.  The process environment is an
  argument: \<open>env v\<close> is what \<open>std::env::var\<close> returns for \<open>v\<close>.  The reader of a
  JSON object (\<open>serde_json\<close>, with the text of its error) and the hexadecimal decoder (\<open>hex\<close>) are
  third-party functions in the record \<open>readers\<close>.
\<close>

type_synonym env = "string \<Rightarrow> string option"

record readers =
  json_map_from_str :: "string \<Rightarrow> (string, (string \<times> json) list) result"
  hex_decode :: "string \<Rightarrow> string option"

section \<open>Runtime\<close>

definition runtime_environment :: "env \<Rightarrow> string" where
  "runtime_environment env =
     to_ascii_lowercase
       (case env ''ENV'' of
          Some v \<Rightarrow> v
        | None \<Rightarrow> (case env ''SAURON_ENV'' of Some v \<Rightarrow> v | None \<Rightarrow> ''production''))"

definition is_development_runtime :: "env \<Rightarrow> bool" where
  "is_development_runtime env \<longleftrightarrow>
     runtime_environment env \<in> {''development'', ''dev'', ''local''}"

definition parse_truthy :: "string \<Rightarrow> bool option" where
  "parse_truthy value =
     (let trimmed = trim value in
      if trimmed = [] then None
      else
        let lower = to_ascii_lowercase trimmed in
        if lower \<in> {''1'', ''true'', ''yes'', ''on''} then Some True
        else if lower \<in> {''0'', ''false'', ''no'', ''off''} then Some False
        else None)"

text \<open>\<open>env::var(v).ok().and_then(parse_truthy)\<close>.\<close>

definition env_truthy :: "env \<Rightarrow> string \<Rightarrow> bool option" where
  "env_truthy env v = Option.bind (env v) parse_truthy"

definition require_or_default :: "env \<Rightarrow> string \<Rightarrow> bool \<Rightarrow> bool \<Rightarrow> bool" where
  "require_or_default env env_var dev_default prod_default =
     (case env_truthy env env_var of
        Some parsed \<Rightarrow> parsed
      | None \<Rightarrow> if is_development_runtime env then dev_default else prod_default)"

datatype policy_enforcement_mode = Enforce | Advisory | Off

definition policy_enforcement_mode_of :: "env \<Rightarrow> policy_enforcement_mode" where
  "policy_enforcement_mode_of env =
     (let default = (if is_development_runtime env then Advisory else Enforce) in
      case env ''SAURON_POLICY_ENFORCEMENT_MODE'' of
        None \<Rightarrow> default
      | Some v \<Rightarrow>
          (let v = to_ascii_lowercase (trim v) in
           if v = ''enforce'' then Enforce
           else if v = ''advisory'' then Advisory
           else if v = ''off'' then Off
           else default))"

definition global_max_action_usd :: "env \<Rightarrow> f64 option" where
  "global_max_action_usd env =
     Option.bind (env ''SAURON_MAX_ACTION_USD'') (\<lambda>v.
     Option.bind (str_parse_f64 (trim v)) (\<lambda>x.
     if f64_is_finite x \<and> f64_gt x f64_zero then Some x else None))"

definition policy_require_binding :: "env \<Rightarrow> bool" where
  "policy_require_binding env = require_or_default env ''SAURON_POLICY_REQUIRE_BINDING'' False True"

section \<open>The pinned proof programs\<close>

definition STATS_PROGRAM_ID :: string where
  "STATS_PROGRAM_ID = ''sauron-stats-v1''"

definition ACTION_POLICY_PROGRAM_ID :: string where
  "ACTION_POLICY_PROGRAM_ID = ''sauron-action-policy-v1''"

datatype transparent_proof_error =
    MalformedProof msg
  | Configuration msg
  | Unsupported msg
  | Busy msg
  | InvalidProof msg

fun transparent_proof_error_display :: "transparent_proof_error \<Rightarrow> msg" where
  "transparent_proof_error_display (MalformedProof s) = Fmt ''malformed transparent proof: {s}'' [AMsg s]"
| "transparent_proof_error_display (Configuration s) = Fmt ''transparent proof configuration: {s}'' [AMsg s]"
| "transparent_proof_error_display (Unsupported s) = Fmt ''unsupported proof type: {s}'' [AMsg s]"
| "transparent_proof_error_display (Busy s) = Fmt ''transparent verifier busy: {s}'' [AMsg s]"
| "transparent_proof_error_display (InvalidProof s) = Fmt ''transparent proof rejected: {s}'' [AMsg s]"

definition validate_program_id :: "string \<Rightarrow> (transparent_proof_error, unit) result" where
  "validate_program_id program_id =
     (if program_id = STATS_PROGRAM_ID \<or> program_id = ACTION_POLICY_PROGRAM_ID then Ok ()
      else Err (Unsupported (Fmt ''program_id '{program_id}' is not a reviewed SauronID guest''
        [AStr program_id])))"

fun trim_start_matches_0x :: "string \<Rightarrow> string" where
  "trim_start_matches_0x (a # b # s) =
     (if a = CHR ''0'' \<and> b = CHR ''x'' then trim_start_matches_0x s else a # b # s)"
| "trim_start_matches_0x s = s"

definition configured_image_id ::
  "readers \<Rightarrow> env \<Rightarrow> string \<Rightarrow> (transparent_proof_error, string) result" where
  "configured_image_id R env program_id =
     and_then (validate_program_id program_id) (\<lambda>_.
     case env ''SAURON_TRANSPARENT_IMAGE_IDS_JSON'' of
       None \<Rightarrow> Err (Configuration (Msg ''SAURON_TRANSPARENT_IMAGE_IDS_JSON is required; publish and pin the reviewed guest image ID''))
     | Some text \<Rightarrow>
         (case json_map_from_str R text of
            Inl e \<Rightarrow> Err (Configuration (Fmt ''image-id map JSON: {e}'' [AStr e]))
          | Inr kvs \<Rightarrow>
              (case Option.bind (map_of kvs program_id) as_str of
                 None \<Rightarrow> Err (Configuration (Fmt (''no pinned image ID for program_id '{program_id}'' @ [CHR 0x27])
                   [AStr program_id]))
               | Some v \<Rightarrow>
                   (case hex_decode R (trim_start_matches_0x (trim v)) of
                      None \<Rightarrow> Err (Configuration (Fmt ''image ID for '{program_id}' must be 32-byte hex''
                        [AStr program_id]))
                    | Some bytes \<Rightarrow>
                        if length bytes = 32 then Ok bytes
                        else Err (Configuration (Fmt ''image ID for '{program_id}' must be exactly 32 bytes''
                          [AStr program_id]))))))"

definition validate_production_configuration :: "readers \<Rightarrow> env \<Rightarrow> (msg, unit) result" where
  "validate_production_configuration R env =
     try_all (\<lambda>program_id.
       map_err transparent_proof_error_display
         (and_then (configured_image_id R env program_id) (\<lambda>_. Ok ())))
       [STATS_PROGRAM_ID, ACTION_POLICY_PROGRAM_ID]"

section \<open>The startup gate\<close>

definition critical_flags :: "string list" where
  "critical_flags =
     [''SAURON_REQUIRE_CALL_SIG'', ''SAURON_REQUIRE_AGENT_TYPE'', ''SAURON_POLICY_REQUIRE_BINDING'',
      ''SAURON_EGRESS_GATEWAY'', ''SAURON_ENFORCE_STATS_FRESHNESS'']"

definition legacy_flags :: "string list" where
  "legacy_flags =
     [''SAURON_ENABLE_LEGACY_OPRF'', ''SAURON_ENABLE_LEGACY_OPRF_AUTH'',
      ''SAURON_ENABLE_VOLUNTARY_EGRESS_LOG'', ''SAURON_ALLOW_SERVER_DERIVED_POP'',
      ''SAURON_ALLOW_CUSTOM_CHECKSUM'', ''SAURON_ENABLE_LEGACY_TOKEN_MAC'']"

definition refuse_if :: "bool \<Rightarrow> msg \<Rightarrow> (msg, unit) result" where
  "refuse_if b m = (if b then Err m else Ok ())"

definition golden_measurements_set :: "env \<Rightarrow> bool" where
  "golden_measurements_set env =
     (case env ''SAURON_ATTESTATION_GOLDEN_MEASUREMENTS'' of
        None \<Rightarrow> False
      | Some text \<Rightarrow> list_ex (\<lambda>v. trim v \<noteq> []) (split_on (CHR '','') text))"

definition audit_key_set :: "env \<Rightarrow> bool" where
  "audit_key_set env =
     (case env ''SAURON_AUDIT_HMAC_KEY'' of None \<Rightarrow> False | Some v \<Rightarrow> trim v \<noteq> [])"

definition production_checks :: "readers \<Rightarrow> env \<Rightarrow> (msg, unit) result" where
  "production_checks R env =
     and_then (try_all (\<lambda>var. refuse_if (env_truthy env var = Some False)
         (Fmt ''production runtime refuses to start with {var}={raw} (set SAURON_UNSAFE_ALLOW_ADVISORY_IN_PROD=1 to override)''
           [AStr var, AStr (case env var of None \<Rightarrow> [] | Some v \<Rightarrow> v)])) critical_flags) (\<lambda>_.
     and_then (refuse_if (policy_enforcement_mode_of env \<noteq> Enforce)
         (Msg ''production runtime requires SAURON_POLICY_ENFORCEMENT_MODE=enforce (set SAURON_UNSAFE_ALLOW_ADVISORY_IN_PROD=1 to override)'')) (\<lambda>_.
     and_then (try_all (\<lambda>flag. refuse_if (env_truthy env flag = Some True)
         (Fmt ''production runtime refuses insecure compatibility flag {legacy_flag}=1'' [AStr flag]))
         legacy_flags) (\<lambda>_.
     and_then (refuse_if (global_max_action_usd env = None)
         (Msg ''production runtime requires a finite positive SAURON_MAX_ACTION_USD blast-radius ceiling'')) (\<lambda>_.
     let require_hw = require_or_default env ''SAURON_REQUIRE_HARDWARE_ATTESTATION'' False False;
         require_golden = require_or_default env ''SAURON_REQUIRE_PREREGISTERED_MEASUREMENT'' False False in
     and_then (refuse_if (require_hw \<and> \<not> require_golden)
         (Msg ''hardware-attestation opt-in requires SAURON_REQUIRE_PREREGISTERED_MEASUREMENT=1 in production'')) (\<lambda>_.
     and_then (refuse_if (require_golden \<and> \<not> golden_measurements_set env)
         (Msg ''hardware-attestation opt-in requires a non-empty SAURON_ATTESTATION_GOLDEN_MEASUREMENTS allowlist'')) (\<lambda>_.
     and_then (validate_production_configuration R env) (\<lambda>_.
     and_then (refuse_if (env_truthy env ''SAURON_ANON_RINGS'' = Some True)
         (Msg ''production runtime refuses SAURON_ANON_RINGS=1 until the transparent guests support anonymous receipt preimages'')) (\<lambda>_.
     and_then (refuse_if (env_truthy env ''SAURON_ENABLE_GROTH16'' = Some True)
         (Msg ''production runtime refuses SAURON_ENABLE_GROTH16=1; use the pinned native STARK verifier'')) (\<lambda>_.
     and_then (refuse_if (env_truthy env ''SAURON_ENABLE_KYC_GROTH16'' = Some True)
         (Msg ''production runtime refuses SAURON_ENABLE_KYC_GROTH16=1'')) (\<lambda>_.
     refuse_if (\<not> audit_key_set env)
         (Msg ''production runtime refuses to start without SAURON_AUDIT_HMAC_KEY (the audit hash chain would use a public dev key; set SAURON_UNSAFE_ALLOW_ADVISORY_IN_PROD=1 to override)'')))))))))))"

definition assert_production_enforcement_safe :: "readers \<Rightarrow> env \<Rightarrow> (msg, unit) result" where
  "assert_production_enforcement_safe R env =
     (if is_development_runtime env then Ok ()
      else if env_truthy env ''SAURON_UNSAFE_ALLOW_ADVISORY_IN_PROD'' = Some True then Ok ()
      else production_checks R env)"

section \<open>What the gate guarantees\<close>

lemma refuse_if_Ok_iff [simp]: "refuse_if b m = Ok u \<longleftrightarrow> \<not> b"
  by (simp add: refuse_if_def)

lemma production_checks_Ok_iff:
  "production_checks R env = Ok () \<longleftrightarrow>
     (\<forall>var \<in> set critical_flags. env_truthy env var \<noteq> Some False) \<and>
     policy_enforcement_mode_of env = Enforce \<and>
     (\<forall>flag \<in> set legacy_flags. env_truthy env flag \<noteq> Some True) \<and>
     global_max_action_usd env \<noteq> None \<and>
     (require_or_default env ''SAURON_REQUIRE_HARDWARE_ATTESTATION'' False False \<longrightarrow>
        require_or_default env ''SAURON_REQUIRE_PREREGISTERED_MEASUREMENT'' False False) \<and>
     (require_or_default env ''SAURON_REQUIRE_PREREGISTERED_MEASUREMENT'' False False \<longrightarrow>
        golden_measurements_set env) \<and>
     validate_production_configuration R env = Ok () \<and>
     env_truthy env ''SAURON_ANON_RINGS'' \<noteq> Some True \<and>
     env_truthy env ''SAURON_ENABLE_GROTH16'' \<noteq> Some True \<and>
     env_truthy env ''SAURON_ENABLE_KYC_GROTH16'' \<noteq> Some True \<and>
     audit_key_set env"
  by (simp add: production_checks_def and_then_eq_Ok_iff try_all_Ok_iff Let_def)

lemma require_or_default_not_disabled:
  assumes "\<not> is_development_runtime env" "env_truthy env var \<noteq> Some False"
  shows "require_or_default env var d True"
  using assms by (auto simp: require_or_default_def split: option.splits)

definition demo_env :: env where
  "demo_env = [''SAURON_MAX_ACTION_USD'' \<mapsto> ''1000'', ''SAURON_AUDIT_HMAC_KEY'' \<mapsto> ''k'',
     ''SAURON_TRANSPARENT_IMAGE_IDS_JSON'' \<mapsto> ''{}'']"

definition demo_readers :: readers where
  "demo_readers = \<lparr> json_map_from_str =
       (\<lambda>s. Ok [(STATS_PROGRAM_ID, JStr ''aa''), (ACTION_POLICY_PROGRAM_ID, JStr ''bb'')]),
     hex_decode = (\<lambda>s. Some (replicate 32 (CHR ''a''))) \<rparr>"

lemma demo_env_max: "global_max_action_usd demo_env = Some (f64_of_int 1000)"
proof -
  have "trim ''1000'' = ''1000''"
    by (rule trim_graphic) (simp_all add: is_graphic_def byte_def)
  moreover have "str_parse_f64 ''1000'' = Some (f64_of_int 1000)"
    by (simp add: str_parse_f64_def parse_mantissa_def is_exponent_char_def all_digits_def
        is_ascii_digit_def byte_def dec_value_def f64_of_scaled_def f64_of_int_def char_lower_def
        is_ascii_upper_def)
  ultimately show ?thesis
    by (simp add: global_max_action_usd_def demo_env_def f64_int_simps)
qed

lemma demo_env_safe: "assert_production_enforcement_safe demo_readers demo_env = Ok ()"
proof -
  have trims: "trim ''k'' = ''k''"
    by (rule trim_graphic) (simp_all add: is_graphic_def byte_def)
  have "validate_production_configuration demo_readers demo_env = Ok ()"
    by (simp add: validate_production_configuration_def configured_image_id_def validate_program_id_def
        STATS_PROGRAM_ID_def ACTION_POLICY_PROGRAM_ID_def demo_readers_def demo_env_def)
  then show ?thesis
    by (simp add: assert_production_enforcement_safe_def production_checks_Ok_iff demo_env_max)
       (simp add: demo_env_def env_truthy_def critical_flags_def legacy_flags_def require_or_default_def
        policy_enforcement_mode_of_def is_development_runtime_def runtime_environment_def Let_def
        audit_key_set_def trims char_lower_def is_ascii_upper_def byte_def)
qed



end
