(* ===== verification/Tenancy.thy ===== *)
theory Tenancy
  imports Runtime_Mode App_Error
begin

text \<open>
  HTTP requests as the middleware sees them, and the tenant of a request (\<open>tenancy/mod.rs\<close>).
  Header names are in lower case, as \<open>HeaderMap\<close> stores them; \<open>get\<close> returns the first value of a
  name.  The record \<open>web\<close> holds third-party functions: base64url without padding
  (\<open>base64\<close>), Ed25519 (\<open>ed25519_dalek\<close>; a key is a string of 32 bytes), the JSON reader
  (\<open>serde_json\<close>), the parser of URIs (\<open>http\<close>), and the decoder of an HS256 token
  (\<open>jsonwebtoken\<close>; the inner option is the claim \<open>tnt\<close>).
\<close>

section \<open>Requests\<close>

record request =
  rq_method :: string
  rq_path :: string
  rq_path_and_query :: "string option"
  rq_headers :: "(string \<times> string) list"
  rq_body :: string
  rq_tenant :: "string option"

record uri =
  uri_scheme :: "string option"
  uri_authority :: "string option"
  uri_path :: string
  uri_query :: "string option"

record web = digests +
  b64u_decode :: "string \<Rightarrow> string option"
  b64u_encode :: "string \<Rightarrow> string"
  ed_key_ok :: "string \<Rightarrow> bool"
  ed_verify :: "string \<Rightarrow> string \<Rightarrow> string \<Rightarrow> bool"
  json_parse :: "string \<Rightarrow> json option"
  uri_parse :: "string \<Rightarrow> uri option"
  jwt_tnt :: "string \<Rightarrow> string \<Rightarrow> string option option"

text \<open>\<open>HeaderValue::to_str\<close>: the visible ASCII characters, the space and the tab.\<close>

definition to_str_ok :: "string \<Rightarrow> bool" where
  "to_str_ok v \<longleftrightarrow> list_all (\<lambda>c. (32 \<le> byte c \<and> byte c < 127) \<or> byte c = 9) v"

definition contains_key :: "request \<Rightarrow> string \<Rightarrow> bool" where
  "contains_key rq name \<longleftrightarrow> map_of (rq_headers rq) name \<noteq> None"

definition header_str :: "request \<Rightarrow> string \<Rightarrow> string option" where
  "header_str rq name =
     (case map_of (rq_headers rq) name of
        Some v \<Rightarrow> if to_str_ok v then Some v else None
      | None \<Rightarrow> None)"

section \<open>The tenant of a request\<close>

definition TENANT_HEADER :: string where
  "TENANT_HEADER = ''x-sauron-tenant-id''"

definition DEFAULT_TENANT :: string where
  "DEFAULT_TENANT = ''default''"

definition MAX_TENANT_ID_LEN :: nat where
  "MAX_TENANT_ID_LEN = 64"

definition valid_tenant_id :: "string \<Rightarrow> bool" where
  "valid_tenant_id s \<longleftrightarrow>
     s \<noteq> [] \<and> length s \<le> MAX_TENANT_ID_LEN \<and>
     list_all (\<lambda>c. is_ascii_alphanumeric c \<or> c = CHR ''-'' \<or> c = CHR ''_'') s"

text \<open>\<open>Option::filter\<close>.\<close>

definition filter_option :: "('a \<Rightarrow> bool) \<Rightarrow> 'a option \<Rightarrow> 'a option" where
  "filter_option P x = (case x of Some y \<Rightarrow> if P y then Some y else None | None \<Rightarrow> None)"

definition tenant_from_jwt :: "('z) web_scheme \<Rightarrow> request \<Rightarrow> string \<Rightarrow> string option" where
  "tenant_from_jwt W rq secret =
     Option.bind (header_str rq ''authorization'') (\<lambda>v.
     let auth = trim v in
     Option.bind (case strip_prefix auth ''Bearer '' of
                    Some t \<Rightarrow> Some t
                  | None \<Rightarrow> strip_prefix auth ''bearer '') (\<lambda>t.
     let token = trim t in
     if token = [] then None
     else Option.bind (jwt_tnt W secret token) (filter_option valid_tenant_id)))"

datatype tenant_resolution = UseTenant string | DefaultTenant | TenantConflict

fun resolve_tenant :: "string option \<Rightarrow> string option \<Rightarrow> tenant_resolution" where
  "resolve_tenant (Some jwt) (Some hdr) = (if jwt \<noteq> hdr then TenantConflict else UseTenant jwt)"
| "resolve_tenant (Some jwt) None = UseTenant jwt"
| "resolve_tenant None (Some hdr) = UseTenant hdr"
| "resolve_tenant None None = DefaultTenant"

text \<open>The claim of the token, if a secret is configured, and the trimmed header.\<close>

definition authenticated_tenant :: "env \<Rightarrow> ('z) web_scheme \<Rightarrow> request \<Rightarrow> string option" where
  "authenticated_tenant env W rq =
     Option.bind (filter_option (\<lambda>s. s \<noteq> []) (env ''SAURON_ADMIN_JWT_HS256_SECRET'')) (tenant_from_jwt W rq)"

definition header_tenant :: "request \<Rightarrow> string option" where
  "header_tenant rq = filter_option (\<lambda>s. s \<noteq> []) (map_option trim (header_str rq TENANT_HEADER))"

text \<open>The request passed on, or the status and message of the refusal.\<close>

definition extract_tenant :: "env \<Rightarrow> ('z) web_scheme \<Rightarrow> request \<Rightarrow> (nat \<times> msg, request) result" where
  "extract_tenant env W rq =
     (if (case header_tenant rq of Some raw \<Rightarrow> \<not> valid_tenant_id raw | None \<Rightarrow> False)
      then Err (400, Msg ''invalid x-sauron-tenant-id: must match [A-Za-z0-9_-]{1,64}'')
      else case resolve_tenant (authenticated_tenant env W rq) (header_tenant rq) of
        UseTenant t \<Rightarrow> Ok (rq\<lparr>rq_tenant := Some t\<rparr>)
      | DefaultTenant \<Rightarrow> Ok (rq\<lparr>rq_tenant := Some DEFAULT_TENANT\<rparr>)
      | TenantConflict \<Rightarrow> Err (403, Msg ''x-sauron-tenant-id does not match the authenticated tenant claim''))"

text \<open>\<open>extensions.get::<TenantId>().cloned().unwrap_or_default()\<close>.\<close>

definition request_tenant :: "request \<Rightarrow> string" where
  "request_tenant rq = (case rq_tenant rq of Some t \<Rightarrow> t | None \<Rightarrow> DEFAULT_TENANT)"

section \<open>The claim is authoritative\<close>

lemma filter_option_Some_iff: "filter_option P x = Some y \<longleftrightarrow> x = Some y \<and> P y"
  by (auto simp: filter_option_def split: option.splits)

lemma tenant_from_jwt_valid: "tenant_from_jwt W rq secret = Some t \<Longrightarrow> valid_tenant_id t"
  by (auto simp: tenant_from_jwt_def Let_def filter_option_Some_iff bind_eq_Some_conv split: if_splits)

lemma authenticated_tenant_valid: "authenticated_tenant env W rq = Some t \<Longrightarrow> valid_tenant_id t"
  by (auto simp: authenticated_tenant_def bind_eq_Some_conv dest: tenant_from_jwt_valid)

lemma valid_default_tenant: "valid_tenant_id DEFAULT_TENANT"
  by code_simp

lemma resolve_tenant_cases:
  "resolve_tenant j h = UseTenant t \<longleftrightarrow> (case j of Some c \<Rightarrow> t = c \<and> (h = None \<or> h = Some c) | None \<Rightarrow> h = Some t)"
  "resolve_tenant j h = DefaultTenant \<longleftrightarrow> j = None \<and> h = None"
  "resolve_tenant j h = TenantConflict \<longleftrightarrow> (\<exists>c d. j = Some c \<and> h = Some d \<and> c \<noteq> d)"
  by (cases j; cases h; auto)+


end
