(* ===== verification/Single_Use.thy ===== *)
theory Single_Use
  imports Prelude
begin

text \<open>
  The contract shared by the stores that make a credential usable once: the call
  nonces, the token ids and the payment authorisations of \<open>repository.rs\<close>, and the
  action nonces of \<open>agent_action\<close>.  A call of \<open>present a s\<close> presents the credential
  \<open>key a\<close> to the state \<open>s\<close>; it is accepted or refused and may change the state in both
  cases (rows that have expired are removed on the way).

  \<open>timely s a\<close> restricts the calls that can happen in a state, which for a store with
  expiry says that the clock does not run backwards.
\<close>

fun accepted :: "('a \<Rightarrow> 's \<Rightarrow> bool \<times> 's) \<Rightarrow> 'a list \<Rightarrow> 's \<Rightarrow> 'a list" where
  "accepted present [] s = []"
| "accepted present (a # as) s =
     (case present a s of (ok, s') \<Rightarrow> (if ok then [a] else []) @ accepted present as s')"

fun timely_run :: "('s \<Rightarrow> 'a \<Rightarrow> bool) \<Rightarrow> ('a \<Rightarrow> 's \<Rightarrow> bool \<times> 's) \<Rightarrow> 'a list \<Rightarrow> 's \<Rightarrow> bool" where
  "timely_run timely present [] s \<longleftrightarrow> True"
| "timely_run timely present (a # as) s \<longleftrightarrow> timely s a \<and> timely_run timely present as (snd (present a s))"

lemma accepted_subset: "set (accepted p as s) \<subseteq> set as"
  by (induction as arbitrary: s) (auto split: prod.splits if_splits)

locale single_use =
  fixes spent :: "'s \<Rightarrow> 'k \<Rightarrow> bool"
    and present :: "'a \<Rightarrow> 's \<Rightarrow> bool \<times> 's"
    and key :: "'a \<Rightarrow> 'k"
    and timely :: "'s \<Rightarrow> 'a \<Rightarrow> bool"
  assumes use_spends: "timely s a \<Longrightarrow> present a s = (True, s') \<Longrightarrow> spent s' (key a)"
    and spent_refused: "timely s a \<Longrightarrow> spent s (key a) \<Longrightarrow> \<not> fst (present a s)"
    and spent_kept: "timely s a \<Longrightarrow> spent s k \<Longrightarrow> spent (snd (present a s)) k"
begin

lemma spent_not_accepted:
  "timely_run timely present as s \<Longrightarrow> spent s k \<Longrightarrow> k \<notin> key ` set (accepted present as s)"
proof (induction as arbitrary: s)
  case (Cons a as)
  then have a: "timely s a" "timely_run timely present as (snd (present a s))"
    by simp_all
  have "k \<notin> key ` set (accepted present as (snd (present a s)))"
    using Cons.IH [OF a(2) spent_kept [OF a(1) Cons.prems(2)]] .
  moreover have "key a = k \<Longrightarrow> \<not> fst (present a s)"
    using spent_refused [OF a(1)] Cons.prems(2) by blast
  ultimately show ?case
    by (cases "present a s") auto
qed simp

lemma accepted_once:
  "timely_run timely present as s \<Longrightarrow> distinct (map key (accepted present as s))"
proof (induction as arbitrary: s)
  case (Cons a as)
  then have a: "timely s a" "timely_run timely present as (snd (present a s))"
    by simp_all
  show ?case
  proof (cases "present a s")
    case (Pair ok s')
    then have rest: "distinct (map key (accepted present as s'))"
      using Cons.IH a(2) by simp
    show ?thesis
    proof (cases ok)
      case True
      then have "key a \<notin> key ` set (accepted present as s')"
        using spent_not_accepted [of as s' "key a"] use_spends [OF a(1)] a(2) Pair by simp
      then show ?thesis
        using rest Pair True by simp
    qed (use rest Pair in simp)
  qed
qed simp

end

end
