(* ===== verification/Repository.thy ===== *)
theory Repository
  imports Database Tenancy Single_Use
begin

text \<open>
  The repository of \<open>repository.rs\<close>: the transactions on the two backends with the retry
  loop of the Postgres one, the stores of used call nonces, token ids, proof-of-possession challenges and
  payment authorisations, the users, and the spend ledger with its log.

  A transaction body gets the connection (what fails on it and how) and the database and returns
  its value with the changed database, or an error.  Transactions run one after the other,
  which is what the writer lock of SQLite and serialisable isolation of Postgres give.
\<close>

section \<open>Backends and transactions\<close>

datatype repo_error = Backend string | Replay string

record sqlite_env = any_env +
  begin_fault :: "string option"
  commit_fault :: "string option"

datatype pg_error = PgError (pg_code: "string option") (pg_text: string)

record pg_attempt =
  pg_begin :: "string option"
  pg_isolation :: "string option"
  pg_stmt :: "nat \<Rightarrow> pg_error option"
  pg_unique :: pg_error
  pg_commit :: "pg_error option"

datatype repo = Sqlite sqlite_env | Postgres any_env "nat \<Rightarrow> pg_attempt"

fun is_postgres :: "repo \<Rightarrow> bool" where
  "is_postgres (Postgres _ _) = True"
| "is_postgres (Sqlite _) = False"

fun handle :: "repo \<Rightarrow> any_env" where
  "handle (Sqlite e) = any_env.truncate e"
| "handle (Postgres e _) = e"

text \<open>\<open>connect\<close> opens the pool for a URL (\<open>sqlx\<close>); \<open>local\<close> and \<open>sqlite\<close> are the handle.\<close>

definition repo_from_env ::
  "env \<Rightarrow> (string \<Rightarrow> (string, nat \<Rightarrow> pg_attempt) result) \<Rightarrow> any_env \<Rightarrow> sqlite_env \<Rightarrow> (string, repo) result" where
  "repo_from_env env connect local sqlite =
     (let backend = to_ascii_lowercase (case env ''SAURON_DB_BACKEND'' of Some v \<Rightarrow> v | None \<Rightarrow> ''sqlite'') in
      if backend \<in> {''postgres'', ''pg'', ''postgresql''}
      then (case env ''DATABASE_URL'' of
              None \<Rightarrow> Err ''DATABASE_URL must be set when SAURON_DB_BACKEND=postgres''
            | Some url \<Rightarrow>
                (case connect url of
                   Err e \<Rightarrow> Err (''postgres connect: '' @ e)
                 | Ok pool \<Rightarrow> Ok (Postgres local pool)))
      else Ok (Sqlite sqlite))"

text \<open>The guard of \<open>conn\<close>, followed by one operation on the connection.\<close>

definition with_conn ::
  "repo \<Rightarrow> (any_env \<Rightarrow> (repo_error, 'a) result) \<Rightarrow> (repo_error, 'a) result" where
  "with_conn repo f =
     (case lock_fault (handle repo) of Some e \<Rightarrow> Err (Backend e) | None \<Rightarrow> f (handle repo))"

text \<open>One statement: the \<open>k\<close>th of the body, violating a uniqueness constraint or not.\<close>

definition run_stmt :: "('z) any_env_scheme \<Rightarrow> nat \<Rightarrow> bool \<Rightarrow> 'a \<Rightarrow> (string, 'a) result" where
  "run_stmt c k violated x =
     (case stmt_fault c k of
        Some e \<Rightarrow> Err e
      | None \<Rightarrow> if violated then Err (unique_text c) else Ok x)"

text \<open>A query whose failure counts as the default value, and one whose failure counts as a missing row.\<close>

definition scalar_or :: "('z) any_env_scheme \<Rightarrow> nat \<Rightarrow> 'a \<Rightarrow> 'a \<Rightarrow> 'a" where
  "scalar_or conn k v fallback = (if stmt_fault conn k = None then v else fallback)"

definition require_row :: "('z) any_env_scheme \<Rightarrow> nat \<Rightarrow> 'a option \<Rightarrow> 'e \<Rightarrow> ('e, 'a) result" where
  "require_row conn k row err = ok_or (scalar_or conn k row None) err"

definition run_pg :: "pg_attempt \<Rightarrow> nat \<Rightarrow> bool \<Rightarrow> 'a \<Rightarrow> (pg_error, 'a) result" where
  "run_pg c k violated x =
     (case pg_stmt c k of
        Some e \<Rightarrow> Err e
      | None \<Rightarrow> if violated then Err (pg_unique c) else Ok x)"

definition txn_immediate_sqlite ::
  "repo \<Rightarrow> (sqlite_env \<Rightarrow> database \<Rightarrow> (repo_error, 'a \<times> database) result) \<Rightarrow> database \<Rightarrow>
   (repo_error, 'a) result \<times> database" where
  "txn_immediate_sqlite repo f db =
     (case repo of
        Sqlite conn \<Rightarrow>
          (case lock_fault conn of
             Some e \<Rightarrow> (Err (Backend e), db)
           | None \<Rightarrow>
               (case begin_fault conn of
                  Some e \<Rightarrow> (Err (Backend (''begin immediate: '' @ e)), db)
                | None \<Rightarrow>
                    (case f conn db of
                       Ok (v, db') \<Rightarrow>
                         (case commit_fault conn of
                            Some e \<Rightarrow> (Err (Backend (''commit: '' @ e)), db)
                          | None \<Rightarrow> (Ok v, db'))
                     | Err e \<Rightarrow> (Err e, db))))
      | Postgres _ _ \<Rightarrow>
          (Err (Backend ''txn_immediate_sqlite called on Postgres backend''), db))"

text \<open>
  \<open>AnyConn::transaction\<close>: \<open>first\<close> and \<open>final\<close> are the numbers of \<open>BEGIN\<close> and \<open>COMMIT\<close>.  The database is the one
  other connections see: a transaction that is rolled back, or that is not committed, leaves it
  unchanged.
\<close>

definition any_transaction ::
  "('z) any_env_scheme \<Rightarrow> nat \<Rightarrow> nat \<Rightarrow> (database \<Rightarrow> (string, 'a \<times> database) result) \<Rightarrow> database \<Rightarrow>
   (string, 'a) result \<times> database" where
  "any_transaction conn first final f db =
     (case run_stmt conn first False () of
        Err e \<Rightarrow> (Err (''begin: '' @ e), db)
      | Ok _ \<Rightarrow>
          (case f db of
             Err e \<Rightarrow> (Err e, db)
           | Ok (v, db') \<Rightarrow>
               (case run_stmt conn final False () of
                  Err e \<Rightarrow> (Err (''commit: '' @ e), db)
                | Ok _ \<Rightarrow> (Ok v, db'))))"

fun retryable :: "repo_error \<Rightarrow> bool" where
  "retryable (Backend s) \<longleftrightarrow> str_contains s ''40001'' \<or> str_contains s ''serialization_failure''"
| "retryable (Replay _) \<longleftrightarrow> False"

definition backoff_ms :: "nat \<Rightarrow> u64" where
  "backoff_ms attempt =
     10 + of_nat attempt * 30 + of_nat attempt * of_nat attempt * 10"

definition commit_conflict :: "nat \<Rightarrow> repo_error" where
  "commit_conflict attempt =
     Backend (''serialisation_failure on commit (attempt '' @ nat_to_string (attempt + 1) @ '')'')"

text \<open>The loop over the attempts that remain, with the error of the last one.\<close>

fun pg_attempts ::
  "(nat \<Rightarrow> pg_attempt) \<Rightarrow> (pg_attempt \<Rightarrow> database \<Rightarrow> (repo_error, 'a \<times> database) result) \<Rightarrow>
   nat list \<Rightarrow> repo_error option \<Rightarrow> database \<Rightarrow> (repo_error, 'a) result \<times> database" where
  "pg_attempts pool f [] last_err db =
     (Err (case last_err of
             Some e \<Rightarrow> e
           | None \<Rightarrow> Backend ''serialisable retry exhausted with no error captured''), db)"
| "pg_attempts pool f (attempt # rest) last_err db =
     (let tx = pool attempt in
      case pg_begin tx of
        Some e \<Rightarrow> (Err (Backend (''postgres begin: '' @ e)), db)
      | None \<Rightarrow>
          (case pg_isolation tx of
             Some e \<Rightarrow> (Err (Backend (''postgres set isolation: '' @ e)), db)
           | None \<Rightarrow>
               (case f tx db of
                  Ok (val, db') \<Rightarrow>
                    (case pg_commit tx of
                       None \<Rightarrow> (Ok val, db')
                     | Some e \<Rightarrow>
                         if pg_code e = Some ''40001''
                         then pg_attempts pool f rest (Some (commit_conflict attempt)) db
                         else (Err (Backend (''postgres commit: '' @ pg_text e)), db))
                | Err e \<Rightarrow>
                    if retryable e then pg_attempts pool f rest (Some e) db else (Err e, db))))"

definition txn_serializable_pg ::
  "repo \<Rightarrow> (pg_attempt \<Rightarrow> database \<Rightarrow> (repo_error, 'a \<times> database) result) \<Rightarrow> database \<Rightarrow>
   (repo_error, 'a) result \<times> database" where
  "txn_serializable_pg repo f db =
     (case repo of
        Postgres _ pool \<Rightarrow> pg_attempts pool f [0..<3] None db
      | Sqlite _ \<Rightarrow> (Err (Backend ''txn_serializable_pg called on SQLite backend''), db))"

text \<open>The error mapping the Postgres bodies share.\<close>

definition pg_backend :: "string \<Rightarrow> pg_error \<Rightarrow> repo_error" where
  "pg_backend what e =
     (if pg_code e = Some ''40001'' then Backend ''40001 serialization_failure''
      else Backend (what @ pg_text e))"

definition pg_insert_error :: "string \<Rightarrow> string \<Rightarrow> pg_error \<Rightarrow> repo_error" where
  "pg_insert_error replay what e =
     (if pg_code e = Some ''23505'' then Replay replay else pg_backend what e)"

definition sqlite_insert_error :: "string \<Rightarrow> string \<Rightarrow> repo_error" where
  "sqlite_insert_error replay s =
     (if str_contains s ''UNIQUE'' \<or> str_contains s ''PRIMARY KEY'' then Replay replay else Backend s)"

section \<open>Call nonces and token ids\<close>

definition consume_call_nonce ::
  "repo \<Rightarrow> string \<Rightarrow> string \<Rightarrow> i64 \<Rightarrow> database \<Rightarrow> (repo_error, unit) result \<times> database" where
  "consume_call_nonce repo agent_id nonce exp' db =
     (if nonce = [] then (Err (Backend ''missing call nonce''), db)
      else if length nonce > 128 then (Err (Backend ''call nonce too long (max 128 chars)''), db)
      else
        let replay = ''call nonce replay (already used)'';
            taken = (\<lambda>db. agent_call_nonces db (agent_id, nonce) \<noteq> None);
            insert = (\<lambda>db. ((), db\<lparr>agent_call_nonces := (agent_call_nonces db)((agent_id, nonce) \<mapsto> exp')\<rparr>))
        in case repo of
             Sqlite _ \<Rightarrow>
               txn_immediate_sqlite repo (\<lambda>conn db.
                 map_err (sqlite_insert_error replay) (run_stmt conn 0 (taken db) (insert db))) db
           | Postgres _ _ \<Rightarrow>
               txn_serializable_pg repo (\<lambda>tx db.
                 map_err (pg_insert_error replay ''postgres insert call nonce: '')
                   (run_pg tx 0 (taken db) (insert db))) db)"

definition consume_ajwt_jti ::
  "repo \<Rightarrow> string \<Rightarrow> i64 \<Rightarrow> database \<Rightarrow> (repo_error, unit) result \<times> database" where
  "consume_ajwt_jti repo jti exp' db =
     (if jti = [] then (Err (Backend ''missing jti''), db)
      else if length jti > 256 then (Err (Backend ''jti too long (max 256 chars)''), db)
      else
        let replay = ''A-JWT jti replay (token already used)'';
            taken = (\<lambda>db. ajwt_used_jtis db jti \<noteq> None);
            insert = (\<lambda>db. ((), db\<lparr>ajwt_used_jtis := (ajwt_used_jtis db)(jti \<mapsto> exp')\<rparr>))
        in case repo of
             Sqlite _ \<Rightarrow>
               txn_immediate_sqlite repo (\<lambda>conn db.
                 map_err (sqlite_insert_error replay) (run_stmt conn 0 (taken db) (insert db))) db
           | Postgres _ _ \<Rightarrow>
               txn_serializable_pg repo (\<lambda>tx db.
                 map_err (pg_insert_error replay ''postgres insert jti: '')
                   (run_pg tx 0 (taken db) (insert db))) db)"

section \<open>Proof-of-possession challenges\<close>

definition insert_pop_challenge ::
  "repo \<Rightarrow> string \<Rightarrow> string \<Rightarrow> string \<Rightarrow> i64 \<Rightarrow> i64 \<Rightarrow> database \<Rightarrow>
   (repo_error, i64) result \<times> database" where
  "insert_pop_challenge repo id' agent_id challenge now ttl_secs db =
     (let exp' = i64_wrap (now + ttl_secs);
          gc = (\<lambda>db. db\<lparr>agent_pop_challenges := purge pop_exp now (agent_pop_challenges db)\<rparr>);
          taken = (\<lambda>db. agent_pop_challenges db id' \<noteq> None);
          insert = (\<lambda>db. (exp', db\<lparr>agent_pop_challenges := (agent_pop_challenges db)(id' \<mapsto>
                     \<lparr>pop_agent_id = agent_id, pop_challenge = challenge, pop_exp = exp'\<rparr>)\<rparr>))
      in case repo of
           Sqlite _ \<Rightarrow>
             txn_immediate_sqlite repo (\<lambda>conn db.
               and_then (map_err Backend (run_stmt conn 0 False (gc db))) (\<lambda>db.
               map_err Backend (run_stmt conn 1 (taken db) (insert db)))) db
         | Postgres _ _ \<Rightarrow>
             txn_serializable_pg repo (\<lambda>tx db.
               and_then (map_err (\<lambda>e. Backend (''pg pop gc: '' @ pg_text e)) (run_pg tx 0 False (gc db))) (\<lambda>db.
               map_err (\<lambda>e. Backend (''pg pop insert: '' @ pg_text e)) (run_pg tx 1 (taken db) (insert db)))) db)"

text \<open>
  The read, the checks and the delete of a challenge, given how the backend reports an error of the
  read and of the delete.  The delete of an expired challenge belongs to the transaction
  that the error rolls back, so it has no effect.
\<close>

definition take_pop_challenge_body ::
  "string \<Rightarrow> string \<Rightarrow> i64 \<Rightarrow> (repo_error, unit) result \<Rightarrow> (repo_error, unit) result \<Rightarrow> database \<Rightarrow>
   (repo_error, string \<times> database) result" where
  "take_pop_challenge_body challenge_id expected_agent_id now select_res delete_res db =
     and_then select_res (\<lambda>_.
     case agent_pop_challenges db challenge_id of
       None \<Rightarrow> Err (Replay ''unknown or expired pop_challenge_id'')
     | Some row \<Rightarrow>
         if pop_agent_id row \<noteq> expected_agent_id then Err (Replay ''pop challenge does not match agent'')
         else if pop_exp row < now then Err (Replay ''pop challenge expired'')
         else and_then delete_res (\<lambda>_.
           Ok (pop_challenge row,
               db\<lparr>agent_pop_challenges := (agent_pop_challenges db)(challenge_id := None)\<rparr>)))"

definition take_pop_challenge ::
  "repo \<Rightarrow> string \<Rightarrow> string \<Rightarrow> i64 \<Rightarrow> database \<Rightarrow> (repo_error, string) result \<times> database" where
  "take_pop_challenge repo challenge_id expected_agent_id now db =
     (case repo of
        Sqlite _ \<Rightarrow>
          txn_immediate_sqlite repo (\<lambda>conn.
            take_pop_challenge_body challenge_id expected_agent_id now
              (map_err (\<lambda>_. Replay ''unknown or expired pop_challenge_id'') (run_stmt conn 0 False ()))
              (map_err Backend (run_stmt conn 1 False ()))) db
      | Postgres _ _ \<Rightarrow>
          txn_serializable_pg repo (\<lambda>tx.
            take_pop_challenge_body challenge_id expected_agent_id now
              (map_err (\<lambda>e. Backend (''pg pop select: '' @ pg_text e)) (run_pg tx 0 False ()))
              (map_err (\<lambda>e. Backend (''pg pop delete: '' @ pg_text e)) (run_pg tx 1 False ()))) db)"

section \<open>Payment authorisations\<close>

definition payment_authorization_agent ::
  "repo \<Rightarrow> string \<Rightarrow> string \<Rightarrow> database \<Rightarrow> (repo_error, string option) result" where
  "payment_authorization_agent repo tenant_id auth_id db =
     with_conn repo (\<lambda>c. map_err Backend (run_stmt c 0 False
       (map_option pa_agent_id
         (find (\<lambda>r. pa_tenant_id r = tenant_id \<and> pa_auth_id r = auth_id) (agent_payment_authorizations db)))))"

definition claimable :: "string \<Rightarrow> string \<Rightarrow> i64 \<Rightarrow> payment_row \<Rightarrow> bool" where
  "claimable tenant_id auth_id now r \<longleftrightarrow>
     pa_tenant_id r = tenant_id \<and> pa_auth_id r = auth_id \<and> pa_consumed r = 0 \<and> now < pa_expires_at r"

definition mark_consumed :: "string \<Rightarrow> string \<Rightarrow> i64 \<Rightarrow> payment_row \<Rightarrow> payment_row" where
  "mark_consumed tenant_id auth_id now r =
     (if claimable tenant_id auth_id now r then r\<lparr>pa_consumed := 1\<rparr> else r)"

definition claim_payment ::
  "string \<Rightarrow> string \<Rightarrow> i64 \<Rightarrow> database \<Rightarrow> (repo_error, unit \<times> database) result" where
  "claim_payment tenant_id auth_id now db =
     (if list_ex (claimable tenant_id auth_id now) (agent_payment_authorizations db)
      then Ok ((), db\<lparr>agent_payment_authorizations :=
             map (mark_consumed tenant_id auth_id now) (agent_payment_authorizations db)\<rparr>)
      else Err (Replay ''Authorization already consumed or expired''))"

definition consume_payment_authorization ::
  "repo \<Rightarrow> string \<Rightarrow> string \<Rightarrow> i64 \<Rightarrow> database \<Rightarrow> (repo_error, unit) result \<times> database" where
  "consume_payment_authorization repo tenant_id auth_id now db =
     (if auth_id = [] then (Err (Backend ''missing auth_id''), db)
      else case repo of
        Sqlite _ \<Rightarrow>
          txn_immediate_sqlite repo (\<lambda>conn db.
            and_then (map_err Backend (run_stmt conn 0 False ())) (\<lambda>_. claim_payment tenant_id auth_id now db)) db
      | Postgres _ _ \<Rightarrow>
          txn_serializable_pg repo (\<lambda>tx db.
            and_then (map_err (pg_backend ''pg payauth consume: '') (run_pg tx 0 False ())) (\<lambda>_.
              claim_payment tenant_id auth_id now db)) db)"

definition payment_insert_error :: "string \<Rightarrow> repo_error" where
  "payment_insert_error e =
     (let low = to_ascii_lowercase e in
      if str_contains low ''unique'' \<or> str_contains low ''duplicate key''
      then Replay ''payment authorization already exists'' else Backend e)"

definition insert_payment_authorization ::
  "repo \<Rightarrow> payment_row \<Rightarrow> database \<Rightarrow> (repo_error, unit) result \<times> database" where
  "insert_payment_authorization repo row db =
     (let db' = db\<lparr>agent_payment_authorizations :=
                 agent_payment_authorizations db @ [row\<lparr>pa_consumed := 0\<rparr>]\<rparr>;
          taken = list_ex (\<lambda>r. pa_auth_id r = pa_auth_id row \<or> pa_jti r = pa_jti row)
                    (agent_payment_authorizations db)
      in case with_conn repo (\<lambda>c.
                map_err payment_insert_error (run_stmt c 0 taken ())) of
           Ok _ \<Rightarrow> (Ok (), db')
         | Err e \<Rightarrow> (Err e, db))"

section \<open>Users\<close>

definition user_exists :: "repo \<Rightarrow> string \<Rightarrow> database \<Rightarrow> (repo_error, bool) result" where
  "user_exists repo key_image_hex db =
     with_conn repo (\<lambda>c. map_err Backend (run_stmt c 0 False
       (length (filter (\<lambda>u. fst u = key_image_hex) (users db)) > 0)))"

definition upsert_user ::
  "repo \<Rightarrow> string \<Rightarrow> user_row \<Rightarrow> database \<Rightarrow> (repo_error, unit) result \<times> database" where
  "upsert_user repo key_image_hex row db =
     (case with_conn repo (\<lambda>c. map_err Backend (run_stmt c 0 False ())) of
        Err e \<Rightarrow> (Err e, db)
      | Ok _ \<Rightarrow>
          (Ok (), db\<lparr>users :=
             if key_image_hex \<in> fst ` set (users db)
             then map (\<lambda>u. if fst u = key_image_hex then (key_image_hex, row) else u) (users db)
             else users db @ [(key_image_hex, row)]\<rparr>))"

definition get_user :: "repo \<Rightarrow> string \<Rightarrow> database \<Rightarrow> (repo_error, user_row option) result" where
  "get_user repo key_image_hex db =
     with_conn repo (\<lambda>c. map_err Backend (run_stmt c 0 False (map_of (users db) key_image_hex)))"

definition all_user_pubkeys :: "repo \<Rightarrow> database \<Rightarrow> (repo_error, string list) result" where
  "all_user_pubkeys repo db =
     with_conn repo (\<lambda>c. map_err Backend (run_stmt c 0 False (map (us_public_key_hex \<circ> snd) (users db))))"

definition all_merkle_commitments :: "repo \<Rightarrow> database \<Rightarrow> (repo_error, string list) result" where
  "all_merkle_commitments repo db =
     with_conn repo (\<lambda>c. map_err Backend (run_stmt c 0 False (map snd (sort_key fst (merkle_leaves db)))))"

definition count_users :: "repo \<Rightarrow> database \<Rightarrow> (repo_error, i64) result" where
  "count_users repo db =
     with_conn repo (\<lambda>c. map_err Backend (run_stmt c 0 False (int (length (users db)))))"

definition list_users ::
  "repo \<Rightarrow> database \<Rightarrow> (repo_error, (string \<times> string \<times> string \<times> string) list) result" where
  "list_users repo db =
     with_conn repo (\<lambda>c. map_err Backend (run_stmt c 0 False
       (map (\<lambda>(k, u). (k, us_first_name u, us_last_name u, us_nationality u)) (users db))))"

definition insert_user_registration ::
  "repo \<Rightarrow> registration_row \<Rightarrow> database \<Rightarrow> (repo_error, unit) result \<times> database" where
  "insert_user_registration repo row db =
     (case with_conn repo (\<lambda>c. map_err Backend (run_stmt c 0 False ())) of
        Err e \<Rightarrow> (Err e, db)
      | Ok _ \<Rightarrow>
          (Ok (), db\<lparr>user_registrations :=
             if list_ex (\<lambda>r. rg_client_name r = rg_client_name row \<and>
                  rg_user_key_image_hex r = rg_user_key_image_hex row \<and> rg_source r = rg_source row)
                  (user_registrations db)
             then user_registrations db else user_registrations db @ [row]\<rparr>))"

section \<open>The spend ledger\<close>

record spend_call =
  sc_tenant_id :: string
  sc_policy_id :: string
  sc_agent_id :: string
  sc_action_id :: "string option"
  sc_amount_usd :: f64
  sc_source :: string
  sc_period_start :: i64
  sc_now :: i64

definition spend_log_insert :: "string \<Rightarrow> spend_call \<Rightarrow> database \<Rightarrow> database" where
  "spend_log_insert log_id sc db =
     db\<lparr>spend_log := spend_log db @
        [\<lparr>sl_log_id = log_id, sl_policy_id = sc_policy_id sc, sl_agent_id = sc_agent_id sc,
          sl_action_id = sc_action_id sc, sl_amount_usd = sc_amount_usd sc, sl_recorded_at = sc_now sc,
          sl_source = sc_source sc, sl_tenant_id = sc_tenant_id sc\<rparr>]\<rparr>"

definition spend_key :: "spend_call \<Rightarrow> string \<times> string \<times> string \<times> i64" where
  "spend_key sc = (sc_tenant_id sc, sc_policy_id sc, sc_agent_id sc, sc_period_start sc)"

definition spend_ledger_upsert :: "spend_call \<Rightarrow> database \<Rightarrow> database" where
  "spend_ledger_upsert sc db =
     db\<lparr>spend_ledger := (spend_ledger db)(spend_key sc \<mapsto>
        (case spend_ledger db (spend_key sc) of
           None \<Rightarrow> (sc_amount_usd sc, sc_now sc)
         | Some (total_usd, _) \<Rightarrow> (f64_add total_usd (sc_amount_usd sc), sc_now sc)))\<rparr>"

text \<open>The two statements, in one transaction.\<close>

definition spend_txn ::
  "repo \<Rightarrow> string \<Rightarrow> spend_call \<Rightarrow> database \<Rightarrow> (repo_error, unit) result \<times> database" where
  "spend_txn repo log_id sc db =
     (let taken = (\<lambda>db. log_id \<in> sl_log_id ` set (spend_log db)) in
      case repo of
        Sqlite _ \<Rightarrow>
          txn_immediate_sqlite repo (\<lambda>conn db.
            and_then (map_err (\<lambda>e. Backend (''spend_log insert: '' @ e))
              (run_stmt conn 0 (taken db) (spend_log_insert log_id sc db))) (\<lambda>db.
            map_err (\<lambda>e. Backend (''spend_ledger upsert: '' @ e))
              (run_stmt conn 1 False ((), spend_ledger_upsert sc db)))) db
      | Postgres _ _ \<Rightarrow>
          txn_serializable_pg repo (\<lambda>tx db.
            and_then (map_err (pg_backend ''pg spend_log insert: '')
              (run_pg tx 0 (taken db) (spend_log_insert log_id sc db))) (\<lambda>db.
            map_err (pg_backend ''pg spend_ledger upsert: '')
              (run_pg tx 1 False ((), spend_ledger_upsert sc db)))) db)"

text \<open>\<open>hex\<close> is the random part of the log id.\<close>

definition record_spend_with_period_tenant ::
  "repo \<Rightarrow> string \<Rightarrow> spend_call \<Rightarrow> database \<Rightarrow> (repo_error, string) result \<times> database" where
  "record_spend_with_period_tenant repo hex sc db =
     (if sc_policy_id sc = [] \<or> sc_agent_id sc = []
      then (Err (Backend ''missing policy_id or agent_id''), db)
      else if \<not> f64_is_finite (sc_amount_usd sc) then (Err (Backend ''amount_usd must be finite''), db)
      else if sc_source sc \<noteq> ''sdk_flush'' \<and> sc_source sc \<noteq> ''server_recompute''
      then (Err (Backend (''unknown spend source '' @ [CHR 0x27] @ sc_source sc @ [CHR 0x27])), db)
      else
        let log_id = ''splog_'' @ hex in
        case spend_txn repo log_id sc db of
          (Ok _, db') \<Rightarrow> (Ok log_id, db')
        | (Err e, db') \<Rightarrow> (Err e, db'))"

text \<open>The variants with a default tenant and with the lifetime period.\<close>

definition record_spend_tenant ::
  "repo \<Rightarrow> string \<Rightarrow> spend_call \<Rightarrow> database \<Rightarrow> (repo_error, string) result \<times> database" where
  "record_spend_tenant repo hex sc db =
     record_spend_with_period_tenant repo hex (sc\<lparr>sc_period_start := 0\<rparr>) db"

definition record_spend_with_period ::
  "repo \<Rightarrow> string \<Rightarrow> spend_call \<Rightarrow> database \<Rightarrow> (repo_error, string) result \<times> database" where
  "record_spend_with_period repo hex sc db =
     record_spend_with_period_tenant repo hex (sc\<lparr>sc_tenant_id := DEFAULT_TENANT\<rparr>) db"

definition record_spend ::
  "repo \<Rightarrow> string \<Rightarrow> spend_call \<Rightarrow> database \<Rightarrow> (repo_error, string) result \<times> database" where
  "record_spend repo hex sc db = record_spend_with_period repo hex (sc\<lparr>sc_period_start := 0\<rparr>) db"

definition get_spend_total_tenant ::
  "repo \<Rightarrow> string \<Rightarrow> string \<Rightarrow> string \<Rightarrow> i64 \<Rightarrow> database \<Rightarrow> (repo_error, f64) result" where
  "get_spend_total_tenant repo tenant_id policy_id agent_id period_start db =
     with_conn repo (\<lambda>c. map_err Backend (run_stmt c 0 False
       (case spend_ledger db (tenant_id, policy_id, agent_id, period_start) of
          Some (total_usd, _) \<Rightarrow> total_usd | None \<Rightarrow> f64_zero)))"

definition get_spend_total ::
  "repo \<Rightarrow> string \<Rightarrow> string \<Rightarrow> i64 \<Rightarrow> database \<Rightarrow> (repo_error, f64) result" where
  "get_spend_total repo policy_id agent_id period_start db =
     get_spend_total_tenant repo DEFAULT_TENANT policy_id agent_id period_start db"

definition get_spend_meta_tenant ::
  "repo \<Rightarrow> string \<Rightarrow> string \<Rightarrow> string \<Rightarrow> i64 \<Rightarrow> database \<Rightarrow> (repo_error, i64 \<times> i64) result" where
  "get_spend_meta_tenant repo tenant_id policy_id agent_id period_start db =
     with_conn repo (\<lambda>c.
       and_then (map_err Backend (run_stmt c 0 False
         (case spend_ledger db (tenant_id, policy_id, agent_id, period_start) of
            Some (_, last_updated) \<Rightarrow> last_updated | None \<Rightarrow> 0))) (\<lambda>last_updated.
       and_then (map_err Backend (run_stmt c 1 False
         (int (length (filter (\<lambda>r. sl_policy_id r = policy_id \<and> sl_agent_id r = agent_id \<and>
            sl_tenant_id r = tenant_id) (spend_log db)))))) (\<lambda>log_count.
       Ok (last_updated, log_count))))"

definition get_spend_meta ::
  "repo \<Rightarrow> string \<Rightarrow> string \<Rightarrow> i64 \<Rightarrow> database \<Rightarrow> (repo_error, i64 \<times> i64) result" where
  "get_spend_meta repo policy_id agent_id period_start db =
     get_spend_meta_tenant repo DEFAULT_TENANT policy_id agent_id period_start db"

text \<open>
  \<open>LIMIT\<close> of a negative number is no limit in SQLite and an error in Postgres.  The rows of equal time are
  in the order of their insertion.
\<close>

definition list_spend_log_tenant ::
  "repo \<Rightarrow> string \<Rightarrow> string \<Rightarrow> string \<Rightarrow> i64 \<Rightarrow> database \<Rightarrow> (repo_error, spend_log_row list) result" where
  "list_spend_log_tenant repo tenant_id policy_id agent_id limit db =
     (let rows = sort_key (\<lambda>r. - sl_recorded_at r)
                   (filter (\<lambda>r. sl_policy_id r = policy_id \<and> sl_agent_id r = agent_id \<and>
                      sl_tenant_id r = tenant_id) (spend_log db))
      in with_conn repo (\<lambda>c.
           if limit < 0
           then (if is_postgres repo then Err (Backend ''LIMIT must not be negative'')
                 else map_err Backend (run_stmt c 0 False rows))
           else map_err Backend (run_stmt c 0 False (take (nat limit) rows))))"

definition list_spend_log ::
  "repo \<Rightarrow> string \<Rightarrow> string \<Rightarrow> i64 \<Rightarrow> database \<Rightarrow> (repo_error, spend_log_row list) result" where
  "list_spend_log repo policy_id agent_id limit db =
     list_spend_log_tenant repo DEFAULT_TENANT policy_id agent_id limit db"

section \<open>The background sweep\<close>

text \<open>One pass of \<open>spawn_background_gc\<close> of \<open>state.rs\<close>; a statement that fails is skipped.\<close>

definition sweep :: "any_env \<Rightarrow> nat \<Rightarrow> (database \<Rightarrow> database) \<Rightarrow> database \<Rightarrow> database" where
  "sweep conn k f db = (if stmt_fault conn k = None then f db else db)"

definition env_i64 :: "env \<Rightarrow> string \<Rightarrow> i64 option" where
  "env_i64 env v = Option.bind (env v) parse_i64"

definition retention_days :: "env \<Rightarrow> i64" where
  "retention_days env =
     clamp_between 1 3650 (case env_i64 env ''SAURON_GC_REQUESTS_LOG_RETENTION_DAYS'' of Some d \<Rightarrow> d | None \<Rightarrow> 90)"

definition risk_window_secs :: "env \<Rightarrow> i64" where
  "risk_window_secs env =
     clamp_between 10 3600 (case env_i64 env ''SAURON_RISK_WINDOW_SECS'' of Some d \<Rightarrow> d | None \<Rightarrow> 60)"

definition gc_pass :: "env \<Rightarrow> any_env \<Rightarrow> i64 \<Rightarrow> database \<Rightarrow> database" where
  "gc_pass env conn now db =
     (let retention_cutoff = i64_wrap (now - retention_days env * 86400);
          oldest_window = i64_saturating_sub (i64_div now (risk_window_secs env)) 120
      in case lock_fault conn of
           Some _ \<Rightarrow> db
         | None \<Rightarrow>
             sweep conn 4 (\<lambda>db. db\<lparr>requests_log := filter (\<lambda>r. \<not> rl_timestamp r < retention_cutoff) (requests_log db)\<rparr>)
            (sweep conn 3 (\<lambda>db. db\<lparr>risk_rate_counters :=
                (\<lambda>(b, w). if w < oldest_window then None else risk_rate_counters db (b, w))\<rparr>)
            (sweep conn 2 (\<lambda>db. db\<lparr>agent_call_nonces := purge (\<lambda>e. e) now (agent_call_nonces db)\<rparr>)
            (sweep conn 1 (\<lambda>db. db\<lparr>agent_pop_challenges := purge pop_exp now (agent_pop_challenges db)\<rparr>)
            (sweep conn 0 (\<lambda>db. db\<lparr>ajwt_used_jtis := purge (\<lambda>e. e) now (ajwt_used_jtis db)\<rparr>) db)))))"

section \<open>Transactions are atomic\<close>

lemma map_err_eq_iff: "map_err f r = Err e \<longleftrightarrow> (\<exists>d. r = Err d \<and> e = f d)"
  by (cases r) auto

lemma run_stmt_Ok_iff [simp]: "run_stmt c k b x = Ok y \<longleftrightarrow> stmt_fault c k = None \<and> \<not> b \<and> y = x"
  by (auto simp: run_stmt_def split: option.splits)

lemma run_pg_Ok_iff [simp]: "run_pg c k b x = Ok y \<longleftrightarrow> pg_stmt c k = None \<and> \<not> b \<and> y = x"
  by (auto simp: run_pg_def split: option.splits)

lemma with_conn_Ok_iff:
  "with_conn repo f = Ok y \<longleftrightarrow> lock_fault (handle repo) = None \<and> f (handle repo) = Ok y"
  by (auto simp: with_conn_def split: option.splits)

text \<open>
  A transaction either fails and leaves the database as it was, or one run of its body from this
  database succeeded and its result is committed.
\<close>

lemma txn_immediate_sqlite_cases:
  assumes "txn_immediate_sqlite repo f db = (r, db')"
  obtains e where "r = Err e" "db' = db"
    | conn v where "repo = Sqlite conn" "r = Ok v" "f conn db = Ok (v, db')"
  using assms
  by (auto simp: txn_immediate_sqlite_def split: repo.splits option.splits sum.splits prod.splits)

lemma pg_attempts_cases:
  assumes "pg_attempts pool f ks last_err db = (r, db')"
  shows "(\<exists>e. r = Err e \<and> db' = db) \<or>
    (\<exists>k v. k \<in> set ks \<and> r = Ok v \<and> f (pool k) db = Ok (v, db'))"
  using assms
proof (induction ks arbitrary: last_err)
  case (Cons k ks)
  then show ?case
    by (simp add: Let_def split: option.splits sum.splits prod.splits if_splits) blast+
qed auto

lemma txn_serializable_pg_cases:
  assumes "txn_serializable_pg repo f db = (r, db')"
  obtains e where "r = Err e" "db' = db"
    | tx v where "r = Ok v" "f tx db = Ok (v, db')"
  using assms pg_attempts_cases
  by (fastforce simp: txn_serializable_pg_def split: repo.splits)

lemma txn_cases:
  assumes "(case repo of Sqlite e \<Rightarrow> txn_immediate_sqlite repo f db
             | Postgres e p \<Rightarrow> txn_serializable_pg repo g db) = (r, db')"
  obtains e where "r = Err e" "db' = db"
    | conn v where "r = Ok v" "f conn db = Ok (v, db')"
    | tx v where "r = Ok v" "g tx db = Ok (v, db')"
  using assms
  by (cases repo) (auto elim: txn_immediate_sqlite_cases txn_serializable_pg_cases)

lemma consume_call_nonce_cases:
  assumes "consume_call_nonce repo a n x db = (r, db')"
  obtains e where "r = Err e" "db' = db"
    | "r = Ok ()" "agent_call_nonces db (a, n) = None" "n \<noteq> []" "length n \<le> 128"
      "db' = db\<lparr>agent_call_nonces := (agent_call_nonces db)((a, n) \<mapsto> x)\<rparr>"
proof (cases "n = [] \<or> 128 < length n")
  case True
  then show ?thesis
    using assms that(1) by (auto simp: consume_call_nonce_def split: if_splits)
next
  case False
  then show ?thesis
    using assms that unfolding consume_call_nonce_def Let_def
    by (simp) (erule txn_cases, auto)
qed

lemma consume_ajwt_jti_cases:
  assumes "consume_ajwt_jti repo j x db = (r, db')"
  obtains e where "r = Err e" "db' = db"
    | "r = Ok ()" "ajwt_used_jtis db j = None" "j \<noteq> []" "length j \<le> 256"
      "db' = db\<lparr>ajwt_used_jtis := (ajwt_used_jtis db)(j \<mapsto> x)\<rparr>"
proof (cases "j = [] \<or> 256 < length j")
  case True
  then show ?thesis
    using assms that(1) by (auto simp: consume_ajwt_jti_def split: if_splits)
next
  case False
  then show ?thesis
    using assms that unfolding consume_ajwt_jti_def Let_def
    by (simp) (erule txn_cases, auto)
qed

lemma consume_payment_authorization_cases:
  assumes "consume_payment_authorization repo t a now db = (r, db')"
  obtains e where "r = Err e" "db' = db"
    | "r = Ok ()" "claim_payment t a now db = Ok ((), db')"
proof (cases "a = []")
  case False
  then show ?thesis
    using assms that unfolding consume_payment_authorization_def
    by (simp) (erule txn_cases, auto simp: and_then_eq_Ok_iff)
qed (use assms that(1) in \<open>auto simp: consume_payment_authorization_def\<close>)

section \<open>Retries\<close>

text \<open>An attempt that starts, and the two ways in which it ends by a serialisation conflict.\<close>

definition starts :: "pg_attempt \<Rightarrow> bool" where
  "starts tx \<longleftrightarrow> pg_begin tx = None \<and> pg_isolation tx = None"

definition conflicts ::
  "(pg_attempt \<Rightarrow> database \<Rightarrow> (repo_error, 'a \<times> database) result) \<Rightarrow> database \<Rightarrow> pg_attempt \<Rightarrow> bool" where
  "conflicts f db tx \<longleftrightarrow> starts tx \<and>
     (case f tx db of
        Err e \<Rightarrow> retryable e
      | Ok _ \<Rightarrow> (case pg_commit tx of Some e \<Rightarrow> pg_code e = Some ''40001'' | None \<Rightarrow> False))"

lemma pg_attempts_conflict:
  assumes "conflicts f db (pool k)"
  shows "\<exists>e. pg_attempts pool f (k # ks) last_err db = pg_attempts pool f ks (Some e) db"
  using assms
  by (auto simp: conflicts_def starts_def Let_def split: sum.splits option.splits)

lemma pg_attempts_conflicts:
  assumes "\<forall>k \<in> set ks. conflicts f db (pool k)"
  shows "\<exists>l. pg_attempts pool f (ks @ ks') last_err db = pg_attempts pool f ks' l db"
  using assms
proof (induction ks arbitrary: last_err)
  case (Cons k ks)
  obtain e where "pg_attempts pool f (k # ks @ ks') last_err db = pg_attempts pool f (ks @ ks') (Some e) db"
    using pg_attempts_conflict [of f db pool k "ks @ ks'" last_err] Cons.prems by auto
  then show ?case
    using Cons.IH [of "Some e"] Cons.prems by simp
qed auto

lemma pg_attempts_commit:
  assumes "starts (pool k)" "pg_commit (pool k) = None" "f (pool k) db = Ok (v, db')"
  shows "pg_attempts pool f (k # ks) l db = (Ok v, db')"
  using assms by (simp add: starts_def)

section \<open>Payment authorisations are consumed once\<close>

datatype payment_op =
    ConsumePayment repo string string i64
  | InsertPayment repo payment_row

fun present_payment :: "payment_op \<Rightarrow> database \<Rightarrow> bool \<times> database" where
  "present_payment (ConsumePayment repo t a now) db =
     (case consume_payment_authorization repo t a now db of (r, db') \<Rightarrow> (is_ok r, db'))"
| "present_payment (InsertPayment repo row) db = (False, snd (insert_payment_authorization repo row db))"

fun payment_key :: "payment_op \<Rightarrow> string" where
  "payment_key (ConsumePayment _ _ a _) = a"
| "payment_key (InsertPayment _ row) = pa_auth_id row"

definition payment_spent :: "database \<Rightarrow> string \<Rightarrow> bool" where
  "payment_spent db a \<longleftrightarrow> (\<exists>r \<in> set (agent_payment_authorizations db). pa_auth_id r = a \<and> pa_consumed r \<noteq> 0)"

definition payments_unique :: "database \<Rightarrow> bool" where
  "payments_unique db \<longleftrightarrow> distinct (map pa_auth_id (agent_payment_authorizations db))"

lemma mark_consumed_simps [simp]:
  "pa_auth_id (mark_consumed t a now r) = pa_auth_id r"
  "claimable t a now r \<Longrightarrow> pa_consumed (mark_consumed t a now r) = 1"
  "pa_consumed r \<noteq> 0 \<Longrightarrow> mark_consumed t a now r = r"
  by (auto simp: mark_consumed_def claimable_def)

lemma claim_payment_Ok_iff:
  "claim_payment t a now db = Ok (u, db') \<longleftrightarrow>
   (\<exists>r \<in> set (agent_payment_authorizations db). claimable t a now r) \<and>
   db' = db\<lparr>agent_payment_authorizations := map (mark_consumed t a now) (agent_payment_authorizations db)\<rparr>"
  by (auto simp: claim_payment_def)

lemma claim_payment_spends:
  assumes "claim_payment t a now db = Ok (u, db')"
  shows "payment_spent db' a"
proof -
  obtain r where r: "r \<in> set (agent_payment_authorizations db)" "claimable t a now r"
    using assms by (auto simp: claim_payment_Ok_iff)
  then have "mark_consumed t a now r \<in> set (agent_payment_authorizations db')"
    using assms by (simp add: claim_payment_Ok_iff)
  then show ?thesis
    using r(2) unfolding payment_spent_def
    by (intro bexI [of _ "mark_consumed t a now r"]) (simp_all add: claimable_def [of t a now r])
qed

lemma claim_payment_keeps:
  assumes "claim_payment t a now db = Ok (u, db')" "payment_spent db b"
  shows "payment_spent db' b"
proof -
  obtain r where r: "r \<in> set (agent_payment_authorizations db)" "pa_auth_id r = b" "pa_consumed r \<noteq> 0"
    using assms(2) by (auto simp: payment_spent_def)
  then have "mark_consumed t a now r \<in> set (agent_payment_authorizations db')"
    using assms(1) by (simp add: claim_payment_Ok_iff del: mark_consumed_simps(3))
  then show ?thesis
    using r by (auto simp: payment_spent_def)
qed

lemma claim_payment_refused:
  assumes "payments_unique db" "payment_spent db a"
  shows "claim_payment t a now db \<noteq> Ok (u, db')"
proof
  assume "claim_payment t a now db = Ok (u, db')"
  then obtain r where r: "r \<in> set (agent_payment_authorizations db)" "claimable t a now r"
    by (auto simp: claim_payment_Ok_iff)
  obtain q where q: "q \<in> set (agent_payment_authorizations db)" "pa_auth_id q = a" "pa_consumed q \<noteq> 0"
    using assms(2) by (auto simp: payment_spent_def)
  have "inj_on pa_auth_id (set (agent_payment_authorizations db))"
    using assms(1) by (simp add: payments_unique_def distinct_map)
  then have "q = r"
    using r q by (simp add: inj_on_def claimable_def)
  then show False
    using r(2) q(3) by (simp add: claimable_def)
qed

lemma insert_payment_authorization_cases:
  assumes "insert_payment_authorization repo row db = (r, db')"
  obtains e where "r = Err e" "db' = db"
    | "r = Ok ()" "pa_auth_id row \<notin> pa_auth_id ` set (agent_payment_authorizations db)"
      "db' = db\<lparr>agent_payment_authorizations := agent_payment_authorizations db @ [row\<lparr>pa_consumed := 0\<rparr>]\<rparr>"
proof -
  let ?w = "with_conn repo (\<lambda>c. map_err payment_insert_error (run_stmt c 0
    (list_ex (\<lambda>r. pa_auth_id r = pa_auth_id row \<or> pa_jti r = pa_jti row) (agent_payment_authorizations db)) ()))"
  show ?thesis
  proof (cases ?w)
    case (Inl e)
    then have "insert_payment_authorization repo row db = (Err e, db)"
      by (simp add: insert_payment_authorization_def Let_def)
    then show ?thesis
      using assms that(1) by simp
  next
    case (Inr u)
    then have "pa_auth_id row \<notin> pa_auth_id ` set (agent_payment_authorizations db)"
      by (auto simp: with_conn_Ok_iff)
    then show ?thesis
      using assms Inr that(2) by (auto simp: insert_payment_authorization_def Let_def)
  qed
qed

lemma present_payment_unique:
  assumes "payments_unique db"
  shows "payments_unique (snd (present_payment op db))"
proof (cases op)
  case (ConsumePayment repo t a now)
  obtain r db' where c: "consume_payment_authorization repo t a now db = (r, db')"
    by fastforce
  then have "payments_unique db'"
    using assms by (rule_tac consume_payment_authorization_cases [OF c])
      (simp_all add: claim_payment_Ok_iff payments_unique_def o_def)
  then show ?thesis
    using ConsumePayment c by simp
next
  case (InsertPayment repo row)
  obtain r db' where c: "insert_payment_authorization repo row db = (r, db')"
    by fastforce
  then have "payments_unique db'"
    using assms by (rule_tac insert_payment_authorization_cases [OF c]) (auto simp: payments_unique_def)
  then show ?thesis
    using InsertPayment c by simp
qed

lemma insert_payment_keeps:
  assumes "payment_spent db b"
  shows "payment_spent (snd (insert_payment_authorization repo row db)) b"
proof -
  obtain r db' where c: "insert_payment_authorization repo row db = (r, db')"
    by fastforce
  show ?thesis
    using assms by (rule_tac insert_payment_authorization_cases [OF c]) (auto simp: c payment_spent_def)
qed

interpretation payments: single_use payment_spent present_payment payment_key "\<lambda>db op. payments_unique db"
proof (unfold_locales, goal_cases)
  case (1 db op db')
  then show ?case
    by (cases op) (auto simp: is_ok_iff split: prod.splits elim: consume_payment_authorization_cases
        intro: claim_payment_spends)
next
  case (2 db op)
  then show ?case
    by (cases op) (auto simp: is_ok_iff claim_payment_refused split: prod.splits
        elim: consume_payment_authorization_cases)
next
  case (3 db op b)
  show ?case
  proof (cases op)
    case (ConsumePayment repo t a now)
    obtain r db' where c: "consume_payment_authorization repo t a now db = (r, db')"
      by fastforce
    then show ?thesis
      using 3 ConsumePayment
      by (rule_tac consume_payment_authorization_cases [OF c]) (auto intro: claim_payment_keeps)
  qed (use 3 insert_payment_keeps in simp)
qed

lemma payments_timely:
  "payments_unique db \<Longrightarrow> timely_run (\<lambda>db op. payments_unique db) present_payment ops db"
  by (induction ops arbitrary: db) (simp_all add: present_payment_unique)

section \<open>The spend ledger adds up\<close>

fun spend_run ::
  "(repo \<times> string \<times> spend_call) list \<Rightarrow> database \<Rightarrow> (string \<times> spend_call) list \<times> database" where
  "spend_run [] db = ([], db)"
| "spend_run ((repo, hex, sc) # calls) db =
     (case record_spend_with_period_tenant repo hex sc db of
        (Ok log_id, db') \<Rightarrow> (case spend_run calls db' of (rs, db'') \<Rightarrow> ((log_id, sc) # rs, db''))
      | (Err _, db') \<Rightarrow> spend_run calls db')"

definition ledger_sum :: "f64 list \<Rightarrow> f64" where
  "ledger_sum amounts = (case amounts of [] \<Rightarrow> f64_zero | a # as \<Rightarrow> foldl f64_add a as)"

definition add_spend :: "f64 option \<Rightarrow> f64 \<Rightarrow> f64 option" where
  "add_spend t a = Some (case t of None \<Rightarrow> a | Some t \<Rightarrow> f64_add t a)"

definition spend_log_row_of :: "string \<times> spend_call \<Rightarrow> spend_log_row" where
  "spend_log_row_of x = (case x of (log_id, sc) \<Rightarrow>
     \<lparr>sl_log_id = log_id, sl_policy_id = sc_policy_id sc, sl_agent_id = sc_agent_id sc,
      sl_action_id = sc_action_id sc, sl_amount_usd = sc_amount_usd sc, sl_recorded_at = sc_now sc,
      sl_source = sc_source sc, sl_tenant_id = sc_tenant_id sc\<rparr>)"

lemma foldl_add_spend: "foldl add_spend (Some t) as = Some (foldl f64_add t as)"
  by (induction as arbitrary: t) (simp_all add: add_spend_def)

lemma spend_ledger_insert:
  "map_option fst (spend_ledger (spend_ledger_upsert sc (spend_log_insert log_id sc db)) k) =
   (if spend_key sc = k then add_spend (map_option fst (spend_ledger db k)) (sc_amount_usd sc)
    else map_option fst (spend_ledger db k))"
  by (auto simp: spend_ledger_upsert_def spend_log_insert_def add_spend_def split: option.splits)

lemma spend_log_insert_log:
  "spend_log (spend_ledger_upsert sc (spend_log_insert log_id sc db)) = spend_log db @ [spend_log_row_of (log_id, sc)]"
  by (simp add: spend_ledger_upsert_def spend_log_insert_def spend_log_row_of_def)

lemma spend_txn_cases:
  assumes "spend_txn repo log_id sc db = (r, db')"
  obtains e where "r = Err e" "db' = db"
    | "r = Ok ()" "db' = spend_ledger_upsert sc (spend_log_insert log_id sc db)"
  using assms that unfolding spend_txn_def Let_def
  by - (erule txn_cases, auto simp: and_then_eq_Ok_iff)

lemma record_spend_cases:
  assumes "record_spend_with_period_tenant repo hex sc db = (r, db')"
  obtains e where "r = Err e" "db' = db"
    | "r = Ok (''splog_'' @ hex)" "db' = spend_ledger_upsert sc (spend_log_insert (''splog_'' @ hex) sc db)"
proof -
  obtain q d where q: "spend_txn repo (''splog_'' @ hex) sc db = (q, d)"
    by fastforce
  from q have "(\<exists>e. q = Err e \<and> d = db) \<or>
      (q = Ok () \<and> d = spend_ledger_upsert sc (spend_log_insert (''splog_'' @ hex) sc db))"
    by (rule spend_txn_cases) simp_all
  then show ?thesis
    using assms that q unfolding record_spend_with_period_tenant_def Let_def
    by (elim disjE exE conjE) (auto split: if_splits)
qed

lemma spend_run_effect:
  assumes "spend_run calls db = (rs, db')"
  shows "map_option fst (spend_ledger db' k) =
      foldl add_spend (map_option fst (spend_ledger db k))
        (map (sc_amount_usd \<circ> snd) (filter (\<lambda>r. spend_key (snd r) = k) rs))"
    and "spend_log db' = spend_log db @ map spend_log_row_of rs"
proof -
  have "map_option fst (spend_ledger db' k) =
      foldl add_spend (map_option fst (spend_ledger db k))
        (map (sc_amount_usd \<circ> snd) (filter (\<lambda>r. spend_key (snd r) = k) rs)) \<and>
    spend_log db' = spend_log db @ map spend_log_row_of rs"
    using assms
  proof (induction calls arbitrary: db rs)
    case (Cons c calls)
    obtain repo hex sc where c: "c = (repo, hex, sc)"
      by (cases c)
    obtain r d where r: "record_spend_with_period_tenant repo hex sc db = (r, d)"
      by fastforce
    then show ?case
    proof (cases rule: record_spend_cases)
      case (1 e)
      then show ?thesis
        using Cons.prems Cons.IH [of db rs] r c by simp
    next
      case rec: 2
      obtain ts d' where ts: "spend_run calls d = (ts, d')"
        by fastforce
      have "d' = db'" and rs: "rs = (''splog_'' @ hex, sc) # ts"
        using Cons.prems r rec(1) ts c by simp_all
      then show ?thesis
        using Cons.IH [of d ts] ts rec(2) by (simp add: spend_ledger_insert spend_log_insert_log)
    qed
  qed simp
  then show "map_option fst (spend_ledger db' k) =
      foldl add_spend (map_option fst (spend_ledger db k))
        (map (sc_amount_usd \<circ> snd) (filter (\<lambda>r. spend_key (snd r) = k) rs))"
    and "spend_log db' = spend_log db @ map spend_log_row_of rs"
    by simp_all
qed

lemma ledger_total_is_sum:
  assumes "spend_run calls db = (rs, db')" "spend_ledger db k = None"
  shows "(case spend_ledger db' k of Some (t, _) \<Rightarrow> t | None \<Rightarrow> f64_zero) =
    ledger_sum (map (sc_amount_usd \<circ> snd) (filter (\<lambda>r. spend_key (snd r) = k) rs))"
  using spend_run_effect(1) [OF assms(1), of k] assms(2)
  by (cases "map (sc_amount_usd \<circ> snd) (filter (\<lambda>r. spend_key (snd r) = k) rs)")
     (auto simp: ledger_sum_def add_spend_def foldl_add_spend simp del: o_apply split: option.splits)

section \<open>Backends without faults\<close>

fun reliable :: "repo \<Rightarrow> bool" where
  "reliable (Sqlite c) \<longleftrightarrow> lock_fault c = None \<and> begin_fault c = None \<and> commit_fault c = None \<and>
     stmt_fault c = (\<lambda>k. None)"
| "reliable (Postgres c pool) \<longleftrightarrow> lock_fault c = None \<and> stmt_fault c = (\<lambda>k. None) \<and>
     starts (pool 0) \<and> pg_commit (pool 0) = None \<and> pg_stmt (pool 0) = (\<lambda>k. None)"

definition sqlite_healthy :: repo where
  "sqlite_healthy = Sqlite (any_env.extend healthy (sqlite_env.fields None None))"

definition pg_healthy :: pg_attempt where
  "pg_healthy = \<lparr>pg_begin = None, pg_isolation = None, pg_stmt = (\<lambda>k. None),
     pg_unique = PgError (Some ''23505'') ''duplicate key value violates unique constraint'', pg_commit = None\<rparr>"

definition pg_conflicting :: pg_attempt where
  "pg_conflicting = pg_healthy\<lparr>pg_commit :=
     Some (PgError (Some ''40001'') ''could not serialize access'')\<rparr>"

lemma reliable_sqlite_healthy [simp]: "reliable sqlite_healthy"
  by (simp add: sqlite_healthy_def healthy_def any_env.defs sqlite_env.defs)

lemma txn_sqlite_reliable:
  "reliable (Sqlite c) \<Longrightarrow> txn_immediate_sqlite (Sqlite c) f db =
     (case f c db of Ok (v, db') \<Rightarrow> (Ok v, db') | Err e \<Rightarrow> (Err e, db))"
  by (simp add: txn_immediate_sqlite_def split: sum.splits prod.splits)

lemma txn_pg_reliable_Ok:
  "reliable (Postgres c pool) \<Longrightarrow> f (pool 0) db = Ok (v, db') \<Longrightarrow>
   txn_serializable_pg (Postgres c pool) f db = (Ok v, db')"
  by (simp add: txn_serializable_pg_def upt_conv_Cons starts_def)

lemma txn_pg_reliable_Err:
  "reliable (Postgres c pool) \<Longrightarrow> f (pool 0) db = Err e \<Longrightarrow> \<not> retryable e \<Longrightarrow>
   txn_serializable_pg (Postgres c pool) f db = (Err e, db)"
  by (simp add: txn_serializable_pg_def upt_conv_Cons starts_def)

lemma take_pop_challenge_reliable:
  assumes "reliable repo"
  shows "take_pop_challenge repo i a now db =
    (case take_pop_challenge_body i a now (Ok ()) (Ok ()) db of
       Ok (v, db') \<Rightarrow> (Ok v, db') | Err e \<Rightarrow> (Err e, db))"
proof (cases repo)
  case (Sqlite c)
  then show ?thesis
    using assms by (simp add: take_pop_challenge_def txn_sqlite_reliable run_stmt_def)
next
  case (Postgres c pool)
  have "take_pop_challenge_body i a now (Ok ()) (Ok ()) db = Err e \<Longrightarrow> \<not> retryable e" for e
    by (auto simp: take_pop_challenge_body_def split: option.splits if_splits)
  then show ?thesis
    using assms Postgres
    by (auto simp: take_pop_challenge_def run_pg_def txn_pg_reliable_Ok txn_pg_reliable_Err split: sum.splits)
qed

lemma insert_pop_challenge_cases:
  assumes "insert_pop_challenge repo i a c now ttl db = (r, db')"
  obtains e where "r = Err e" "db' = db"
    | "r = Ok (i64_wrap (now + ttl))" "db' = db\<lparr>agent_pop_challenges :=
        (purge pop_exp now (agent_pop_challenges db))(i \<mapsto>
          \<lparr>pop_agent_id = a, pop_challenge = c, pop_exp = i64_wrap (now + ttl)\<rparr>)\<rparr>"
  using assms that unfolding insert_pop_challenge_def Let_def
  by - (erule txn_cases, auto simp: and_then_eq_Ok_iff)

lemma take_pop_challenge_cases:
  assumes "take_pop_challenge repo i a now db = (r, db')"
  obtains e where "r = Err e" "db' = db"
    | row where "agent_pop_challenges db i = Some row" "pop_agent_id row = a" "now \<le> pop_exp row"
      "r = Ok (pop_challenge row)" "db' = db\<lparr>agent_pop_challenges := (agent_pop_challenges db)(i := None)\<rparr>"
  using assms that unfolding take_pop_challenge_def take_pop_challenge_body_def
  by - (erule txn_cases, auto simp: and_then_eq_Ok_iff split: option.splits if_splits)

lemma any_transaction_cases:
  assumes "any_transaction conn first final f db = (r, db')"
  obtains (failed) e where "r = Err e" "db' = db"
    | (committed) v where "r = Ok v" "f db = Ok (v, db')"
  using assms by (auto simp: any_transaction_def split: sum.splits)

section \<open>Properties\<close>



text \<open>
  C16. A payment authorisation is consumed at most once: in any sequence of inserts and consumes of
  authorisations, for any tenants, times and faults of either backend, no authorisation id is
  consumed successfully twice, if the table starts with distinct ids (its primary key).\<close>
theorem payment_authorization_consumed_once:
  assumes "payments_unique db"
  shows "distinct (map payment_key (accepted present_payment ops db))"
  using payments.accepted_once payments_timely assms by blast

definition demo_payment :: payment_row where
  "demo_payment = \<lparr>pa_auth_id = ''auth-1'', pa_agent_id = ''agt-1'', pa_jti = ''j1'', pa_amount_minor = 1200,
     pa_currency = ''EUR'', pa_merchant_id = [], pa_payment_ref = ''r1'', pa_created_at = 10, pa_expires_at = 50,
     pa_consumed = 0, pa_tenant_id = ''acme''\<rparr>"

definition demo_payment_db :: database where
  "demo_payment_db = empty_database\<lparr>agent_payment_authorizations := [demo_payment]\<rparr>"

theorem payment_authorization_consumed_once_witness:
  "let ops = [ConsumePayment sqlite_healthy ''acme'' ''auth-1'' 20, ConsumePayment sqlite_healthy ''acme'' ''auth-1'' 20] in
   accepted present_payment ops demo_payment_db = [hd ops] \<and>
   distinct (map payment_key (accepted present_payment ops demo_payment_db))"
proof -
  have unique: "payments_unique demo_payment_db"
    by (simp add: payments_unique_def demo_payment_db_def empty_database_def)
  have "consume_payment_authorization sqlite_healthy ''acme'' ''auth-1'' 20 demo_payment_db =
      (Ok (), demo_payment_db\<lparr>agent_payment_authorizations := [demo_payment\<lparr>pa_consumed := 1\<rparr>]\<rparr>)"
    "consume_payment_authorization sqlite_healthy ''acme'' ''auth-1'' 20
       (demo_payment_db\<lparr>agent_payment_authorizations := [demo_payment\<lparr>pa_consumed := 1\<rparr>]\<rparr>) =
      (Err (Replay ''Authorization already consumed or expired''),
       demo_payment_db\<lparr>agent_payment_authorizations := [demo_payment\<lparr>pa_consumed := 1\<rparr>]\<rparr>)"
    by (simp_all add: consume_payment_authorization_def txn_immediate_sqlite_def sqlite_healthy_def healthy_def
        any_env.defs sqlite_env.defs run_stmt_def claim_payment_def claimable_def mark_consumed_def
        demo_payment_db_def demo_payment_def empty_database_def)
  then show ?thesis
    using payment_authorization_consumed_once [OF unique] by (simp add: Let_def split: prod.splits)
qed

text \<open>
  C17. The spend ledger is the sum of what was recorded: after any sequence of spend reports, some of
  them refused or failing, the total read for a tenant, policy, agent and period that had no row is the sum, in order, of the
  amounts of the reports accepted for exactly that key, and the log has gained one row per accepted
  report and nothing else.\<close>
theorem spend_total_is_sum_of_accepted_reports:
  assumes "spend_run calls db = (rs, db')"
    and "spend_ledger db (t, p, a, period) = None"
    and "reliable repo"
  shows "get_spend_total_tenant repo t p a period db' =
      Ok (ledger_sum (map (sc_amount_usd \<circ> snd) (filter (\<lambda>r. spend_key (snd r) = (t, p, a, period)) rs))) \<and>
    spend_log db' = spend_log db @ map spend_log_row_of rs"
proof -
  have "lock_fault (handle repo) = None" "stmt_fault (handle repo) 0 = None"
    using assms(3) by (cases repo; simp add: any_env.defs)+
  then show ?thesis
    using ledger_total_is_sum [OF assms(1,2)] spend_run_effect(2) [OF assms(1)]
    by (simp add: get_spend_total_tenant_def with_conn_Ok_iff)
qed

definition demo_spend :: "string \<Rightarrow> int \<Rightarrow> spend_call" where
  "demo_spend t amount = \<lparr>sc_tenant_id = t, sc_policy_id = ''p'', sc_agent_id = ''a'', sc_action_id = None,
     sc_amount_usd = f64_of_int amount, sc_source = ''sdk_flush'', sc_period_start = 0, sc_now = 7\<rparr>"

lemma demo_spend_run:
  "spend_run [(sqlite_healthy, ''1'', demo_spend ''acme'' 5), (sqlite_healthy, ''2'', demo_spend ''beta'' 9),
      (sqlite_healthy, ''1'', demo_spend ''acme'' 3), (sqlite_healthy, ''3'', demo_spend ''acme'' 4)] empty_database =
   ([(''splog_1'', demo_spend ''acme'' 5), (''splog_2'', demo_spend ''beta'' 9), (''splog_3'', demo_spend ''acme'' 4)], db') \<longleftrightarrow>
   db' = spend_ledger_upsert (demo_spend ''acme'' 4) (spend_log_insert ''splog_3'' (demo_spend ''acme'' 4)
    (spend_ledger_upsert (demo_spend ''beta'' 9) (spend_log_insert ''splog_2'' (demo_spend ''beta'' 9)
    (spend_ledger_upsert (demo_spend ''acme'' 5) (spend_log_insert ''splog_1'' (demo_spend ''acme'' 5) empty_database)))))"
  by (auto simp: record_spend_with_period_tenant_def Let_def spend_txn_def txn_immediate_sqlite_def sqlite_healthy_def
      healthy_def any_env.defs sqlite_env.defs run_stmt_def demo_spend_def f64_int_simps spend_ledger_upsert_def
      spend_log_insert_def empty_database_def)

theorem spend_total_is_sum_of_accepted_reports_witness:
  "\<exists>rs db'. spend_run [(sqlite_healthy, ''1'', demo_spend ''acme'' 5), (sqlite_healthy, ''2'', demo_spend ''beta'' 9),
      (sqlite_healthy, ''1'', demo_spend ''acme'' 3), (sqlite_healthy, ''3'', demo_spend ''acme'' 4)] empty_database = (rs, db') \<and>
    get_spend_total_tenant sqlite_healthy ''acme'' ''p'' ''a'' 0 db' = Ok (f64_of_int 9)"
proof -
  note run = demo_spend_run [THEN iffD2, OF refl]
  have "spend_ledger empty_database (''acme'', ''p'', ''a'', 0) = None"
    by (simp add: empty_database_def)
  from spend_total_is_sum_of_accepted_reports [OF run this reliable_sqlite_healthy] run
  show ?thesis
    by (auto simp: demo_spend_def spend_key_def ledger_sum_def f64_int_simps)
qed

text \<open>
  A proof-of-possession challenge that was stored is handed back to the agent it was stored for, until it
  expires, and once: the take returns the stored challenge and removes it, so that every later take of
  it fails whatever the agent, the time and the backend; another agent is refused and removes nothing.\<close>
theorem pop_challenge_round_trip:
  assumes "insert_pop_challenge repo i a c now ttl db = (Ok x, db1)" and "reliable repo'" and "now' \<le> x"
  shows "(\<exists>db2. take_pop_challenge repo' i a now' db1 = (Ok c, db2) \<and>
      (\<forall>r b t. \<not> is_ok (fst (take_pop_challenge r i b t db2)))) \<and>
    (b \<noteq> a \<longrightarrow>
      take_pop_challenge repo' i b now' db1 = (Err (Replay ''pop challenge does not match agent''), db1))"
proof -
  have row: "agent_pop_challenges db1 i = Some \<lparr>pop_agent_id = a, pop_challenge = c, pop_exp = x\<rparr>"
    using assms(1) by (rule insert_pop_challenge_cases) auto
  define db2 where "db2 = db1\<lparr>agent_pop_challenges := (agent_pop_challenges db1)(i := None)\<rparr>"
  have "\<not> is_ok (fst (take_pop_challenge r i b t db2))" for r b t
  proof -
    obtain q d where q: "take_pop_challenge r i b t db2 = (q, d)"
      by fastforce
    have "agent_pop_challenges db2 i = None"
      by (simp add: db2_def)
    with q have "\<not> is_ok q"
      by (elim take_pop_challenge_cases) simp_all
    then show ?thesis
      by (simp add: q)
  qed
  moreover have "take_pop_challenge repo' i a now' db1 = (Ok c, db2)"
    using assms(2,3) row by (simp add: take_pop_challenge_reliable take_pop_challenge_body_def db2_def)
  moreover have "b \<noteq> a \<longrightarrow>
      take_pop_challenge repo' i b now' db1 = (Err (Replay ''pop challenge does not match agent''), db1)"
    using assms(2) row by (simp add: take_pop_challenge_reliable take_pop_challenge_body_def)
  ultimately show ?thesis
    by blast
qed

theorem pop_challenge_round_trip_witness:
  "\<exists>db1 db2. insert_pop_challenge sqlite_healthy ''pch_1'' ''agt-1'' ''c0ffee'' 100 60 empty_database = (Ok 160, db1) \<and>
     take_pop_challenge sqlite_healthy ''pch_1'' ''agt-1'' 120 db1 = (Ok ''c0ffee'', db2)"
proof -
  have "\<exists>db1. insert_pop_challenge sqlite_healthy ''pch_1'' ''agt-1'' ''c0ffee'' 100 60 empty_database = (Ok 160, db1)"
    by (simp add: insert_pop_challenge_def Let_def txn_immediate_sqlite_def sqlite_healthy_def healthy_def any_env.defs
        sqlite_env.defs run_stmt_def empty_database_def purge_def i64_wrap_def)
  then obtain db1 where ins: "insert_pop_challenge sqlite_healthy ''pch_1'' ''agt-1'' ''c0ffee'' 100 60 empty_database = (Ok 160, db1)" ..
  from pop_challenge_round_trip [OF ins reliable_sqlite_healthy, of 120 "''agt-2''"] show ?thesis
    using ins by auto
qed

end
