(* ===== verification/Ring.thy ===== *)
theory Ring
  imports Values Complex_Main
begin

text \<open>
  The linkable ring signatures of \<open>ring.rs\<close> with the key pairs of \<open>identity.rs\<close>, the
  per-ring pseudonyms of \<open>ring_pseudonym.rs\<close> and the oblivious pseudo-random function
  of \<open>oprf.rs\<close>.  The Ristretto group and its scalars come from \<open>curve25519_dalek\<close>: a
  record \<open>group\<close> holds the operations the sources call, and \<open>group_laws\<close> the laws of a
  vector space over a field that the sources rely on.  Random scalars are arguments.
\<close>

record ('s, 'p) group =
  s_zero :: 's
  s_one :: 's
  s_add :: "'s \<Rightarrow> 's \<Rightarrow> 's"
  s_sub :: "'s \<Rightarrow> 's \<Rightarrow> 's"
  s_mul :: "'s \<Rightarrow> 's \<Rightarrow> 's"
  s_invert :: "'s \<Rightarrow> 's"
  p_add :: "'p \<Rightarrow> 'p \<Rightarrow> 'p"
  smul :: "'s \<Rightarrow> 'p \<Rightarrow> 'p"
  BASEPOINT :: 'p
  compress :: "'p \<Rightarrow> string"
  sha512 :: "string \<Rightarrow> string"
  hash_from_bytes :: "string \<Rightarrow> 'p"
  scalar_from_hash :: "string \<Rightarrow> 's"

definition group_laws :: "('s, 'p, 'z) group_scheme \<Rightarrow> bool" where
  "group_laws G \<longleftrightarrow>
     (\<forall>a b P. smul G (s_add G a b) P = p_add G (smul G a P) (smul G b P)) \<and>
     (\<forall>a b P. smul G (s_mul G a b) P = smul G a (smul G b P)) \<and>
     (\<forall>P. smul G (s_one G) P = P) \<and>
     (\<forall>a b. s_mul G a b = s_mul G b a) \<and>
     (\<forall>a b. s_add G (s_sub G a b) b = a) \<and>
     (\<forall>a. a \<noteq> s_zero G \<longrightarrow> s_mul G (s_invert G a) a = s_one G)"

section \<open>Identities\<close>

record ('s, 'p) identity =
  secret :: 's
  public :: 'p

definition from_scalar :: "('s, 'p, 'z) group_scheme \<Rightarrow> 's \<Rightarrow> ('s, 'p) identity" where
  "from_scalar G x = \<lparr> secret = x, public = smul G x (BASEPOINT G) \<rparr>"

definition from_oprf :: "('s, 'p, 'z) group_scheme \<Rightarrow> 'p \<Rightarrow> ('s, 'p) identity" where
  "from_oprf G oprf_point =
     (let x = scalar_from_hash G (compress G oprf_point) in
      \<lparr> secret = x, public = smul G x (BASEPOINT G) \<rparr>)"

definition from_seed :: "('s, 'p, 'z) group_scheme \<Rightarrow> string \<Rightarrow> ('s, 'p) identity" where
  "from_seed G seed =
     (let x = scalar_from_hash G (''SAURON_ISSUER_SEED:'' @ seed) in
      \<lparr> secret = x, public = smul G x (BASEPOINT G) \<rparr>)"

definition identity_key_image :: "('s, 'p, 'z) group_scheme \<Rightarrow> ('s, 'p) identity \<Rightarrow> 'p" where
  "identity_key_image G identity =
     smul G (secret identity) (hash_from_bytes G (compress G (public identity)))"

section \<open>Ring signatures\<close>

record ('s, 'p) ring_signature =
  c0 :: 's
  responses :: "'s list"
  key_image :: 'p

definition hash_to_point :: "('s, 'p, 'z) group_scheme \<Rightarrow> 'p \<Rightarrow> 'p" where
  "hash_to_point G p = hash_from_bytes G (compress G p)"

definition challenge :: "('s, 'p, 'z) group_scheme \<Rightarrow> string \<Rightarrow> 'p \<Rightarrow> 'p \<Rightarrow> 's" where
  "challenge G msg l r =
     scalar_from_hash G (''SAURON_RING_CHALLENGE:'' @ msg @ compress G l @ compress G r)"

text \<open>
  The challenge that follows a member: the same expression in the loop of \<open>sign\<close> and in
  the loop of \<open>verify\<close>.
\<close>

definition next_challenge ::
  "('s, 'p, 'z) group_scheme \<Rightarrow> string \<Rightarrow> 'p \<Rightarrow> 's \<Rightarrow> 's \<Rightarrow> 'p \<Rightarrow> 's" where
  "next_challenge G msg ki response c member =
     challenge G msg
       (p_add G (smul G response (BASEPOINT G)) (smul G c member))
       (p_add G (smul G response (hash_to_point G member)) (smul G c ki))"

definition sign_step ::
  "('s, 'p, 'z) group_scheme \<Rightarrow> string \<Rightarrow> 'p list \<Rightarrow> 'p \<Rightarrow> 's list \<Rightarrow> nat \<Rightarrow> nat \<Rightarrow>
   's list \<Rightarrow> 's list" where
  "sign_step G msg ring ki resps signer_idx offset challenges =
     (let n = length ring;
          i = (signer_idx + offset) mod n;
          next = (i + 1) mod n;
          c = next_challenge G msg ki (resps ! i) (challenges ! i) (ring ! i) in
      if next \<noteq> signer_idx then challenges[next := c] else challenges[signer_idx := c])"

text \<open>
  \<^term>\<open>None\<close> is the panic of an index out of range.  \<open>random i\<close> is the random response
  drawn for member \<open>i\<close>, \<open>alpha\<close> the signer's random scalar.
\<close>

definition sign ::
  "('s, 'p, 'z) group_scheme \<Rightarrow> (nat \<Rightarrow> 's) \<Rightarrow> 's \<Rightarrow> string \<Rightarrow> 'p list \<Rightarrow> ('s, 'p) identity \<Rightarrow> nat \<Rightarrow>
   ('s, 'p) ring_signature option" where
  "sign G random alpha msg ring identity signer_idx =
     (let n = length ring;
          resps = map random [0..<n];
          ki = identity_key_image G identity in
      if signer_idx < n then
        let l_init = smul G alpha (BASEPOINT G);
            r_init = smul G alpha (hash_to_point G (ring ! signer_idx));
            challenges =
              (replicate n (s_zero G))[(signer_idx + 1) mod n := challenge G msg l_init r_init];
            challenges = fold (sign_step G msg ring ki resps signer_idx) [1..<n] challenges;
            resps = resps[signer_idx :=
              s_sub G alpha (s_mul G (challenges ! signer_idx) (secret identity))] in
        Some \<lparr> c0 = challenges ! 0, responses = resps, key_image = ki \<rparr>
      else None)"

fun verify_loop ::
  "('s, 'p, 'z) group_scheme \<Rightarrow> string \<Rightarrow> ('s, 'p) ring_signature \<Rightarrow> 's \<Rightarrow> nat \<Rightarrow> 'p list \<Rightarrow> 's" where
  "verify_loop G msg sig c i [] = c"
| "verify_loop G msg sig c i (member # members) =
     verify_loop G msg sig
       (next_challenge G msg (key_image sig) (responses sig ! i) c member) (i + 1) members"

definition verify ::
  "('s, 'p, 'z) group_scheme \<Rightarrow> string \<Rightarrow> 'p list \<Rightarrow> ('s, 'p) ring_signature \<Rightarrow> bool" where
  "verify G msg ring sig =
     (if ring = [] \<or> responses sig = [] then False
      else if length (responses sig) \<noteq> length ring then False
      else verify_loop G msg sig (c0 sig) 0 ring = c0 sig)"

subsection \<open>Groups of members\<close>

record 'p adult_group =
  members :: "'p list"

definition add_member :: "'p \<Rightarrow> 'p adult_group \<Rightarrow> 'p adult_group" where
  "add_member p g = (if p \<in> set (members g) then g else g\<lparr> members := members g @ [p] \<rparr>)"

fun position :: "('a \<Rightarrow> bool) \<Rightarrow> 'a list \<Rightarrow> nat option" where
  "position P [] = None"
| "position P (x # xs) = (if P x then Some 0 else map_option Suc (position P xs))"

definition prove ::
  "('s, 'p, 'z) group_scheme \<Rightarrow> (nat \<Rightarrow> 's) \<Rightarrow> 's \<Rightarrow> 'p adult_group \<Rightarrow> ('s, 'p) identity \<Rightarrow> string \<Rightarrow>
   ('s, 'p) ring_signature option" where
  "prove G random alpha g identity msg =
     Option.bind (position (\<lambda>p. p = public identity) (members g))
       (\<lambda>idx. sign G random alpha msg (members g) identity idx)"

definition verify_proof ::
  "('s, 'p, 'z) group_scheme \<Rightarrow> 'p adult_group \<Rightarrow> string \<Rightarrow> ('s, 'p) ring_signature \<Rightarrow> bool" where
  "verify_proof G g msg sig = verify G msg (members g) sig"

section \<open>Per-ring pseudonyms\<close>

definition shared_secret_agent :: "('s, 'p, 'z) group_scheme \<Rightarrow> 's \<Rightarrow> 'p \<Rightarrow> 'p" where
  "shared_secret_agent G agent_master_secret operator_pub_t = smul G agent_master_secret operator_pub_t"

definition shared_secret_operator :: "('s, 'p, 'z) group_scheme \<Rightarrow> 's \<Rightarrow> 'p \<Rightarrow> 'p" where
  "shared_secret_operator G operator_trapdoor_t agent_master_pub_a =
     smul G operator_trapdoor_t agent_master_pub_a"

definition ring_offset :: "('s, 'p, 'z) group_scheme \<Rightarrow> 'p \<Rightarrow> string \<Rightarrow> 's" where
  "ring_offset G shared ring_id =
     scalar_from_hash G (''SAURON_RING_PSEUDONYM:'' @ compress G shared @ ''|'' @ ring_id)"

definition agent_per_ring_secret :: "('s, 'p, 'z) group_scheme \<Rightarrow> 's \<Rightarrow> 'p \<Rightarrow> string \<Rightarrow> 's" where
  "agent_per_ring_secret G agent_master_secret shared ring_id =
     s_add G agent_master_secret (ring_offset G shared ring_id)"

definition per_ring_public :: "('s, 'p, 'z) group_scheme \<Rightarrow> 'p \<Rightarrow> 'p \<Rightarrow> string \<Rightarrow> 'p" where
  "per_ring_public G agent_master_pub_a shared ring_id =
     p_add G agent_master_pub_a (smul G (ring_offset G shared ring_id) (BASEPOINT G))"

definition per_ring_key_image :: "('s, 'p, 'z) group_scheme \<Rightarrow> 's \<Rightarrow> 'p \<Rightarrow> 'p" where
  "per_ring_key_image G per_ring_secret per_ring_pub =
     smul G per_ring_secret (hash_to_point G per_ring_pub)"

definition agent_ring_identity ::
  "('s, 'p, 'z) group_scheme \<Rightarrow> 's \<Rightarrow> 'p \<Rightarrow> string \<Rightarrow> ('s, 'p) identity" where
  "agent_ring_identity G agent_master_secret shared ring_id =
     from_scalar G (agent_per_ring_secret G agent_master_secret shared ring_id)"

section \<open>The oblivious pseudo-random function\<close>

definition oprf_input :: "('s, 'p, 'z) group_scheme \<Rightarrow> string \<Rightarrow> string \<Rightarrow> 'p" where
  "oprf_input G login password =
     hash_from_bytes G (sha512 G (login @ ''|SALT|'' @ password))"

definition client_blind :: "('s, 'p, 'z) group_scheme \<Rightarrow> 's \<Rightarrow> string \<Rightarrow> string \<Rightarrow> 'p \<times> 's" where
  "client_blind G r password login = (smul G r (oprf_input G login password), r)"

definition server_evaluate :: "('s, 'p, 'z) group_scheme \<Rightarrow> 'p \<Rightarrow> 's \<Rightarrow> 'p" where
  "server_evaluate G blinded k = smul G k blinded"

definition evaluate_unblinded :: "('s, 'p, 'z) group_scheme \<Rightarrow> 's \<Rightarrow> string \<Rightarrow> string \<Rightarrow> 'p" where
  "evaluate_unblinded G k login password = smul G k (oprf_input G login password)"

definition client_unblind :: "('s, 'p, 'z) group_scheme \<Rightarrow> 'p \<Rightarrow> 's \<Rightarrow> 'p" where
  "client_unblind G evaluated r = smul G (s_invert G r) evaluated"

section \<open>An honest signature verifies\<close>

lemma mod_offset_eqD:
  assumes "(s + a) mod n = (s + b) mod n" "1 \<le> a" "a \<le> n" "1 \<le> b" "b \<le> (n::nat)"
  shows "a = b"
proof -
  have *: "x = y" if "(s + x) mod n = (s + y) mod n" "1 \<le> x" "x \<le> y" "y \<le> n" for x y
  proof -
    have "n dvd (s + y) - (s + x)"
      using that by (metis add_le_cancel_left mod_eq_dvd_iff_nat)
    then have "n dvd y - x"
      by simp
    moreover have "y - x < n"
      using that by simp
    ultimately show ?thesis
      using that(3) dvd_imp_le by fastforce
  qed
  show ?thesis
    using *[of a b] *[of b a] assms by (cases "a \<le> b") auto
qed

lemma length_sign_step [simp]:
  "length (sign_step G msg ring ki resps s k ch) = length ch"
  by (simp add: sign_step_def Let_def)

lemma sign_step_eq:
  "sign_step G msg ring ki resps s k ch =
     ch[(s + (k + 1)) mod length ring :=
       next_challenge G msg ki (resps ! ((s + k) mod length ring))
         (ch ! ((s + k) mod length ring)) (ring ! ((s + k) mod length ring))]"
  by (simp add: sign_step_def Let_def mod_Suc_eq)

lemma sign_step_nth:
  assumes "s < length ring" "length ch = length ring" "1 \<le> k" "k < length ring"
    "1 \<le> j" "j \<le> length ring"
  shows "sign_step G msg ring ki resps s k ch ! ((s + j) mod length ring) =
    (if j = k + 1
     then next_challenge G msg ki (resps ! ((s + k) mod length ring))
       (ch ! ((s + k) mod length ring)) (ring ! ((s + k) mod length ring))
     else ch ! ((s + j) mod length ring))"
proof -
  have pos: "(s + j) mod length ring < length ch"
    unfolding assms(2) using assms(1) by (intro mod_less_divisor) linarith
  show ?thesis
  proof (cases "j = k + 1")
    case True
    then show ?thesis
      using pos by (simp only: sign_step_eq nth_list_update_eq refl if_True)
  next
    case False
    then have "(s + (k + 1)) mod length ring \<noteq> (s + j) mod length ring"
      using assms mod_offset_eqD [of s j "length ring" "k + 1"] by auto
    then show ?thesis
      using False by (simp only: sign_step_eq if_False) (rule nth_list_update_neq)
  qed
qed

text \<open>After \<open>k\<close> rounds the challenges of \<open>k + 1\<close> consecutive members are linked.\<close>

definition linked_upto ::
  "('s, 'p, 'z) group_scheme \<Rightarrow> string \<Rightarrow> 'p list \<Rightarrow> 'p \<Rightarrow> 's list \<Rightarrow> nat \<Rightarrow> 's \<Rightarrow> nat \<Rightarrow> 's list \<Rightarrow> bool" where
  "linked_upto G msg ring ki resps s c k ch \<longleftrightarrow>
     length ch = length ring \<and> ch ! ((s + 1) mod length ring) = c \<and>
     (\<forall>j. 1 \<le> j \<and> j \<le> k \<longrightarrow> ch ! ((s + (j + 1)) mod length ring) =
        next_challenge G msg ki (resps ! ((s + j) mod length ring))
          (ch ! ((s + j) mod length ring)) (ring ! ((s + j) mod length ring)))"

lemma linked_upto_step:
  assumes linked: "linked_upto G msg ring ki resps s c k ch"
    and s: "s < length ring" and k: "Suc k < length ring"
  shows "linked_upto G msg ring ki resps s c (Suc k) (sign_step G msg ring ki resps s (Suc k) ch)"
proof -
  let ?ch = "sign_step G msg ring ki resps s (Suc k) ch"
  let ?i = "\<lambda>j. (s + j) mod length ring"
  have one: "1 \<le> Suc k"
    by simp
  have len: "length ch = length ring"
    using linked by (simp add: linked_upto_def)
  have nth: "?ch ! ?i j = (if j = Suc k + 1
       then next_challenge G msg ki (resps ! ?i (Suc k)) (ch ! ?i (Suc k)) (ring ! ?i (Suc k))
       else ch ! ?i j)" if "1 \<le> j" "j \<le> length ring" for j
    using sign_step_nth [OF s len one k that] .
  have "?ch ! ?i (j + 1) = next_challenge G msg ki (resps ! ?i j) (?ch ! ?i j) (ring ! ?i j)"
    if j: "1 \<le> j" "j \<le> Suc k" for j
  proof (cases "j = Suc k")
    case True
    then show ?thesis
      using nth [of j] nth [of "j + 1"] j k by simp
  next
    case False
    then have "ch ! ?i (j + 1) = next_challenge G msg ki (resps ! ?i j) (ch ! ?i j) (ring ! ?i j)"
      using linked j by (simp add: linked_upto_def)
    then show ?thesis
      using nth [of j] nth [of "j + 1"] j k False by simp
  qed
  moreover have "?ch ! ?i 1 = c"
    using nth [of 1] linked k by (simp add: linked_upto_def)
  ultimately show ?thesis
    using len by (simp add: linked_upto_def)
qed

lemma sign_loop_linked:
  assumes "s < length ring" "length ch = length ring" "k < length ring"
  shows "linked_upto G msg ring ki resps s (ch ! ((s + 1) mod length ring)) k
    (fold (sign_step G msg ring ki resps s) [1..<Suc k] ch)"
  using assms(3)
proof (induction k)
  case 0
  then show ?case
    using assms(2) by (simp add: linked_upto_def)
next
  case (Suc k)
  have "[1..<Suc (Suc k)] = [1..<Suc k] @ [Suc k]"
    by simp
  then have "fold (sign_step G msg ring ki resps s) [1..<Suc (Suc k)] ch =
      sign_step G msg ring ki resps s (Suc k) (fold (sign_step G msg ring ki resps s) [1..<Suc k] ch)"
    by (simp only: fold_append comp_apply fold_simps id_apply)
  then show ?case
    using linked_upto_step [OF Suc.IH assms(1) Suc.prems] Suc.prems by (simp only:)
qed

lemma verify_loop_linked:
  assumes "\<forall>i < length ring. ch ! ((i + 1) mod length ring) =
      next_challenge G msg (key_image sig) (responses sig ! i) (ch ! i) (ring ! i)"
    and "i \<le> length ring" "ring \<noteq> []"
  shows "verify_loop G msg sig (ch ! (i mod length ring)) i (drop i ring) = ch ! 0"
  using assms(2)
proof (induction "length ring - i" arbitrary: i)
  case 0
  then show ?case by simp
next
  case (Suc d)
  then have i: "i < length ring" and drop: "drop i ring = ring ! i # drop (i + 1) ring"
    by (simp_all add: Cons_nth_drop_Suc)
  have "verify_loop G msg sig (ch ! ((i + 1) mod length ring)) (i + 1) (drop (i + 1) ring) = ch ! 0"
    using Suc i by (intro Suc.hyps) auto
  then show ?case
    using assms(1) i by (simp add: drop)
qed

lemma responses_cancel:
  assumes "group_laws G"
  shows "p_add G (smul G (s_sub G alpha (s_mul G c x)) P) (smul G c (smul G x P)) = smul G alpha P"
  using assms unfolding group_laws_def by metis

lemma next_challenge_signer:
  assumes "group_laws G" "public identity = smul G (secret identity) (BASEPOINT G)"
  shows "next_challenge G msg (identity_key_image G identity)
      (s_sub G alpha (s_mul G c (secret identity))) c (public identity) =
    challenge G msg (smul G alpha (BASEPOINT G)) (smul G alpha (hash_to_point G (public identity)))"
  using responses_cancel [OF assms(1)]
  by (simp add: next_challenge_def identity_key_image_def hash_to_point_def [symmetric])
     (simp add: assms(2))

lemma index_from_signer:
  assumes "i < n" "s < n" "i \<noteq> s"
  shows "\<exists>j. 1 \<le> j \<and> j < n \<and> (s + j) mod n = (i :: nat)"
proof (cases "s < i")
  case True
  then show ?thesis
    using assms by (intro exI [of _ "i - s"]) auto
next
  case False
  then show ?thesis
    using assms by (intro exI [of _ "n + i - s"]) auto
qed

lemma sign_verifies:
  assumes laws: "group_laws G"
    and identity: "public identity = smul G (secret identity) (BASEPOINT G)"
    and s: "s < length ring" "ring ! s = public identity"
    and sig: "sign G random alpha msg ring identity s = Some sig"
  shows "verify G msg ring sig"
proof -
  define n where "n = length ring"
  define ki where "ki = identity_key_image G identity"
  define resps where "resps = map random [0..<n]"
  define c where "c = challenge G msg (smul G alpha (BASEPOINT G))
    (smul G alpha (hash_to_point G (public identity)))"
  define ch0 where "ch0 = (replicate n (s_zero G))[(s + 1) mod n := c]"
  define ch where "ch = fold (sign_step G msg ring ki resps s) [1..<n] ch0"
  have n: "0 < n" "s < n" "length ring = n" "Suc (n - 1) = n"
    using s(1) unfolding n_def by linarith+
  have sig_eq: "sig = \<lparr> c0 = ch ! 0,
      responses = resps[s := s_sub G alpha (s_mul G (ch ! s) (secret identity))], key_image = ki \<rparr>"
    using sig s by (simp add: sign_def Let_def n_def ki_def resps_def c_def ch0_def ch_def)
  have "ch0 ! ((s + 1) mod n) = c"
    using n(1) by (simp add: ch0_def)
  then have "linked_upto G msg ring ki resps s c (n - 1) ch"
    using sign_loop_linked [of s ring ch0 "n - 1" G msg ki resps] n
    by (simp add: ch_def ch0_def)
  then have first: "ch ! ((s + 1) mod n) = c"
      and linked: "\<And>j. 1 \<le> j \<Longrightarrow> j < n \<Longrightarrow> ch ! ((s + (j + 1)) mod n) =
        next_challenge G msg ki (resps ! ((s + j) mod n)) (ch ! ((s + j) mod n)) (ring ! ((s + j) mod n))"
    using n by (auto simp: linked_upto_def)
  have "ch ! ((i + 1) mod n) = next_challenge G msg ki (responses sig ! i) (ch ! i) (ring ! i)"
    if "i < n" for i
  proof (cases "i = s")
    case True
    then show ?thesis
      using first next_challenge_signer [OF laws identity] n s(2)
      by (simp add: sig_eq c_def ki_def resps_def)
  next
    case False
    then obtain j where j: "1 \<le> j" "j < n" "(s + j) mod n = i"
      using index_from_signer \<open>i < n\<close> n(2) by blast
    then have "(s + (j + 1)) mod n = (i + 1) mod n"
      by (metis add.assoc mod_add_left_eq)
    then show ?thesis
      using linked [OF j(1,2)] j(3) False by (simp add: sig_eq)
  qed
  then have "verify_loop G msg sig (ch ! (0 mod length ring)) 0 (drop 0 ring) = ch ! 0"
    using n by (intro verify_loop_linked) (auto simp: sig_eq)
  moreover have "responses sig \<noteq> []" "length (responses sig) = length ring" "ring \<noteq> []"
    using n by (auto simp: sig_eq resps_def)
  ultimately show ?thesis
    by (simp add: verify_def sig_eq)
qed

lemma position_Some:
  "position P xs = Some i \<Longrightarrow> i < length xs \<and> P (xs ! i)"
  by (induction xs arbitrary: i) (auto split: if_splits)

lemma position_total: "x \<in> set xs \<Longrightarrow> P x \<Longrightarrow> \<exists>i. position P xs = Some i"
  by (induction xs) auto

lemma sign_total: "s < length ring \<Longrightarrow> \<exists>sig. sign G random alpha msg ring identity s = Some sig"
  by (simp add: sign_def Let_def)

lemma set_add_member [simp]: "set (members (add_member p g)) = insert p (set (members g))"
  by (auto simp: add_member_def)

lemma identity_public [simp]:
  "public (from_scalar G x) = smul G (secret (from_scalar G x)) (BASEPOINT G)"
  "public (from_oprf G p) = smul G (secret (from_oprf G p)) (BASEPOINT G)"
  "public (from_seed G sd) = smul G (secret (from_seed G sd)) (BASEPOINT G)"
  by (simp_all add: from_scalar_def from_oprf_def from_seed_def Let_def)

lemma prove_verifies:
  assumes "group_laws G" "public identity = smul G (secret identity) (BASEPOINT G)"
    and "prove G random alpha g identity msg = Some sig"
  shows "verify_proof G g msg sig"
proof -
  obtain s where s: "position (\<lambda>p. p = public identity) (members g) = Some s"
      and sig: "sign G random alpha msg (members g) identity s = Some sig"
    using assms(3) by (auto simp: prove_def bind_eq_Some_conv)
  show ?thesis
    unfolding verify_proof_def
    using sign_verifies [OF assms(1,2) _ _ sig] position_Some [OF s] by simp
qed

lemma prove_total:
  "public identity \<in> set (members g) \<Longrightarrow> \<exists>sig. prove G random alpha g identity msg = Some sig"
  using position_total [of "public identity" "members g" "\<lambda>p. p = public identity"]
  by (auto simp: prove_def) (metis position_Some sign_total)

section \<open>Pseudonyms agree\<close>

lemma shared_secrets_agree:
  assumes "group_laws G"
  shows "shared_secret_agent G a (smul G t (BASEPOINT G)) =
    shared_secret_operator G t (smul G a (BASEPOINT G))"
  using assms unfolding group_laws_def shared_secret_agent_def shared_secret_operator_def by metis

lemma agent_ring_identity_public:
  assumes "group_laws G"
  shows "public (agent_ring_identity G a shared ring_id) =
    per_ring_public G (smul G a (BASEPOINT G)) shared ring_id"
  using assms
  by (simp add: agent_ring_identity_def from_scalar_def agent_per_ring_secret_def per_ring_public_def
      group_laws_def)

section \<open>Properties\<close>

text \<open>A small group that satisfies the laws: the rationals over themselves.\<close>

definition demo_group :: "(rat, rat) group" where
  "demo_group = \<lparr> s_zero = 0, s_one = 1, s_add = (+), s_sub = (-), s_mul = (*), s_invert = inverse,
     p_add = (+), smul = (*), BASEPOINT = 1, compress = (\<lambda>p. int_to_string \<lfloor>p\<rfloor>),
     sha512 = (\<lambda>s. s), hash_from_bytes = (\<lambda>s. of_nat (length s) + 2),
     scalar_from_hash = (\<lambda>s. of_nat (length s)) \<rparr>"

lemma demo_group_laws: "group_laws demo_group"
  by (simp add: group_laws_def demo_group_def algebra_simps)

text \<open>
  C9. Every member of a group can prove its membership: for an identity whose public
  point is in the group, \<open>prove\<close> returns a signature (it never indexes out of range) that
  \<open>verify_proof\<close> accepts for the same message, whatever the random scalars and whatever
  the position of the signer; the signature carries the identity's key image, so two
  signatures of one identity are linkable.\<close>

theorem honest_ring_proof_verifies:
  assumes "group_laws G" "public identity = smul G (secret identity) (BASEPOINT G)"
    and "public identity \<in> set (members g)"
  shows "\<exists>sig. prove G random alpha g identity msg = Some sig \<and> verify_proof G g msg sig \<and>
    key_image sig = identity_key_image G identity"
proof -
  obtain sig where sig: "prove G random alpha g identity msg = Some sig"
    using prove_total [OF assms(3)] by blast
  moreover have "key_image sig = identity_key_image G identity"
    using sig by (auto simp: prove_def bind_eq_Some_conv sign_def Let_def split: if_splits)
  ultimately show ?thesis
    using prove_verifies [OF assms(1,2)] by blast
qed

theorem honest_ring_proof_verifies_witness:
  "\<exists>sig. prove demo_group (\<lambda>i. of_nat i + 3) 9 \<lparr> members = [4, 5, 6] \<rparr> (from_scalar demo_group 5)
      ''pay 10'' = Some sig \<and>
    verify_proof demo_group \<lparr> members = [4, 5, 6] \<rparr> ''pay 10'' sig \<and>
    key_image sig = identity_key_image demo_group (from_scalar demo_group 5)"
  by (rule honest_ring_proof_verifies [OF demo_group_laws identity_public(1)])
     (simp add: from_scalar_def demo_group_def)

text \<open>
  The blinded login protocol computes what the server computes directly from the
  password: unblinding the server's answer to the blinded request gives the point of
  \<open>evaluate_unblinded\<close>, for every non-zero blinding scalar.\<close>

theorem oprf_blinding_is_transparent:
  assumes "group_laws G" "r \<noteq> s_zero G"
  shows "client_unblind G (server_evaluate G (fst (client_blind G r password login)) k)
      (snd (client_blind G r password login)) =
    evaluate_unblinded G k login password"
proof -
  let ?P = "oprf_input G login password"
  have "smul G (s_invert G r) (smul G k (smul G r ?P)) =
      smul G (s_mul G (s_mul G (s_invert G r) r) k) ?P"
    using assms(1) unfolding group_laws_def by metis
  also have "\<dots> = smul G k ?P"
    using assms unfolding group_laws_def by metis
  finally show ?thesis
    by (simp add: client_unblind_def server_evaluate_def client_blind_def evaluate_unblinded_def)
qed

theorem oprf_blinding_is_transparent_witness:
  "client_unblind demo_group
      (server_evaluate demo_group (fst (client_blind demo_group 7 ''pw'' ''ann'')) 42)
      (snd (client_blind demo_group 7 ''pw'' ''ann'')) =
    evaluate_unblinded demo_group 42 ''ann'' ''pw'' \<and> (7::rat) \<noteq> s_zero demo_group"
  using oprf_blinding_is_transparent [OF demo_group_laws, of 7 "''pw''" "''ann''" 42]
  by (simp add: demo_group_def)

end
