(* ===== verification/Anon_Rings.thy ===== *)
theory Anon_Rings
  imports Repository Ring "HOL-Library.List_Lexorder" "HOL-Library.Char_ord"
begin

text \<open>
  Anonymous rings (\<open>rings.rs\<close>): a ring is a rule together with the per-ring pseudonyms of its
  members.  The record \<open>curve\<close> extends the group of \<open>Ring\<close> by the encodings (\<open>curve25519_dalek\<close>,
  \<open>hex\<close>) and the JSON form of a rule (\<open>serde_json\<close>).  Every operation takes the connection it runs
  on and the number of its first statement on it.
\<close>

section \<open>Rules\<close>

definition anon_rings_enabled :: "env \<Rightarrow> bool" where
  "anon_rings_enabled env \<longleftrightarrow>
     env ''SAURON_ANON_RINGS'' \<in> {Some ''1'', Some ''true'', Some ''yes'', Some ''on''}"

record ring_budgets =
  bu_usd :: "f64 option"
  bu_input_tokens :: "i64 option"
  bu_output_tokens :: "i64 option"

record ring_rule =
  allowed_actions :: "string list"
  allowed_config_digests :: "string list"
  budgets :: ring_budgets

datatype rule_decision = RuleAllow | RuleDeny msg

definition evaluate_rule :: "ring_rule \<Rightarrow> string \<Rightarrow> string \<Rightarrow> rule_decision" where
  "evaluate_rule rule action config_digest =
     (let action_l = to_ascii_lowercase (trim action) in
      if action_l = [] then RuleDeny (Msg ''empty action'')
      else if \<not> list_ex (\<lambda>a. to_ascii_lowercase (trim a) = action_l) (allowed_actions rule)
      then RuleDeny (Fmt ''action '{action}' not permitted by ring rule'' [AStr action])
      else if allowed_config_digests rule \<noteq> [] \<and>
        \<not> list_ex (\<lambda>d. eq_ignore_ascii_case (trim d) (trim config_digest)) (allowed_config_digests rule)
      then RuleDeny (Msg ''config_digest not in ring allowed-digest set (drift)'')
      else RuleAllow)"

section \<open>Points\<close>

record ('s, 'p) curve = "('s, 'p) group" +
  decompress :: "string \<Rightarrow> 'p option"
  from_canonical_bytes :: "string \<Rightarrow> 's option"
  unhex :: "string \<Rightarrow> (string, string) result"
  tohex :: "string \<Rightarrow> string"
  rule_to_json :: "ring_rule \<Rightarrow> (string, string) result"
  rule_from_json :: "string \<Rightarrow> (string, ring_rule) result"

definition operator_trapdoor :: "('s, 'p, 'z) curve_scheme \<Rightarrow> env \<Rightarrow> (string, 's) result" where
  "operator_trapdoor G env =
     (case env ''SAURON_RING_TRAPDOOR_SECRET'' of
        Some hex_s \<Rightarrow>
          and_then (map_err (\<lambda>e. ''SAURON_RING_TRAPDOOR_SECRET not hex: '' @ e) (unhex G (trim hex_s))) (\<lambda>bytes.
          if length bytes \<noteq> 32 then Err ''SAURON_RING_TRAPDOOR_SECRET must be 32 bytes''
          else ok_or (from_canonical_bytes G bytes) ''SAURON_RING_TRAPDOOR_SECRET is not a canonical scalar'')
      | None \<Rightarrow>
          if is_development_runtime env then Ok (scalar_from_hash G ''SAURON_DEV_RING_TRAPDOOR_v1'')
          else Err ''SAURON_RING_TRAPDOOR_SECRET is required in production when SAURON_ANON_RINGS is enabled'')"

definition parse_point_hex :: "('s, 'p, 'z) curve_scheme \<Rightarrow> string \<Rightarrow> (string, 'p) result" where
  "parse_point_hex G s =
     and_then (map_err (\<lambda>e. ''point hex: '' @ e) (unhex G (trim s))) (\<lambda>bytes.
     if length bytes \<noteq> 32 then Err ''point must be 32 bytes''
     else ok_or (decompress G bytes) ''not a valid ristretto point'')"

definition derive_member_point_hex :: "('s, 'p, 'z) curve_scheme \<Rightarrow> 's \<Rightarrow> 'p \<Rightarrow> string \<Rightarrow> string" where
  "derive_member_point_hex G trapdoor agent_master_pub ring_id =
     (let shared = shared_secret_operator G trapdoor agent_master_pub;
          p_r = per_ring_public G agent_master_pub shared ring_id
      in tohex G (compress G p_r))"

section \<open>Storage\<close>

definition rings_upsert :: "string \<times> string \<Rightarrow> string \<Rightarrow> i64 \<Rightarrow> database \<Rightarrow> database" where
  "rings_upsert key rule_json now db =
     db\<lparr>rings :=
        if key \<in> fst ` set (rings db)
        then map (\<lambda>(k, r). (k, if k = key
               then r\<lparr>ri_rule_json := rule_json, ri_version := ri_version r + 1, ri_updated_at := now\<rparr> else r)) (rings db)
        else rings db @ [(key, \<lparr>ri_rule_json = rule_json, ri_version = 1, ri_created_at = now, ri_updated_at = now\<rparr>)]\<rparr>"

definition upsert_ring ::
  "('s, 'p, 'z) curve_scheme \<Rightarrow> any_env \<Rightarrow> nat \<Rightarrow> string \<Rightarrow> string \<Rightarrow> ring_rule \<Rightarrow> i64 \<Rightarrow> database \<Rightarrow>
   (string, unit) result \<times> database" where
  "upsert_ring G conn k tenant_id ring_id rule now db =
     (case rule_to_json G rule of
        Err e \<Rightarrow> (Err (''rule serialize: '' @ e), db)
      | Ok rule_json \<Rightarrow>
          (case run_stmt conn k False (rings_upsert (tenant_id, ring_id) rule_json now db) of
             Err e \<Rightarrow> (Err (''upsert ring: '' @ e), db)
           | Ok db' \<Rightarrow> (Ok (), db')))"

definition get_ring ::
  "('s, 'p, 'z) curve_scheme \<Rightarrow> any_env \<Rightarrow> nat \<Rightarrow> string \<Rightarrow> string \<Rightarrow> database \<Rightarrow>
   (string, (ring_rule \<times> i64) option) result" where
  "get_ring G conn k tenant_id ring_id db =
     (case scalar_or conn k (map_of (rings db) (tenant_id, ring_id)) None of
        None \<Rightarrow> Ok None
      | Some row \<Rightarrow>
          and_then (map_err (\<lambda>e. ''rule deserialize: '' @ e) (rule_from_json G (ri_rule_json row))) (\<lambda>rule.
          Ok (Some (rule, ri_version row))))"

fun decode_rings ::
  "('s, 'p, 'z) curve_scheme \<Rightarrow> ((string \<times> string) \<times> ring_row) list \<Rightarrow>
   (string, (string \<times> ring_rule \<times> i64) list) result" where
  "decode_rings G [] = Ok []"
| "decode_rings G ((key, row) # rows) =
     and_then (map_err (\<lambda>e. ''rule deserialize: '' @ e) (rule_from_json G (ri_rule_json row))) (\<lambda>rule.
     and_then (decode_rings G rows) (\<lambda>out. Ok ((snd key, rule, ri_version row) # out)))"

definition list_rings ::
  "('s, 'p, 'z) curve_scheme \<Rightarrow> any_env \<Rightarrow> nat \<Rightarrow> string \<Rightarrow> database \<Rightarrow>
   (string, (string \<times> ring_rule \<times> i64) list) result" where
  "list_rings G conn k tenant_id db =
     and_then (map_err (\<lambda>e. ''query list_rings: '' @ e) (run_stmt conn k False
       (sort_key (snd \<circ> fst) (filter (\<lambda>r. fst (fst r) = tenant_id) (rings db))))) (decode_rings G)"

definition insert_member ::
  "any_env \<Rightarrow> nat \<Rightarrow> string \<Rightarrow> string \<Rightarrow> string \<Rightarrow> database \<Rightarrow> (string, bool) result \<times> database" where
  "insert_member conn k tenant_id ring_id member_point_hex db =
     (let row = ((tenant_id, ring_id), member_point_hex); new = (row \<notin> set (ring_members db)) in
      case run_stmt conn k False () of
        Err e \<Rightarrow> (Err (''insert member: '' @ e), db)
      | Ok _ \<Rightarrow> (Ok new, if new then db\<lparr>ring_members := ring_members db @ [row]\<rparr> else db))"

definition delete_member ::
  "any_env \<Rightarrow> nat \<Rightarrow> string \<Rightarrow> string \<Rightarrow> string \<Rightarrow> database \<Rightarrow> (string, bool) result \<times> database" where
  "delete_member conn k tenant_id ring_id member_point_hex db =
     (let row = ((tenant_id, ring_id), member_point_hex) in
      case run_stmt conn k False () of
        Err e \<Rightarrow> (Err (''delete member: '' @ e), db)
      | Ok _ \<Rightarrow> (Ok (row \<in> set (ring_members db)),
                 db\<lparr>ring_members := filter (\<lambda>r. r \<noteq> row) (ring_members db)\<rparr>))"

definition member_count :: "any_env \<Rightarrow> nat \<Rightarrow> string \<Rightarrow> string \<Rightarrow> database \<Rightarrow> i64" where
  "member_count conn k tenant_id ring_id db =
     scalar_or conn k (int (length (filter (\<lambda>r. fst r = (tenant_id, ring_id)) (ring_members db)))) 0"

fun parse_points :: "('s, 'p, 'z) curve_scheme \<Rightarrow> string list \<Rightarrow> (string, 'p list) result" where
  "parse_points G [] = Ok []"
| "parse_points G (h # hs) =
     and_then (parse_point_hex G h) (\<lambda>p. and_then (parse_points G hs) (\<lambda>ps. Ok (p # ps)))"

definition member_hexes :: "string \<Rightarrow> string \<Rightarrow> database \<Rightarrow> string list" where
  "member_hexes tenant_id ring_id db =
     sort (map snd (filter (\<lambda>r. fst r = (tenant_id, ring_id)) (ring_members db)))"

definition list_member_points ::
  "('s, 'p, 'z) curve_scheme \<Rightarrow> any_env \<Rightarrow> nat \<Rightarrow> string \<Rightarrow> string \<Rightarrow> database \<Rightarrow> (string, 'p list) result" where
  "list_member_points G conn k tenant_id ring_id db =
     and_then (map_err (\<lambda>e. ''query members: '' @ e) (run_stmt conn k False (member_hexes tenant_id ring_id db)))
       (parse_points G)"

definition subscribe ::
  "('s, 'p, 'z) curve_scheme \<Rightarrow> any_env \<Rightarrow> nat \<Rightarrow> string \<Rightarrow> 's \<Rightarrow> string \<Rightarrow> string \<Rightarrow> database \<Rightarrow>
   (string, string) result \<times> database" where
  "subscribe G conn k tenant_id trapdoor agent_master_pub_hex ring_id db =
     (case parse_point_hex G agent_master_pub_hex of
        Err e \<Rightarrow> (Err e, db)
      | Ok a \<Rightarrow>
          (let point_hex = derive_member_point_hex G trapdoor a ring_id in
           case insert_member conn k tenant_id ring_id point_hex db of
             (Err e, db') \<Rightarrow> (Err e, db')
           | (Ok _, db') \<Rightarrow> (Ok point_hex, db')))"

definition revoke ::
  "('s, 'p, 'z) curve_scheme \<Rightarrow> any_env \<Rightarrow> nat \<Rightarrow> string \<Rightarrow> 's \<Rightarrow> string \<Rightarrow> string \<Rightarrow> database \<Rightarrow>
   (string, bool) result \<times> database" where
  "revoke G conn k tenant_id trapdoor agent_master_pub_hex ring_id db =
     (case parse_point_hex G agent_master_pub_hex of
        Err e \<Rightarrow> (Err e, db)
      | Ok a \<Rightarrow> delete_member conn k tenant_id ring_id (derive_member_point_hex G trapdoor a ring_id) db)"

section \<open>Handlers\<close>

text \<open>The connection of a handler: a failure to get one is a panic.\<close>

definition with_db :: "any_env \<Rightarrow> (app_error, 'a) result \<times> database \<Rightarrow> database \<Rightarrow> (app_error, 'a) result \<times> database" where
  "with_db conn r db = (if lock_fault conn = None then r else (Err Panicked, db))"

definition state_log :: "any_env \<Rightarrow> nat \<Rightarrow> i64 \<Rightarrow> string \<Rightarrow> string \<Rightarrow> string \<Rightarrow> database \<Rightarrow> database" where
  "state_log conn k now action_type st detail db =
     (if lock_fault conn = None \<and> stmt_fault conn k = None
      then db\<lparr>requests_log := requests_log db @
        [\<lparr>rl_timestamp = now, rl_action_type = action_type, rl_status = st, rl_detail = detail\<rparr>]\<rparr>
      else db)"

record membership_request =
  mr_agent_id :: "string option"
  mr_agent_public_hex :: "string option"

definition require_enabled :: "env \<Rightarrow> (app_error, unit) result" where
  "require_enabled env =
     require (anon_rings_enabled env) 503 (Msg ''anonymous rings are disabled (set SAURON_ANON_RINGS=1)'')"

definition resolve_master_pub ::
  "any_env \<Rightarrow> nat \<Rightarrow> string \<Rightarrow> membership_request \<Rightarrow> database \<Rightarrow> (app_error, string) result" where
  "resolve_master_pub conn k tenant_id req db =
     (case filter_option (\<lambda>s. trim s \<noteq> []) (mr_agent_public_hex req) of
        Some h \<Rightarrow> Ok (trim h)
      | None \<Rightarrow>
          and_then (ok_or (filter_option (\<lambda>s. trim s \<noteq> []) (mr_agent_id req))
            (BadRequest (Msg ''agent_id or agent_public_hex is required''))) (\<lambda>agent_id.
          require_row conn k (map_option ag_public_key_hex
            (find (\<lambda>a. ag_agent_id a = agent_id \<and> ag_tenant_id a = tenant_id) (agents db)))
            (NotFound (Msg ''agent not found''))))"

definition create_ring_handler ::
  "('s, 'p, 'z) curve_scheme \<Rightarrow> env \<Rightarrow> any_env \<Rightarrow> i64 \<Rightarrow> string \<Rightarrow> string \<Rightarrow> ring_rule \<Rightarrow> database \<Rightarrow>
   (app_error, unit) result \<times> database" where
  "create_ring_handler G env conn now tenant ring_id rule db =
     (case require_enabled env of
        Err e \<Rightarrow> (Err e, db)
      | Ok _ \<Rightarrow>
          with_db conn (case upsert_ring G conn 0 tenant ring_id rule now db of
            (r, db') \<Rightarrow> (map_err (\<lambda>e. app_error_from 500 (Msg e)) r, db')) db)"

definition list_rings_handler ::
  "('s, 'p, 'z) curve_scheme \<Rightarrow> env \<Rightarrow> any_env \<Rightarrow> string \<Rightarrow> database \<Rightarrow>
   (app_error, (string \<times> ring_rule \<times> i64 \<times> i64) list) result" where
  "list_rings_handler G env conn tenant db =
     and_then (require_enabled env) (\<lambda>_.
     if lock_fault conn \<noteq> None then Err Panicked
     else
       and_then (map_err (\<lambda>e. app_error_from 500 (Msg e)) (list_rings G conn 0 tenant db)) (\<lambda>rs.
       Ok (map (\<lambda>(i, (ring_id, rule, v)). (ring_id, rule, v, member_count conn (1 + i) tenant ring_id db))
         (enumerate 0 rs))))"

definition subscribe_handler ::
  "('s, 'p, 'z) curve_scheme \<Rightarrow> env \<Rightarrow> any_env \<Rightarrow> i64 \<Rightarrow> string \<Rightarrow> string \<Rightarrow> membership_request \<Rightarrow> database \<Rightarrow>
   (app_error, string) result \<times> database" where
  "subscribe_handler G env conn now tenant ring_id req db =
     (case and_then (require_enabled env) (\<lambda>_.
           map_err (\<lambda>e. app_error_from 500 (Msg e)) (operator_trapdoor G env)) of
        Err e \<Rightarrow> (Err e, db)
      | Ok trapdoor \<Rightarrow>
          with_db conn
            (case and_then (map_err (\<lambda>e. app_error_from 500 (Msg e)) (get_ring G conn 0 tenant ring_id db)) (\<lambda>ring.
                  and_then (require (ring \<noteq> None) 404 (Msg ''ring not found'')) (\<lambda>_.
                  resolve_master_pub conn 1 tenant req db)) of
               Err e \<Rightarrow> (Err e, db)
             | Ok master \<Rightarrow>
                 (case subscribe G conn 2 tenant trapdoor master ring_id db of
                    (Err e, db') \<Rightarrow> (fail 400 (Msg e), db')
                  | (Ok point, db') \<Rightarrow> (Ok point, state_log conn 3 now ''RING_SUBSCRIBE'' ''OK'' ring_id db'))) db)"

definition revoke_handler ::
  "('s, 'p, 'z) curve_scheme \<Rightarrow> env \<Rightarrow> any_env \<Rightarrow> i64 \<Rightarrow> string \<Rightarrow> string \<Rightarrow> membership_request \<Rightarrow> database \<Rightarrow>
   (app_error, bool) result \<times> database" where
  "revoke_handler G env conn now tenant ring_id req db =
     (case and_then (require_enabled env) (\<lambda>_.
           map_err (\<lambda>e. app_error_from 500 (Msg e)) (operator_trapdoor G env)) of
        Err e \<Rightarrow> (Err e, db)
      | Ok trapdoor \<Rightarrow>
          with_db conn
            (case resolve_master_pub conn 0 tenant req db of
               Err e \<Rightarrow> (Err e, db)
             | Ok master \<Rightarrow>
                 (case revoke G conn 1 tenant trapdoor master ring_id db of
                    (Err e, db') \<Rightarrow> (fail 400 (Msg e), db')
                  | (Ok removed, db') \<Rightarrow>
                      (Ok removed,
                       state_log conn 2 now ''RING_REVOKE'' (if removed then ''OK'' else ''NOOP'') ring_id db'))) db)"

definition members_handler ::
  "('s, 'p, 'z) curve_scheme \<Rightarrow> env \<Rightarrow> any_env \<Rightarrow> string \<Rightarrow> string \<Rightarrow> database \<Rightarrow> (app_error, string list) result" where
  "members_handler G env conn tenant ring_id db =
     and_then (require_enabled env) (\<lambda>_.
     if lock_fault conn \<noteq> None then Err Panicked
     else
       and_then (map_err (\<lambda>e. app_error_from 500 (Msg e)) (list_member_points G conn 0 tenant ring_id db)) (\<lambda>points.
       Ok (map (\<lambda>p. tohex G (compress G p)) points)))"

definition agent_members_handler ::
  "('s, 'p, 'z) curve_scheme \<Rightarrow> env \<Rightarrow> any_env \<Rightarrow> string \<Rightarrow> string \<Rightarrow> database \<Rightarrow>
   (app_error, ring_rule \<times> string \<times> string list) result" where
  "agent_members_handler G env conn tenant ring_id db =
     and_then (require_enabled env) (\<lambda>_.
     if lock_fault conn \<noteq> None then Err Panicked
     else
       and_then (map_err (\<lambda>e. app_error_from 500 (Msg e)) (get_ring G conn 0 tenant ring_id db)) (\<lambda>ring.
       and_then (ok_or ring (app_error_from 404 (Msg ''ring not found''))) (\<lambda>(rule, v).
       and_then (map_err (\<lambda>e. app_error_from 500 (Msg e)) (list_member_points G conn 1 tenant ring_id db)) (\<lambda>points.
       Ok (rule, ''ring:'' @ ring_id @ '':v'' @ int_to_string v, map (\<lambda>p. tohex G (compress G p)) points)))))"

end
