(* ===== verification/Usage.thy ===== *)
theory Usage
  imports Anon_Rings "HOL-Library.AList"
begin

text \<open>
  Token usage per ring pseudonym (\<open>usage.rs\<close>): prices, the ledger and its log, ring
  budgets, and signed usage reports.

  The token columns of the ledger are integers of SQL.  Where a sum leaves the range of a 64-bit
  integer, Postgres refuses the statement, while SQLite stores a floating-point number, which the
  reader of an integer then refuses; the ledger of the model holds the exact sum, and
  reading it succeeds when it is in range.  \<open>pg\<close> tells the two backends apart.  The price map
  is read from the environment by a third-party function (\<open>serde_json\<close>).
\<close>

record model_price =
  in_per_1k :: f64
  out_per_1k :: f64

record usage_totals =
  ut_input_tokens :: i64
  ut_output_tokens :: i64
  ut_usd :: f64

definition no_usage :: usage_totals where
  "no_usage = \<lparr>ut_input_tokens = 0, ut_output_tokens = 0, ut_usd = f64_zero\<rparr>"

type_synonym price_map = "string \<rightharpoonup> model_price"

definition load_price_map :: "(string \<Rightarrow> price_map option) \<Rightarrow> env \<Rightarrow> price_map" where
  "load_price_map prices_from_json env =
     (case Option.bind (env ''SAURON_MODEL_PRICES'') prices_from_json of Some m \<Rightarrow> m | None \<Rightarrow> Map.empty)"

definition usd_from_prices :: "price_map \<Rightarrow> string \<Rightarrow> i64 \<Rightarrow> i64 \<Rightarrow> f64" where
  "usd_from_prices prices model_id in_tokens out_tokens =
     (case prices model_id of
        Some p \<Rightarrow>
          f64_add (f64_mul (f64_div_int (f64_of_int in_tokens) 1000) (in_per_1k p))
                  (f64_mul (f64_div_int (f64_of_int out_tokens) 1000) (out_per_1k p))
      | None \<Rightarrow> f64_zero)"

definition derive_usd :: "(string \<Rightarrow> price_map option) \<Rightarrow> env \<Rightarrow> string \<Rightarrow> i64 \<Rightarrow> i64 \<Rightarrow> f64" where
  "derive_usd prices_from_json env model_id in_tokens out_tokens =
     usd_from_prices (load_price_map prices_from_json env) model_id in_tokens out_tokens"

definition totals_of :: "(i64 \<times> i64 \<times> f64) option \<Rightarrow> usage_totals option" where
  "totals_of row =
     (case row of
        Some (i, n, u) \<Rightarrow>
          if is_i64 i \<and> is_i64 n
          then Some \<lparr>ut_input_tokens = i, ut_output_tokens = n, ut_usd = u\<rparr> else None
      | None \<Rightarrow> None)"

definition get_usage ::
  "any_env \<Rightarrow> nat \<Rightarrow> string \<Rightarrow> string \<Rightarrow> string \<Rightarrow> database \<Rightarrow> (string, usage_totals) result" where
  "get_usage conn k tenant_id ring_id key_image_hex db =
     Ok (case scalar_or conn k (totals_of (map_of (usage_ledger db) (tenant_id, ring_id, key_image_hex))) None of
           Some t \<Rightarrow> t
         | None \<Rightarrow> no_usage)"

definition budget_exceeded :: "usage_totals \<Rightarrow> ring_budgets \<Rightarrow> msg option" where
  "budget_exceeded t b =
     (if bu_usd b \<noteq> None \<and> f64_gt (ut_usd t) (the (bu_usd b))
      then Some (Fmt ''usd {:.4} > cap {:.4}'' [AF64 (ut_usd t), AF64 (the (bu_usd b))])
      else if bu_input_tokens b \<noteq> None \<and> ut_input_tokens t > the (bu_input_tokens b)
      then Some (Fmt ''input_tokens {} > cap {}'' [AInt (ut_input_tokens t), AInt (the (bu_input_tokens b))])
      else if bu_output_tokens b \<noteq> None \<and> ut_output_tokens t > the (bu_output_tokens b)
      then Some (Fmt ''output_tokens {} > cap {}'' [AInt (ut_output_tokens t), AInt (the (bu_output_tokens b))])
      else None)"

section \<open>Recording\<close>

record usage_event =
  ue_receipt_id :: string
  ue_model_id :: string
  ue_input_tokens :: i64
  ue_output_tokens :: i64
  ue_now :: i64

text \<open>The ring and the pseudonym of a receipt; a receipt of the identity path has no ring.\<close>

definition receipt_ring ::
  "any_env \<Rightarrow> nat \<Rightarrow> string \<Rightarrow> database \<Rightarrow> (app_error, string \<times> string \<times> string) result" where
  "receipt_ring conn k receipt_id db =
     and_then (require_row conn k (find (\<lambda>r. row_receipt_id r = receipt_id) (agent_action_receipts db))
       (app_error_from 404 (Msg ''receipt not found''))) (\<lambda>r.
     and_then (ok_or (filter_option (\<lambda>s. s \<noteq> []) (row_ring_id r))
       (app_error_from 400 (Msg ''usage recording requires an anon-ring receipt (ring_id missing)''))) (\<lambda>ring_id.
     Ok (row_tenant_id r, ring_id, row_ring_key_image_hex r)))"

definition usage_log_insert ::
  "string \<Rightarrow> string \<times> string \<times> string \<Rightarrow> usage_event \<Rightarrow> f64 \<Rightarrow> database \<Rightarrow> database" where
  "usage_log_insert log_id key ue usd db =
     db\<lparr>usage_log := usage_log db @
        [\<lparr>ul_log_id = log_id, ul_tenant_id = fst key, ul_ring_id = fst (snd key), ul_key_image_hex = snd (snd key),
          ul_model_id = ue_model_id ue, ul_input_tokens = ue_input_tokens ue,
          ul_output_tokens = ue_output_tokens ue, ul_usd = usd, ul_recorded_at = ue_now ue\<rparr>]\<rparr>"

definition usage_sums ::
  "string \<times> string \<times> string \<Rightarrow> usage_event \<Rightarrow> f64 \<Rightarrow> database \<Rightarrow> i64 \<times> i64 \<times> f64" where
  "usage_sums key ue usd db =
     (case map_of (usage_ledger db) key of
        None \<Rightarrow> (ue_input_tokens ue, ue_output_tokens ue, usd)
      | Some (i, n, u) \<Rightarrow> (i + ue_input_tokens ue, n + ue_output_tokens ue, f64_add u usd))"

definition ledger_stmt ::
  "bool \<Rightarrow> any_env \<Rightarrow> nat \<Rightarrow> string \<times> string \<times> string \<Rightarrow> usage_event \<Rightarrow> f64 \<Rightarrow> database \<Rightarrow> (string, database) result" where
  "ledger_stmt pg conn k key ue usd db =
     (let (i, n, u) = usage_sums key ue usd db in
      if pg \<and> \<not> (is_i64 i \<and> is_i64 n) then Err ''bigint out of range''
      else run_stmt conn k False (db\<lparr>usage_ledger := AList.update key (i, n, u) (usage_ledger db)\<rparr>))"

definition record_usage ::
  "(string \<Rightarrow> price_map option) \<Rightarrow> env \<Rightarrow> bool \<Rightarrow> any_env \<Rightarrow> nat \<Rightarrow> string \<Rightarrow> usage_event \<Rightarrow> database \<Rightarrow>
   (app_error, string \<times> string \<times> usage_totals) result \<times> database" where
  "record_usage P env pg conn k hex ue db =
     (if ue_input_tokens ue < 0 \<or> ue_output_tokens ue < 0
      then (fail 400 (Msg ''token counts must be >= 0''), db)
      else
        case receipt_ring conn k (ue_receipt_id ue) db of
          Err e \<Rightarrow> (Err e, db)
        | Ok key \<Rightarrow>
            (let usd = derive_usd P env (ue_model_id ue) (ue_input_tokens ue) (ue_output_tokens ue);
                 log_id = ''ul_'' @ hex
             in case run_stmt conn (k + 1) (log_id \<in> ul_log_id ` set (usage_log db)) (usage_log_insert log_id key ue usd db) of
                  Err e \<Rightarrow> (fail 500 (Msg e), db)
                | Ok db \<Rightarrow>
                    (case ledger_stmt pg conn (k + 2) key ue usd db of
                       Err e \<Rightarrow> (fail 500 (Msg e), db)
                     | Ok db \<Rightarrow>
                         (map_err (\<lambda>e. app_error_from 500 (Msg e))
                           (and_then (get_usage conn (k + 3) (fst key) (fst (snd key)) (snd (snd key)) db) (\<lambda>totals.
                            Ok (fst (snd key), snd (snd key), totals))), db))))"

section \<open>Usage reports\<close>

record ('s, 'p) record_usage_request =
  ru_event :: usage_event
  ru_nonce :: string
  ru_ring_signature :: "('s, 'p) ring_signature"

definition canonical_usage_report_json ::
  "('z) crypto_scheme \<Rightarrow> string \<Rightarrow> string \<Rightarrow> i64 \<Rightarrow> i64 \<Rightarrow> string \<Rightarrow> string" where
  "canonical_usage_report_json H receipt_id model_id input_tokens output_tokens nonce =
     ''{'' @ quoted ''receipt_id'' @ '':'' @ json_str H receipt_id @
     '','' @ quoted ''model_id'' @ '':'' @ json_str H model_id @
     '','' @ quoted ''input_tokens'' @ '':'' @ int_to_string input_tokens @
     '','' @ quoted ''output_tokens'' @ '':'' @ int_to_string output_tokens @
     '','' @ quoted ''nonce'' @ '':'' @ json_str H nonce @ ''}''"

definition usage_nonce_error :: "string \<Rightarrow> app_error" where
  "usage_nonce_error e =
     (if str_contains e ''UNIQUE'' then app_error_from 401 (Msg ''usage report replay'') else app_error_from 500 (Msg e))"

definition insert_action_nonce ::
  "any_env \<Rightarrow> nat \<Rightarrow> string \<Rightarrow> action_nonce_row \<Rightarrow> database \<Rightarrow> (string, database) result" where
  "insert_action_nonce conn k nonce row db =
     run_stmt conn k (agent_action_nonces db nonce \<noteq> None)
       (db\<lparr>agent_action_nonces := (agent_action_nonces db)(nonce \<mapsto> row)\<rparr>)"

definition verify_usage_report ::
  "('z) crypto_scheme \<Rightarrow> ('s, 'p, 'y) curve_scheme \<Rightarrow> any_env \<Rightarrow> ('s, 'p) record_usage_request \<Rightarrow> database \<Rightarrow>
   (app_error, database) result" where
  "verify_usage_report H G conn req db =
     (let ue = ru_event req; now = ue_now ue; key_image_hex = tohex G (compress G (key_image (ru_ring_signature req))) in
      and_then (require (16 \<le> length (trim (ru_nonce req)) \<and> length (ru_nonce req) \<le> 128) 400
        (Msg ''nonce must be 16..128 chars'')) (\<lambda>_.
      and_then (receipt_ring conn 0 (ue_receipt_id ue) db) (\<lambda>(tenant_id, ring_id, receipt_key_image).
      and_then (require (key_image_hex = receipt_key_image) 401
        (Msg ''usage report signed by a different ring pseudonym than the receipt'')) (\<lambda>_.
      and_then (map_err (\<lambda>e. app_error_from 500 (Msg e)) (list_member_points G conn 1 tenant_id ring_id db)) (\<lambda>members.
      and_then (require (members \<noteq> []) 401 (Msg ''ring has no members'')) (\<lambda>_.
      and_then (require (verify G (canonical_usage_report_json H (ue_receipt_id ue) (ue_model_id ue)
          (ue_input_tokens ue) (ue_output_tokens ue) (ru_nonce req)) members (ru_ring_signature req)) 401
        (Msg ''usage report signature verification failed'')) (\<lambda>_.
      map_err usage_nonce_error
        (insert_action_nonce conn 2 (''usage|'' @ key_image_hex @ ''|'' @ ru_nonce req)
          \<lparr>an_agent_id = [], an_action_hash = ue_receipt_id ue, an_expires_at = i64_wrap (now + 30 * 24 * 3600),
           an_used_at = now\<rparr> db))))))))"

definition record_usage_handler ::
  "('z) crypto_scheme \<Rightarrow> ('s, 'p, 'y) curve_scheme \<Rightarrow> (string \<Rightarrow> price_map option) \<Rightarrow> env \<Rightarrow> bool \<Rightarrow> any_env \<Rightarrow> string \<Rightarrow>
   ('s, 'p) record_usage_request \<Rightarrow> database \<Rightarrow> (app_error, string \<times> string \<times> usage_totals) result \<times> database" where
  "record_usage_handler H G P env pg conn hex req db =
     (case require_enabled env of
        Err e \<Rightarrow> (Err e, db)
      | Ok _ \<Rightarrow>
          with_db conn
            (case verify_usage_report H G conn req db of
               Err e \<Rightarrow> (Err e, db)
             | Ok db' \<Rightarrow> record_usage P env pg conn 3 hex (ru_event req) db') db)"

fun decode_usage :: "(string \<times> i64 \<times> i64 \<times> f64) list \<Rightarrow> (string, (string \<times> usage_totals) list) result" where
  "decode_usage [] = Ok []"
| "decode_usage ((key, row) # rows) =
     and_then (ok_or (totals_of (Some row)) ''invalid column type'') (\<lambda>t.
     and_then (decode_usage rows) (\<lambda>out. Ok ((key, t) # out)))"

definition list_ring_usage ::
  "any_env \<Rightarrow> nat \<Rightarrow> string \<Rightarrow> string \<Rightarrow> database \<Rightarrow> (string, (string \<times> usage_totals) list) result" where
  "list_ring_usage conn k tenant_id ring_id db =
     map_err (\<lambda>e. ''query list_ring_usage: '' @ e)
       (and_then (run_stmt conn k False (sort_key fst (map (\<lambda>((t, r, key), row). (key, row))
          (filter (\<lambda>((t, r, key), row). t = tenant_id \<and> r = ring_id) (usage_ledger db))))) decode_usage)"

definition ring_usage_handler ::
  "env \<Rightarrow> any_env \<Rightarrow> string \<Rightarrow> string \<Rightarrow> database \<Rightarrow> (app_error, (string \<times> usage_totals) list) result" where
  "ring_usage_handler env conn tenant ring_id db =
     and_then (require_enabled env) (\<lambda>_.
     if lock_fault conn \<noteq> None then Err Panicked
     else map_err (\<lambda>e. app_error_from 500 (Msg e)) (list_ring_usage conn 0 tenant ring_id db))"

section \<open>The ledger is the sum of the log\<close>

definition usage_rows :: "database \<Rightarrow> string \<times> string \<times> string \<Rightarrow> usage_log_row list" where
  "usage_rows db key = filter (\<lambda>r. (ul_tenant_id r, ul_ring_id r, ul_key_image_hex r) = key) (usage_log db)"

definition log_sums :: "usage_log_row list \<Rightarrow> i64 \<times> i64 \<times> f64" where
  "log_sums rows =
     (sum_list (map ul_input_tokens rows), sum_list (map ul_output_tokens rows),
      foldl f64_add (ul_usd (hd rows)) (map ul_usd (tl rows)))"

definition ledger_matches :: "database \<Rightarrow> bool" where
  "ledger_matches db \<longleftrightarrow>
     (\<forall>key. map_of (usage_ledger db) key =
        (if usage_rows db key = [] then None else Some (log_sums (usage_rows db key))))"

lemma log_sums_snoc:
  "log_sums (rows @ [r]) =
     (if rows = [] then (ul_input_tokens r, ul_output_tokens r, ul_usd r)
      else case log_sums rows of (i, n, u) \<Rightarrow>
        (i + ul_input_tokens r, n + ul_output_tokens r, f64_add u (ul_usd r)))"
  by (cases rows) (simp_all add: log_sums_def)

lemma usage_rows_insert:
  "usage_rows (usage_log_insert l key ue usd db) key' =
     usage_rows db key' @ (if key' = key then
       [\<lparr>ul_log_id = l, ul_tenant_id = fst key, ul_ring_id = fst (snd key), ul_key_image_hex = snd (snd key),
         ul_model_id = ue_model_id ue, ul_input_tokens = ue_input_tokens ue,
         ul_output_tokens = ue_output_tokens ue, ul_usd = usd, ul_recorded_at = ue_now ue\<rparr>] else [])"
  by (auto simp: usage_rows_def usage_log_insert_def)

lemma ledger_matches_step:
  assumes "ledger_matches db"
    and "db' = (usage_log_insert l key ue usd db)\<lparr>usage_ledger :=
      AList.update key (usage_sums key ue usd db) (usage_ledger db)\<rparr>"
  shows "ledger_matches db' \<and> map_of (usage_ledger db') key = Some (log_sums (usage_rows db' key))"
proof -
  have rows: "usage_rows db' = usage_rows (usage_log_insert l key ue usd db)"
    by (simp add: assms(2) usage_rows_def fun_eq_iff)
  have old: "map_of (usage_ledger db) k = (if usage_rows db k = [] then None else Some (log_sums (usage_rows db k)))" for k
    using assms(1) unfolding ledger_matches_def by blast
  have new: "map_of (usage_ledger db') k = (if k = key then Some (usage_sums key ue usd db) else map_of (usage_ledger db) k)" for k
    by (simp add: assms(2) update_conv')
  have "usage_sums key ue usd db = log_sums (usage_rows db' key)"
    using old [of key] unfolding rows usage_rows_insert usage_sums_def
    by (auto simp: log_sums_snoc split: prod.splits)
  then have "map_of (usage_ledger db') k =
      (if usage_rows db' k = [] then None else Some (log_sums (usage_rows db' k)))" for k
    using new [of k] old [of k] unfolding rows usage_rows_insert by (cases "k = key") simp_all
  then show ?thesis
    using new [of key] unfolding ledger_matches_def by (simp add: rows usage_rows_insert)
qed

definition demo_usage_db :: database where
  "demo_usage_db = empty_database\<lparr>agent_action_receipts :=
     [\<lparr>row_receipt_id = ''ar_1'', row_action_hash = [], row_agent_id = [], row_ring_key_image_hex = ''ki'',
       row_policy_version = [], row_ajwt_jti = [], row_pop_jkt = [], row_status = ''verified'', row_signature = [],
       row_created_at = 1, row_ring_id = Some ''r1'', row_config_digest = None, row_tenant_id = ''acme'',
       row_seq = Some 1, row_prev_hash = None, row_owner_mandate_hash = None\<rparr>]\<rparr>"

definition demo_usage :: "i64 \<Rightarrow> usage_event" where
  "demo_usage n = \<lparr>ue_receipt_id = ''ar_1'', ue_model_id = ''m'', ue_input_tokens = n, ue_output_tokens = 0, ue_now = 5\<rparr>"

text \<open>
  C21. What a budget check reads.  On a healthy SQLite connection every accepted report keeps the
  ledger equal to the sums of the log, key by key, and a later read of the pseudonym's totals
  gives exactly these sums as long as both token sums are 64-bit integers.  Once a sum
  leaves that range the read fails, and a failed read counts as no usage at all: the totals
  are zero and no budget with non-negative caps is exceeded any more.\<close>

theorem usage_totals_are_sums_until_overflow:
  assumes "ledger_matches db" "receipt_ring healthy k (ue_receipt_id ue) db = Ok (t, r, key)"
    and "record_usage P env False healthy k hex ue db = (Ok x, db')"
  shows "ledger_matches db' \<and>
    (let (i, n, u) = log_sums (usage_rows db' (t, r, key)) in
     if is_i64 i \<and> is_i64 n
     then get_usage healthy 0 t r key db' = Ok \<lparr>ut_input_tokens = i, ut_output_tokens = n, ut_usd = u\<rparr>
     else get_usage healthy 0 t r key db' = Ok no_usage \<and>
       budget_exceeded no_usage \<lparr>bu_usd = Some f64_zero, bu_input_tokens = Some 0, bu_output_tokens = Some 0\<rparr> = None)"
proof -
  let ?key = "(t, r, key)"
  let ?usd = "derive_usd P env (ue_model_id ue) (ue_input_tokens ue) (ue_output_tokens ue)"
  let ?db = "usage_log_insert (''ul_'' @ hex) ?key ue ?usd db"
  have "db' = ?db\<lparr>usage_ledger := AList.update ?key (usage_sums ?key ue ?usd db) (usage_ledger db)\<rparr>"
    using assms(2,3)
    by (auto simp: record_usage_def ledger_stmt_def healthy_def run_stmt_def Let_def usage_log_insert_def usage_sums_def
        split: if_splits sum.splits prod.splits)
  from ledger_matches_step [OF assms(1) this]
  have ledger: "ledger_matches db'" "map_of (usage_ledger db') ?key = Some (log_sums (usage_rows db' ?key))"
    by blast+
  show ?thesis
    by (cases "log_sums (usage_rows db' ?key)")
      (simp add: ledger get_usage_def scalar_or_def healthy_def totals_of_def budget_exceeded_def no_usage_def)
qed

theorem usage_totals_are_sums_until_overflow_witness:
  "\<exists>db' db''. (\<exists>x. record_usage (\<lambda>s. None) (\<lambda>v. None) False healthy 0 ''1'' (demo_usage i64_MAX) demo_usage_db = (Ok x, db')) \<and>
     (\<exists>y. record_usage (\<lambda>s. None) (\<lambda>v. None) False healthy 0 ''2'' (demo_usage 1) db' = (Ok y, db'')) \<and>
     get_usage healthy 0 ''acme'' ''r1'' ''ki'' db'' = Ok no_usage"
proof -
  let ?rec = "\<lambda>hex n. record_usage (\<lambda>s. None) (\<lambda>v. None) False healthy 0 hex (demo_usage n)"
  let ?u = "f64_add f64_zero f64_zero"
  let ?row = "\<lambda>l n. \<lparr>ul_log_id = l, ul_tenant_id = ''acme'', ul_ring_id = ''r1'', ul_key_image_hex = ''ki'',
    ul_model_id = ''m'', ul_input_tokens = n, ul_output_tokens = 0, ul_usd = f64_zero, ul_recorded_at = 5\<rparr>"
  let ?db1 = "demo_usage_db\<lparr>usage_log := [?row ''ul_1'' i64_MAX], usage_ledger := [((''acme'', ''r1'', ''ki''), (i64_MAX, 0, f64_zero))]\<rparr>"
  let ?db2 = "?db1\<lparr>usage_log := [?row ''ul_1'' i64_MAX, ?row ''ul_2'' 1],
    usage_ledger := [((''acme'', ''r1'', ''ki''), (i64_MAX + 1, 0, ?u))]\<rparr>"
  have ring: "receipt_ring healthy 0 (ue_receipt_id (demo_usage n)) db = Ok (''acme'', ''r1'', ''ki'')"
    if "agent_action_receipts db = agent_action_receipts demo_usage_db" for n db
    using that by (simp add: receipt_ring_def require_row_def scalar_or_def healthy_def demo_usage_db_def demo_usage_def
        filter_option_def)
  obtain x where "?rec ''1'' i64_MAX demo_usage_db = (Ok x, ?db1)"
    using ring [of demo_usage_db]
    by (simp add: record_usage_def ledger_stmt_def usage_sums_def derive_usd_def usd_from_prices_def load_price_map_def
        run_stmt_def healthy_def usage_log_insert_def get_usage_def demo_usage_def demo_usage_db_def empty_database_def
        i64_MAX_def Let_def)
  moreover obtain y where step: "?rec ''2'' 1 ?db1 = (Ok y, ?db2)"
    using ring [of ?db1]
    by (simp add: record_usage_def ledger_stmt_def usage_sums_def derive_usd_def usd_from_prices_def load_price_map_def
        run_stmt_def healthy_def usage_log_insert_def get_usage_def demo_usage_def demo_usage_db_def empty_database_def
        i64_MAX_def Let_def)
  moreover have "get_usage healthy 0 ''acme'' ''r1'' ''ki'' ?db2 = Ok no_usage"
  proof -
    have "ledger_matches ?db1"
      by (auto simp: ledger_matches_def usage_rows_def log_sums_def)
    from usage_totals_are_sums_until_overflow [OF this ring step] show ?thesis
      by (simp add: usage_rows_def log_sums_def i64_MAX_def is_i64_def)
  qed
  ultimately show ?thesis
    by blast
qed

end
