(* ===== verification/Policy_Ast.thy ===== *)
theory Policy_Ast
  imports Values
begin

text \<open>
  The policy document of \<open>policy/ast.rs\<close>, the error and validator types of
  \<open>policy/types.rs\<close> and the semantic validation of \<open>policy/parser.rs\<close>.

  Two third-party functions are parameters, held in \<open>externs\<close>: the matcher of the
  \<open>regex\<close> crate (pattern, then haystack) and \<open>chrono_tz::Tz::from_str\<close>, whose error
  is the text of its display form.
\<close>

record externs =
  re_is_match :: "string \<Rightarrow> string \<Rightarrow> bool"
  tz_from_str :: "string \<Rightarrow> (string, unit) result"

section \<open>Policy documents\<close>

record data_scope =
  ds_allow :: "string list"
  ds_deny :: "string list"

record rate_limit_cfg =
  requests_per_minute :: u32

record weekly_rate_cfg =
  requests_per_week :: u32

record time_window_cfg =
  tw_start :: string
  tw_end :: string
  tw_timezone :: string

record signature_requirement =
  sr_role :: string
  sr_threshold :: u32

record delegation_limits =
  max_depth :: u32
  allowed_subagents :: "string list"

text \<open>The windows of a \<open>BTreeMap\<close>: its entries in ascending key order.\<close>

record business_hours_cfg =
  weekday_windows :: "(u8 \<times> string \<times> string) list"
  bh_timezone :: string

record policy_metadata =
  created_at :: "string option"
  author :: "string option"
  tags :: "string list"

record binding =
  allowed_tools :: "string list option"
  max_budget_usd :: "f64 option"
  data_scope :: "data_scope option"
  rate_limit :: "rate_limit_cfg option"
  time_window :: "time_window_cfg option"
  required_signatures :: "signature_requirement list option"
  delegation :: "delegation_limits option"
  domain_allowlist :: "string list option"
  domain_denylist :: "string list option"
  tool_denylist :: "string list option"
  daily_budget_usd :: "f64 option"
  max_single_action_usd :: "f64 option"
  weekly_rate :: "weekly_rate_cfg option"
  max_concurrent :: "u32 option"
  cooldown_seconds :: "u64 option"
  max_payload_bytes :: "u64 option"
  content_type_allowlist :: "string list option"
  max_recipients :: "u32 option"
  max_chain_depth :: "u32 option"
  pii_block :: "bool option"
  language_allowlist :: "string list option"
  currency_allowlist :: "string list option"
  geo_allow_countries :: "string list option"
  geo_deny_countries :: "string list option"
  business_hours :: "business_hours_cfg option"
  holiday_blackout_dates :: "string list option"
  pinned_version :: "string option"
  dry_run :: "bool option"

record policy =
  version :: string
  agent :: string
  description :: "string option"
  binding :: binding
  invariants :: "string list"
  policy_meta :: policy_metadata

text \<open>\<open>Binding::default()\<close> and \<open>Metadata::default()\<close>: no limit is configured.\<close>

definition binding_default :: binding where
  "binding_default =
     \<lparr> allowed_tools = None, max_budget_usd = None, data_scope = None, rate_limit = None,
       time_window = None, required_signatures = None, delegation = None,
       domain_allowlist = None, domain_denylist = None, tool_denylist = None,
       daily_budget_usd = None, max_single_action_usd = None, weekly_rate = None,
       max_concurrent = None, cooldown_seconds = None, max_payload_bytes = None,
       content_type_allowlist = None, max_recipients = None, max_chain_depth = None,
       pii_block = None, language_allowlist = None, currency_allowlist = None,
       geo_allow_countries = None, geo_deny_countries = None, business_hours = None,
       holiday_blackout_dates = None, pinned_version = None, dry_run = None \<rparr>"

definition metadata_default :: policy_metadata where
  "metadata_default = \<lparr> created_at = None, author = None, tags = [] \<rparr>"

section \<open>Errors and validators\<close>

datatype policy_parse_error =
    InvalidYaml msg
  | InvalidJson msg
  | SchemaViolation msg
  | UnsupportedVersion msg

fun policy_parse_error_display :: "policy_parse_error \<Rightarrow> msg" where
  "policy_parse_error_display (InvalidYaml m) = Fmt ''invalid yaml: {m}'' [AMsg m]"
| "policy_parse_error_display (InvalidJson m) = Fmt ''invalid json: {m}'' [AMsg m]"
| "policy_parse_error_display (SchemaViolation m) = Fmt ''schema violation: {m}'' [AMsg m]"
| "policy_parse_error_display (UnsupportedVersion m) =
     Fmt ''unsupported policy version: {m}'' [AMsg m]"

definition budget_new :: "f64 \<Rightarrow> (policy_parse_error, f64) result" where
  "budget_new amount =
     (if \<not> f64_is_finite amount \<or> f64_lt amount f64_zero
      then Err (SchemaViolation
        (Fmt ''budget must be a finite, non-negative number, got {amount}'' [AF64 amount]))
      else Ok amount)"

datatype data_classification =
  Public | CustomerOwned | Pii | Financial | Restricted | Custom string

definition data_classification_from_tag :: "string \<Rightarrow> data_classification" where
  "data_classification_from_tag tag =
     (let t = to_ascii_lowercase tag in
      if t = ''public'' then Public
      else if t = ''customer_owned'' then CustomerOwned
      else if t = ''pii'' then Pii
      else if t = ''financial'' \<or> t = ''financial_records'' then Financial
      else if t = ''restricted'' then Restricted
      else Custom tag)"

definition HHMM_RE :: string where
  "HHMM_RE = ''^(?:[01]'' @ [CHR 0x5C] @ ''d|2[0-3]):[0-5]'' @ [CHR 0x5C] @ ''d$''"

definition validate_hhmm :: "externs \<Rightarrow> string \<Rightarrow> (policy_parse_error, unit) result" where
  "validate_hhmm X s =
     (if re_is_match X HHMM_RE s then Ok ()
      else Err (SchemaViolation (Fmt
        ''invalid HH:MM time '{s}' (expected 24-hour with leading zeros, e.g. 09:00)'' [AStr s])))"

definition validate_iana_tz :: "externs \<Rightarrow> string \<Rightarrow> (policy_parse_error, unit) result" where
  "validate_iana_tz X tz =
     map_err (\<lambda>e. SchemaViolation (Fmt ''invalid IANA tz '{tz}': {e}'' [AStr tz, AStr e]))
       (tz_from_str X tz)"

section \<open>Semantic validation\<close>

definition SUPPORTED_VERSION :: string where
  "SUPPORTED_VERSION = ''1''"

definition is_yyyy_mm_dd :: "string \<Rightarrow> bool" where
  "is_yyyy_mm_dd s \<longleftrightarrow>
     length s = 10 \<and> s ! 4 = CHR ''-'' \<and> s ! 7 = CHR ''-'' \<and>
     list_all (\<lambda>i. is_ascii_digit (s ! i)) [0, 1, 2, 3, 5, 6, 8, 9]"

text \<open>The shared shape of the three money fields: a finite, non-negative number.\<close>

definition validate_usd :: "string \<Rightarrow> f64 option \<Rightarrow> (policy_parse_error, unit) result" where
  "validate_usd template v =
     (case v of
        None \<Rightarrow> Ok ()
      | Some b \<Rightarrow>
          if \<not> f64_is_finite b \<or> f64_lt b f64_zero
          then Err (SchemaViolation (Fmt template [AF64 b])) else Ok ())"

definition validate_window ::
  "externs \<Rightarrow> u8 \<times> string \<times> string \<Rightarrow> (policy_parse_error, unit) result" where
  "validate_window X w =
     (case w of (wd, s, e) \<Rightarrow>
        if wd > 6 then Err (SchemaViolation (Fmt
          ''`business_hours.weekday_windows` key must be 0..=6 (got {wd})'' [AWord wd]))
        else and_then (validate_hhmm X s) (\<lambda>_. validate_hhmm X e))"

definition validate_signature_requirement ::
  "signature_requirement \<Rightarrow> (policy_parse_error, unit) result" where
  "validate_signature_requirement s =
     (if sr_threshold s = 0 then Err (SchemaViolation (Fmt
        ''`required_signatures[role={}].threshold` must be > 0'' [AStr (sr_role s)]))
      else if trim (sr_role s) = [] then Err (SchemaViolation
        (Msg ''`required_signatures[].role` must be non-empty''))
      else Ok ())"

definition validate_date :: "string \<Rightarrow> (policy_parse_error, unit) result" where
  "validate_date d =
     (if \<not> is_yyyy_mm_dd d then Err (SchemaViolation (Fmt
        (''`holiday_blackout_dates` entry must be YYYY-MM-DD, got '{d}'' @ [CHR 0x27]) [AStr d]))
      else Ok ())"

definition validate_binding :: "externs \<Rightarrow> binding \<Rightarrow> (policy_parse_error, unit) result" where
  "validate_binding X b =
     and_then (validate_usd
       ''`binding.max_budget_usd` must be a finite, non-negative number, got {b}''
       (max_budget_usd b)) (\<lambda>_.
     and_then (case rate_limit b of
         None \<Rightarrow> Ok ()
       | Some rl \<Rightarrow> if requests_per_minute rl = 0 then Err (SchemaViolation
           (Msg ''`binding.rate_limit.requests_per_minute` must be > 0'')) else Ok ()) (\<lambda>_.
     and_then (case time_window b of
         None \<Rightarrow> Ok ()
       | Some tw \<Rightarrow>
           and_then (validate_hhmm X (tw_start tw)) (\<lambda>_.
           and_then (validate_hhmm X (tw_end tw)) (\<lambda>_.
           validate_iana_tz X (tw_timezone tw)))) (\<lambda>_.
     and_then (case data_scope b of
         None \<Rightarrow> Ok ()
       | Some ds \<Rightarrow>
           let conflict = filter (\<lambda>t. t \<in> set (ds_deny ds)) (ds_allow ds) in
           if conflict \<noteq> [] then Err (SchemaViolation (Fmt
             ''`binding.data_scope.allow` and `.deny` must be disjoint; overlap: {conflict:?}''
             [AStrs conflict])) else Ok ()) (\<lambda>_.
     and_then (case required_signatures b of
         None \<Rightarrow> Ok ()
       | Some sigs \<Rightarrow> try_all validate_signature_requirement sigs) (\<lambda>_.
     and_then (validate_usd
       ''`binding.daily_budget_usd` must be a finite, non-negative number, got {b}''
       (daily_budget_usd b)) (\<lambda>_.
     and_then (validate_usd
       ''`binding.max_single_action_usd` must be a finite, non-negative number, got {b}''
       (max_single_action_usd b)) (\<lambda>_.
     and_then (case weekly_rate b of
         None \<Rightarrow> Ok ()
       | Some wr \<Rightarrow> if requests_per_week wr = 0 then Err (SchemaViolation
           (Msg ''`binding.weekly_rate.requests_per_week` must be > 0'')) else Ok ()) (\<lambda>_.
     and_then (case business_hours b of
         None \<Rightarrow> Ok ()
       | Some bh \<Rightarrow>
           and_then (validate_iana_tz X (bh_timezone bh)) (\<lambda>_.
           try_all (validate_window X) (weekday_windows bh))) (\<lambda>_.
     (case holiday_blackout_dates b of
         None \<Rightarrow> Ok ()
       | Some dates \<Rightarrow> try_all validate_date dates))))))))))"

definition validate :: "externs \<Rightarrow> policy \<Rightarrow> (policy_parse_error, unit) result" where
  "validate X p =
     (if version p \<noteq> SUPPORTED_VERSION then Err (UnsupportedVersion (Fmt
        ''expected version {SUPPORTED_VERSION}, got {}''
        [AStr SUPPORTED_VERSION, AStr (version p)]))
      else if trim (agent p) = [] then Err (SchemaViolation (Msg ''`agent` must be non-empty''))
      else validate_binding X (binding p))"

text \<open>
  The entry points: the two deserialisers are third-party functions, the choice
  between them and the validation that follows are the code's own.
\<close>

type_synonym deserialiser = "string \<Rightarrow> (string, policy) result"

definition parse_json ::
  "externs \<Rightarrow> deserialiser \<Rightarrow> string \<Rightarrow> (policy_parse_error, policy) result" where
  "parse_json X from_str input =
     and_then (map_err (\<lambda>e. InvalidJson (Msg e)) (from_str input)) (\<lambda>p.
     and_then (validate X p) (\<lambda>_. Ok p))"

definition parse_yaml ::
  "externs \<Rightarrow> deserialiser \<Rightarrow> string \<Rightarrow> (policy_parse_error, policy) result" where
  "parse_yaml X from_str input =
     and_then (map_err (\<lambda>e. InvalidYaml (Msg e)) (from_str input)) (\<lambda>p.
     and_then (validate X p) (\<lambda>_. Ok p))"

definition parse_policy ::
  "externs \<Rightarrow> deserialiser \<Rightarrow> deserialiser \<Rightarrow> string \<Rightarrow> (policy_parse_error, policy) result"
where
  "parse_policy X json_from_str yaml_from_str input =
     (if prefix ''{'' (trim_start input) then parse_json X json_from_str input
      else parse_yaml X yaml_from_str input)"

section \<open>What validation guarantees\<close>

definition usd_ok :: "f64 option \<Rightarrow> bool" where
  "usd_ok v \<longleftrightarrow> (\<forall>b. v = Some b \<longrightarrow> f64_is_finite b \<and> \<not> f64_lt b f64_zero)"

definition window_ok :: "externs \<Rightarrow> u8 \<times> string \<times> string \<Rightarrow> bool" where
  "window_ok X w \<longleftrightarrow>
     (case w of (wd, s, e) \<Rightarrow> wd \<le> 6 \<and> re_is_match X HHMM_RE s \<and> re_is_match X HHMM_RE e)"

lemma validate_usd_Ok_iff: "validate_usd t v = Ok () \<longleftrightarrow> usd_ok v"
  by (auto simp: validate_usd_def usd_ok_def split: option.splits)

lemma validate_hhmm_Ok_iff: "validate_hhmm X s = Ok () \<longleftrightarrow> re_is_match X HHMM_RE s"
  by (simp add: validate_hhmm_def)

lemma validate_window_Ok_iff: "validate_window X w = Ok () \<longleftrightarrow> window_ok X w"
  by (auto simp: validate_window_def window_ok_def and_then_eq_Ok_iff validate_hhmm_Ok_iff not_less
      split: prod.splits)

lemma validate_signature_requirement_Ok_iff:
  "validate_signature_requirement s = Ok () \<longleftrightarrow> sr_threshold s \<noteq> 0 \<and> trim (sr_role s) \<noteq> []"
  by (simp add: validate_signature_requirement_def)

lemma validate_date_Ok_iff: "validate_date d = Ok () \<longleftrightarrow> is_yyyy_mm_dd d"
  by (simp add: validate_date_def)

lemmas validate_Ok_iffs =
  validate_usd_Ok_iff validate_hhmm_Ok_iff validate_window_Ok_iff validate_date_Ok_iff
  validate_signature_requirement_Ok_iff try_all_Ok_iff and_then_eq_Ok_iff

text \<open>The specification of a semantically valid binding, field by field.\<close>

definition binding_ok :: "externs \<Rightarrow> binding \<Rightarrow> bool" where
  "binding_ok X b \<longleftrightarrow>
     usd_ok (max_budget_usd b) \<and> usd_ok (daily_budget_usd b) \<and> usd_ok (max_single_action_usd b) \<and>
     (\<forall>rl. rate_limit b = Some rl \<longrightarrow> requests_per_minute rl \<noteq> 0) \<and>
     (\<forall>wr. weekly_rate b = Some wr \<longrightarrow> requests_per_week wr \<noteq> 0) \<and>
     (\<forall>tw. time_window b = Some tw \<longrightarrow>
        re_is_match X HHMM_RE (tw_start tw) \<and> re_is_match X HHMM_RE (tw_end tw) \<and>
        tz_from_str X (tw_timezone tw) = Ok ()) \<and>
     (\<forall>ds. data_scope b = Some ds \<longrightarrow> set (ds_allow ds) \<inter> set (ds_deny ds) = {}) \<and>
     (\<forall>sigs. required_signatures b = Some sigs \<longrightarrow>
        (\<forall>s \<in> set sigs. sr_threshold s \<noteq> 0 \<and> trim (sr_role s) \<noteq> [])) \<and>
     (\<forall>bh. business_hours b = Some bh \<longrightarrow>
        tz_from_str X (bh_timezone bh) = Ok () \<and> (\<forall>w \<in> set (weekday_windows bh). window_ok X w)) \<and>
     (\<forall>dates. holiday_blackout_dates b = Some dates \<longrightarrow> (\<forall>d \<in> set dates. is_yyyy_mm_dd d))"

lemma filter_mem_eq_Nil_iff: "filter (\<lambda>t. t \<in> B) xs = [] \<longleftrightarrow> set xs \<inter> B = {}"
  by (auto simp: filter_empty_conv)

lemma validate_binding_Ok_iff: "validate_binding X b = Ok () \<longleftrightarrow> binding_ok X b"
  unfolding validate_binding_def binding_ok_def validate_iana_tz_def Let_def
  by (auto simp: validate_Ok_iffs filter_mem_eq_Nil_iff split: option.splits)

end
