(* ===== verification/Policy_Invariants.thy ===== *)
theory Policy_Invariants
  imports Policy_Ast
begin

text \<open>
  The runtime checks of \<open>policy/invariants\<close>: the verdicts, the action and the
  evaluation context of \<open>mod.rs\<close>, and one evaluation function per check, in the
  order of the source's modules.  A \<open>HashSet\<close> is a set, a \<open>HashMap\<close> a partial map.
\<close>

datatype verdict = Allow | Deny string msg

definition is_allow :: "verdict \<Rightarrow> bool" where
  "is_allow v \<longleftrightarrow> v = Allow"

definition is_deny :: "verdict \<Rightarrow> bool" where
  "is_deny v \<longleftrightarrow> (case v of Allow \<Rightarrow> False | Deny _ _ \<Rightarrow> True)"

record action =
  action_id :: string
  tool :: string
  amount_usd :: "f64 option"
  data_classification :: "string option"
  signatures :: "string list"
  delegation_depth :: u32
  timestamp :: i64
  metadata :: "string \<Rightarrow> json option"

record evaluation_context =
  ctx_action :: action
  spend_total_usd :: f64
  recent_call_timestamps :: "i64 list"
  now_epoch :: i64
  now_tz_hhmm :: string
  daily_spend_usd :: f64
  weekly_call_timestamps :: "i64 list"
  in_flight_actions :: u32
  last_action_at :: "i64 option"
  now_weekday :: u8
  now_date_yyyy_mm_dd :: string

definition action_default :: action where
  "action_default =
     \<lparr> action_id = [], tool = [], amount_usd = None, data_classification = None, signatures = [],
       delegation_depth = 0, timestamp = 0, metadata = Map.empty \<rparr>"

definition with_defaults :: "action \<Rightarrow> evaluation_context" where
  "with_defaults a =
     \<lparr> ctx_action = a, spend_total_usd = f64_zero, recent_call_timestamps = [], now_epoch = 0,
       now_tz_hhmm = [], daily_spend_usd = f64_zero, weekly_call_timestamps = [],
       in_flight_actions = 0, last_action_at = None, now_weekday = 0,
       now_date_yyyy_mm_dd = [] \<rparr>"

text \<open>The accessor chains \<open>metadata.get(k).and_then(as_...)\<close>.\<close>

definition meta_str :: "evaluation_context \<Rightarrow> string \<Rightarrow> string option" where
  "meta_str ctx k = Option.bind (metadata (ctx_action ctx) k) as_str"

definition meta_u64 :: "evaluation_context \<Rightarrow> string \<Rightarrow> u64 option" where
  "meta_u64 ctx k = Option.bind (metadata (ctx_action ctx) k) as_u64"

definition meta_bool :: "evaluation_context \<Rightarrow> string \<Rightarrow> bool option" where
  "meta_bool ctx k = Option.bind (metadata (ctx_action ctx) k) as_bool"

definition amount_or_zero :: "evaluation_context \<Rightarrow> f64" where
  "amount_or_zero ctx = (case amount_usd (ctx_action ctx) of None \<Rightarrow> f64_zero | Some a \<Rightarrow> a)"

section \<open>Money\<close>

definition budget_evaluate :: "f64 \<Rightarrow> evaluation_context \<Rightarrow> verdict" where
  "budget_evaluate max_usd ctx =
     (let amount = amount_or_zero ctx; projected = f64_add (spend_total_usd ctx) amount in
      if f64_gt projected max_usd
      then Deny ''budget'' (Fmt ''projected spend {:.2} USD exceeds cap {:.2} USD''
             [AF64 projected, AF64 max_usd])
      else Allow)"

definition daily_budget_evaluate :: "f64 \<Rightarrow> evaluation_context \<Rightarrow> verdict" where
  "daily_budget_evaluate cap ctx =
     (let amount = amount_or_zero ctx; projected = f64_add (daily_spend_usd ctx) amount in
      if f64_gt projected cap
      then Deny ''daily_budget''
             (Fmt ''projected daily spend {:.2} USD exceeds daily cap {:.2} USD''
               [AF64 projected, AF64 cap])
      else Allow)"

definition per_action_cap_evaluate :: "f64 \<Rightarrow> evaluation_context \<Rightarrow> verdict" where
  "per_action_cap_evaluate cap ctx =
     (let amount = amount_or_zero ctx in
      if f64_gt amount cap
      then Deny ''per_action_cap''
             (Fmt ''single action amount {:.2} USD exceeds per-action cap {:.2} USD''
               [AF64 amount, AF64 cap])
      else Allow)"

section \<open>Scopes, tools and domains\<close>

definition scope_from_scope ::
  "data_scope \<Rightarrow> (policy_parse_error, string list \<times> string list) result" where
  "scope_from_scope ds =
     Ok (map to_ascii_lowercase (ds_allow ds), map to_ascii_lowercase (ds_deny ds))"

definition scope_evaluate ::
  "string list \<Rightarrow> string list \<Rightarrow> evaluation_context \<Rightarrow> verdict" where
  "scope_evaluate allow deny ctx =
     (case data_classification (ctx_action ctx) of
        None \<Rightarrow> Allow
      | Some raw \<Rightarrow>
          let tag = to_ascii_lowercase raw in
          if list_ex (\<lambda>d. d = tag) deny
          then Deny ''scope'' (Fmt ''classification '{tag}' is on deny list'' [AStr tag])
          else if allow \<noteq> [] \<and> \<not> list_ex (\<lambda>a. a = tag) allow
          then Deny ''scope'' (Fmt ''classification '{tag}' not in allow list {:?}''
                 [AStr tag, AStrs allow])
          else Allow)"

definition allowlist_evaluate :: "string set \<Rightarrow> evaluation_context \<Rightarrow> verdict" where
  "allowlist_evaluate tools ctx =
     (if tool (ctx_action ctx) \<in> tools then Allow
      else Deny ''allowlist'' (Fmt ''tool '{}' not in allowlist'' [AStr (tool (ctx_action ctx))]))"

definition tool_denylist_evaluate :: "string set \<Rightarrow> evaluation_context \<Rightarrow> verdict" where
  "tool_denylist_evaluate tools ctx =
     (if tool (ctx_action ctx) \<in> tools
      then Deny ''tool_denylist'' (Fmt ''tool '{}' is on deny list'' [AStr (tool (ctx_action ctx))])
      else Allow)"

definition domains_new :: "string list \<Rightarrow> string set" where
  "domains_new domains = set (map to_ascii_lowercase domains)"

definition domain_denylist_evaluate :: "string set \<Rightarrow> evaluation_context \<Rightarrow> verdict" where
  "domain_denylist_evaluate domains ctx =
     (case meta_str ctx ''target_domain'' of
        None \<Rightarrow> Allow
      | Some raw \<Rightarrow>
          let tag = to_ascii_lowercase raw in
          if tag \<in> domains
          then Deny ''domain_denylist'' (Fmt ''domain '{tag}' is on deny list'' [AStr tag])
          else Allow)"

definition domain_allowlist_evaluate :: "string set \<Rightarrow> evaluation_context \<Rightarrow> verdict" where
  "domain_allowlist_evaluate domains ctx =
     (case meta_str ctx ''target_domain'' of
        None \<Rightarrow> Deny ''domain_allowlist'' (Msg ''action.metadata.target_domain missing'')
      | Some d \<Rightarrow>
          let raw = to_ascii_lowercase d in
          if raw \<in> domains then Allow
          else Deny ''domain_allowlist'' (Fmt ''domain '{raw}' not in allowlist'' [AStr raw]))"

section \<open>Rates and time\<close>

definition RATE_WINDOW_SECS :: i64 where
  "RATE_WINDOW_SECS = 60"

definition WEEKLY_WINDOW_SECS :: i64 where
  "WEEKLY_WINDOW_SECS = 7 * 24 * 60 * 60"

text \<open>The number of timestamps in the half-open window, truncated to \<open>u32\<close>.\<close>

definition window_count :: "i64 \<Rightarrow> i64 \<Rightarrow> i64 list \<Rightarrow> u32" where
  "window_count window now ts =
     (let lower = i64_saturating_sub now window in
      of_nat (length (filter (\<lambda>t. t > lower \<and> t \<le> now) ts)))"

definition rate_evaluate :: "u32 \<Rightarrow> evaluation_context \<Rightarrow> verdict" where
  "rate_evaluate limit ctx =
     (let count = window_count RATE_WINDOW_SECS (now_epoch ctx) (recent_call_timestamps ctx) in
      if count \<ge> limit
      then Deny ''rate_limit'' (Fmt ''{} calls in last 60s reached limit {}''
             [AWord count, AWord limit])
      else Allow)"

definition weekly_rate_evaluate :: "u32 \<Rightarrow> evaluation_context \<Rightarrow> verdict" where
  "weekly_rate_evaluate limit ctx =
     (let count = window_count WEEKLY_WINDOW_SECS (now_epoch ctx) (weekly_call_timestamps ctx) in
      if count \<ge> limit
      then Deny ''weekly_rate'' (Fmt ''{} calls in last 7 days reached weekly limit {}''
             [AWord count, AWord limit])
      else Allow)"

definition concurrency_evaluate :: "u32 \<Rightarrow> evaluation_context \<Rightarrow> verdict" where
  "concurrency_evaluate cap ctx =
     (if in_flight_actions ctx \<ge> cap
      then Deny ''concurrency'' (Fmt ''{} in-flight actions reached concurrency cap {}''
             [AWord (in_flight_actions ctx), AWord cap])
      else Allow)"

definition cooldown_evaluate :: "u64 \<Rightarrow> evaluation_context \<Rightarrow> verdict" where
  "cooldown_evaluate secs ctx =
     (case last_action_at ctx of
        None \<Rightarrow> Allow
      | Some prev \<Rightarrow>
          let gap = i64_saturating_sub (now_epoch ctx) prev in
          if gap < sint secs
          then Deny ''cooldown''
                 (Fmt ''only {gap}s since previous action; cooldown requires {}s''
                   [AInt gap, AWord secs])
          else Allow)"

definition time_from_window ::
  "externs \<Rightarrow> time_window_cfg \<Rightarrow> (policy_parse_error, string \<times> string \<times> string) result" where
  "time_from_window X tw =
     and_then (validate_hhmm X (tw_start tw)) (\<lambda>_.
     and_then (validate_hhmm X (tw_end tw)) (\<lambda>_.
     Ok (tw_start tw, tw_end tw, tw_timezone tw)))"

text \<open>Both bounds are inclusive; a window that ends before it starts wraps over midnight.\<close>

definition in_window :: "string \<Rightarrow> string \<Rightarrow> string \<Rightarrow> bool" where
  "in_window start stop hhmm =
     (if start \<le> stop then hhmm \<ge> start \<and> hhmm \<le> stop else hhmm \<ge> start \<or> hhmm \<le> stop)"

definition time_evaluate :: "string \<Rightarrow> string \<Rightarrow> string \<Rightarrow> evaluation_context \<Rightarrow> verdict" where
  "time_evaluate start stop tz ctx =
     (if in_window start stop (now_tz_hhmm ctx) then Allow
      else Deny ''time_window'' (Fmt ''current time {} ({}) outside window [{}, {}]''
             [AStr (now_tz_hhmm ctx), AStr tz, AStr start, AStr stop]))"

type_synonym weekday_map = "u8 \<Rightarrow> (string \<times> string) option"

fun windows_insert :: "externs \<Rightarrow> (u8 \<times> string \<times> string) list \<Rightarrow> weekday_map \<Rightarrow>
  (policy_parse_error, weekday_map) result" where
  "windows_insert X [] m = Ok m"
| "windows_insert X ((wd, start, stop) # ws) m =
     and_then (validate_hhmm X start) (\<lambda>_.
     and_then (validate_hhmm X stop) (\<lambda>_.
     windows_insert X ws (m(wd \<mapsto> (start, stop)))))"

definition business_hours_from_config ::
  "externs \<Rightarrow> business_hours_cfg \<Rightarrow> (policy_parse_error, weekday_map \<times> string) result" where
  "business_hours_from_config X bh =
     and_then (windows_insert X (weekday_windows bh) Map.empty) (\<lambda>m. Ok (m, bh_timezone bh))"

definition business_hours_evaluate ::
  "weekday_map \<Rightarrow> string \<Rightarrow> evaluation_context \<Rightarrow> verdict" where
  "business_hours_evaluate windows tz ctx =
     (case windows (now_weekday ctx) of
        Some (s, e) \<Rightarrow>
          if in_window s e (now_tz_hhmm ctx) then Allow
          else Deny ''business_hours''
                 (Fmt ''current time {} ({}) outside business hours [{}, {}] on weekday {}''
                   [AStr (now_tz_hhmm ctx), AStr tz, AStr s, AStr e, AWord (now_weekday ctx)])
      | None \<Rightarrow> Deny ''business_hours'' (Fmt ''weekday {} not configured as a business day''
             [AWord (now_weekday ctx)]))"

definition holiday_blackout_evaluate :: "string set \<Rightarrow> evaluation_context \<Rightarrow> verdict" where
  "holiday_blackout_evaluate dates ctx =
     (if now_date_yyyy_mm_dd ctx = [] then Allow
      else if now_date_yyyy_mm_dd ctx \<in> dates
      then Deny ''holiday_blackout'' (Fmt ''{} is on holiday blackout''
             [AStr (now_date_yyyy_mm_dd ctx)])
      else Allow)"

section \<open>Signatures and delegation\<close>

definition signature_bears_role :: "string \<Rightarrow> string \<Rightarrow> bool" where
  "signature_bears_role sig role \<longleftrightarrow>
     sig = role \<or>
     (case strip_prefix sig role of
        None \<Rightarrow> False
      | Some rest \<Rightarrow> prefix '':'' rest \<and> length rest > 1)"

definition distinct_role_signatures :: "string list \<Rightarrow> string \<Rightarrow> u32" where
  "distinct_role_signatures sigs role =
     of_nat (card (set (filter (\<lambda>s. signature_bears_role s role) sigs)))"

fun signature_evaluate ::
  "signature_requirement list \<Rightarrow> evaluation_context \<Rightarrow> verdict" where
  "signature_evaluate [] ctx = Allow"
| "signature_evaluate (req # reqs) ctx =
     (let got = distinct_role_signatures (signatures (ctx_action ctx)) (sr_role req) in
      if got < sr_threshold req
      then Deny ''signatures'' (Fmt ''role '{}' has {} of {} required distinct signatures''
             [AStr (sr_role req), AWord got, AWord (sr_threshold req)])
      else signature_evaluate reqs ctx)"

datatype threshold_kind = DelegationDepth

fun threshold_kind_name :: "threshold_kind \<Rightarrow> string" where
  "threshold_kind_name DelegationDepth = ''delegation_depth''"

definition threshold_evaluate :: "threshold_kind \<Rightarrow> u32 \<Rightarrow> evaluation_context \<Rightarrow> verdict" where
  "threshold_evaluate kind limit ctx =
     (let value = (case kind of DelegationDepth \<Rightarrow> delegation_depth (ctx_action ctx)) in
      if value > limit
      then Deny (threshold_kind_name kind) (Fmt ''{} = {} exceeds max {}''
             [AStr (threshold_kind_name kind), AWord value, AWord limit])
      else Allow)"

section \<open>Per-action metadata\<close>

definition payload_size_evaluate :: "u64 \<Rightarrow> evaluation_context \<Rightarrow> verdict" where
  "payload_size_evaluate max_bytes ctx =
     (case meta_u64 ctx ''payload_bytes'' of
        None \<Rightarrow> Allow
      | Some bytes \<Rightarrow>
          if bytes > max_bytes
          then Deny ''payload_size'' (Fmt ''payload {bytes} bytes exceeds max {} bytes''
                 [AWord bytes, AWord max_bytes])
          else Allow)"

definition content_type_evaluate :: "string set \<Rightarrow> evaluation_context \<Rightarrow> verdict" where
  "content_type_evaluate allowed ctx =
     (case meta_str ctx ''content_type'' of
        None \<Rightarrow> Deny ''content_type_allowlist'' (Msg ''action.metadata.content_type missing'')
      | Some raw \<Rightarrow>
          let ct = to_ascii_lowercase (trim (hd (split_on (CHR '';'') raw))) in
          if ct \<in> allowed then Allow
          else Deny ''content_type_allowlist'' (Fmt ''content type '{ct}' not in allowlist''
                 [AStr ct]))"

definition recipient_count_evaluate :: "u32 \<Rightarrow> evaluation_context \<Rightarrow> verdict" where
  "recipient_count_evaluate cap ctx =
     (case meta_u64 ctx ''recipient_count'' of
        None \<Rightarrow> Allow
      | Some n \<Rightarrow>
          if n > ucast cap
          then Deny ''recipient_count'' (Fmt ''{} recipients exceeds max {}''
                 [AWord n, AWord cap])
          else Allow)"

definition chain_depth_evaluate :: "u32 \<Rightarrow> evaluation_context \<Rightarrow> verdict" where
  "chain_depth_evaluate cap ctx =
     (let depth = (case meta_u64 ctx ''chain_depth'' of None \<Rightarrow> 0 | Some d \<Rightarrow> d) in
      if depth > ucast cap
      then Deny ''chain_depth'' (Fmt ''chain_depth {depth} exceeds max {}''
             [AWord depth, AWord cap])
      else Allow)"

text \<open>The two fallback patterns of the payload scan, as given to the \<open>regex\<close> crate.\<close>

definition EMAIL_RE :: string where
  "EMAIL_RE = ''(?i)'' @ [CHR 0x5C] @ ''b[a-z0-9._%+-]+@[a-z0-9.-]+'' @ [CHR 0x5C] @ ''.[a-z]{2,}'' @
     [CHR 0x5C] @ ''b''"

definition SSN_RE :: string where
  "SSN_RE = [CHR 0x5C] @ ''b'' @ [CHR 0x5C] @ ''d{3}-'' @ [CHR 0x5C] @ ''d{2}-'' @ [CHR 0x5C] @
     ''d{4}'' @ [CHR 0x5C] @ ''b''"

definition pii_detection_evaluate :: "externs \<Rightarrow> evaluation_context \<Rightarrow> verdict" where
  "pii_detection_evaluate X ctx =
     (if meta_bool ctx ''pii_detected'' = Some True
      then Deny ''pii_detection'' (Msg ''action.metadata.pii_detected is true'')
      else case meta_str ctx ''payload'' of
        None \<Rightarrow> Allow
      | Some payload \<Rightarrow>
          if re_is_match X EMAIL_RE payload
          then Deny ''pii_detection'' (Msg ''payload contains email-like pattern'')
          else if re_is_match X SSN_RE payload
          then Deny ''pii_detection'' (Msg ''payload contains SSN-like pattern'')
          else Allow)"

definition language_allowlist_evaluate :: "string set \<Rightarrow> evaluation_context \<Rightarrow> verdict" where
  "language_allowlist_evaluate allowed ctx =
     (case meta_str ctx ''detected_language'' of
        None \<Rightarrow> Deny ''language_allowlist'' (Msg ''action.metadata.detected_language missing'')
      | Some raw \<Rightarrow>
          let code = to_ascii_lowercase raw in
          if code \<in> allowed then Allow
          else Deny ''language_allowlist'' (Fmt ''language '{code}' not in allowlist'' [AStr code]))"

definition uppercase_set :: "string list \<Rightarrow> string set" where
  "uppercase_set xs = set (map to_ascii_uppercase xs)"

definition currency_allowlist_evaluate :: "string set \<Rightarrow> evaluation_context \<Rightarrow> verdict" where
  "currency_allowlist_evaluate allowed ctx =
     (case meta_str ctx ''currency'' of
        None \<Rightarrow> Deny ''currency_allowlist'' (Msg ''action.metadata.currency missing'')
      | Some raw \<Rightarrow>
          let code = to_ascii_uppercase raw in
          if code \<in> allowed then Allow
          else Deny ''currency_allowlist'' (Fmt ''currency '{code}' not in allowlist'' [AStr code]))"

definition geo_restriction_evaluate ::
  "string set \<Rightarrow> string set \<Rightarrow> evaluation_context \<Rightarrow> verdict" where
  "geo_restriction_evaluate allow deny ctx =
     (let country = map_option to_ascii_uppercase (meta_str ctx ''client_country'') in
      case country of
        Some c \<Rightarrow>
          if c \<in> deny
          then Deny ''geo_restriction'' (Fmt ''country '{c}' on geo deny list'' [AStr c])
          else if allow \<noteq> {} \<and> c \<notin> allow
          then Deny ''geo_restriction'' (Fmt ''country '{c}' not in geo allow list'' [AStr c])
          else Allow
      | None \<Rightarrow>
          if allow \<noteq> {}
          then Deny ''geo_restriction'' (Msg ''action.metadata.client_country missing'')
          else Allow)"

definition version_pin_evaluate :: "string \<Rightarrow> evaluation_context \<Rightarrow> verdict" where
  "version_pin_evaluate pinned ctx =
     (case meta_str ctx ''agent_version'' of
        None \<Rightarrow> Deny ''version_pin'' (Msg ''action.metadata.agent_version missing'')
      | Some v \<Rightarrow>
          if v = pinned then Allow
          else Deny ''version_pin''
                 (Fmt (''agent_version '{v}' does not match pinned '{}'' @ [CHR 0x27])
                   [AStr v, AStr pinned]))"

definition dry_run_evaluate :: "evaluation_context \<Rightarrow> verdict" where
  "dry_run_evaluate ctx = Allow"

definition data_flow_evaluate :: "evaluation_context \<Rightarrow> verdict" where
  "data_flow_evaluate ctx = Deny ''data_flow'' (Msg
     ''data-flow tracking is not implemented; refusing to treat an unknown flow as safe'')"

section \<open>The trait object\<close>

datatype invariant_check =
    BudgetCheck f64
  | ScopeCheck "string list" "string list"
  | AllowlistCheck "string set"
  | RateCheck u32
  | TimeCheck string string string
  | SignatureCheck "signature_requirement list"
  | ThresholdCheck threshold_kind u32
  | DomainDenylistCheck "string set"
  | DomainAllowlistCheck "string set"
  | ToolDenylistCheck "string set"
  | DailyBudgetCheck f64
  | PerActionCapCheck f64
  | WeeklyRateCheck u32
  | ConcurrencyCheck u32
  | CooldownCheck u64
  | PayloadSizeCheck u64
  | ContentTypeCheck "string set"
  | RecipientCountCheck u32
  | ChainDepthCheck u32
  | PiiDetectionCheck
  | LanguageAllowlistCheck "string set"
  | CurrencyAllowlistCheck "string set"
  | GeoRestrictionCheck "string set" "string set"
  | BusinessHoursCheck weekday_map string
  | HolidayBlackoutCheck "string set"
  | VersionPinCheck string
  | DryRunCheck
  | DataFlowCheck

fun invariant_name :: "invariant_check \<Rightarrow> string" where
  "invariant_name (BudgetCheck _) = ''budget''"
| "invariant_name (ScopeCheck _ _) = ''scope''"
| "invariant_name (AllowlistCheck _) = ''allowlist''"
| "invariant_name (RateCheck _) = ''rate_limit''"
| "invariant_name (TimeCheck _ _ _) = ''time_window''"
| "invariant_name (SignatureCheck _) = ''signatures''"
| "invariant_name (ThresholdCheck k _) = threshold_kind_name k"
| "invariant_name (DomainDenylistCheck _) = ''domain_denylist''"
| "invariant_name (DomainAllowlistCheck _) = ''domain_allowlist''"
| "invariant_name (ToolDenylistCheck _) = ''tool_denylist''"
| "invariant_name (DailyBudgetCheck _) = ''daily_budget''"
| "invariant_name (PerActionCapCheck _) = ''per_action_cap''"
| "invariant_name (WeeklyRateCheck _) = ''weekly_rate''"
| "invariant_name (ConcurrencyCheck _) = ''concurrency''"
| "invariant_name (CooldownCheck _) = ''cooldown''"
| "invariant_name (PayloadSizeCheck _) = ''payload_size''"
| "invariant_name (ContentTypeCheck _) = ''content_type_allowlist''"
| "invariant_name (RecipientCountCheck _) = ''recipient_count''"
| "invariant_name (ChainDepthCheck _) = ''chain_depth''"
| "invariant_name PiiDetectionCheck = ''pii_detection''"
| "invariant_name (LanguageAllowlistCheck _) = ''language_allowlist''"
| "invariant_name (CurrencyAllowlistCheck _) = ''currency_allowlist''"
| "invariant_name (GeoRestrictionCheck _ _) = ''geo_restriction''"
| "invariant_name (BusinessHoursCheck _ _) = ''business_hours''"
| "invariant_name (HolidayBlackoutCheck _) = ''holiday_blackout''"
| "invariant_name (VersionPinCheck _) = ''version_pin''"
| "invariant_name DryRunCheck = ''dry_run''"
| "invariant_name DataFlowCheck = ''data_flow''"

fun invariant_evaluate :: "externs \<Rightarrow> invariant_check \<Rightarrow> evaluation_context \<Rightarrow> verdict" where
  "invariant_evaluate X (BudgetCheck m) ctx = budget_evaluate m ctx"
| "invariant_evaluate X (ScopeCheck a d) ctx = scope_evaluate a d ctx"
| "invariant_evaluate X (AllowlistCheck ts) ctx = allowlist_evaluate ts ctx"
| "invariant_evaluate X (RateCheck n) ctx = rate_evaluate n ctx"
| "invariant_evaluate X (TimeCheck s e tz) ctx = time_evaluate s e tz ctx"
| "invariant_evaluate X (SignatureCheck reqs) ctx = signature_evaluate reqs ctx"
| "invariant_evaluate X (ThresholdCheck k n) ctx = threshold_evaluate k n ctx"
| "invariant_evaluate X (DomainDenylistCheck ds) ctx = domain_denylist_evaluate ds ctx"
| "invariant_evaluate X (DomainAllowlistCheck ds) ctx = domain_allowlist_evaluate ds ctx"
| "invariant_evaluate X (ToolDenylistCheck ts) ctx = tool_denylist_evaluate ts ctx"
| "invariant_evaluate X (DailyBudgetCheck m) ctx = daily_budget_evaluate m ctx"
| "invariant_evaluate X (PerActionCapCheck m) ctx = per_action_cap_evaluate m ctx"
| "invariant_evaluate X (WeeklyRateCheck n) ctx = weekly_rate_evaluate n ctx"
| "invariant_evaluate X (ConcurrencyCheck n) ctx = concurrency_evaluate n ctx"
| "invariant_evaluate X (CooldownCheck n) ctx = cooldown_evaluate n ctx"
| "invariant_evaluate X (PayloadSizeCheck n) ctx = payload_size_evaluate n ctx"
| "invariant_evaluate X (ContentTypeCheck cs) ctx = content_type_evaluate cs ctx"
| "invariant_evaluate X (RecipientCountCheck n) ctx = recipient_count_evaluate n ctx"
| "invariant_evaluate X (ChainDepthCheck n) ctx = chain_depth_evaluate n ctx"
| "invariant_evaluate X PiiDetectionCheck ctx = pii_detection_evaluate X ctx"
| "invariant_evaluate X (LanguageAllowlistCheck ls) ctx = language_allowlist_evaluate ls ctx"
| "invariant_evaluate X (CurrencyAllowlistCheck cs) ctx = currency_allowlist_evaluate cs ctx"
| "invariant_evaluate X (GeoRestrictionCheck a d) ctx = geo_restriction_evaluate a d ctx"
| "invariant_evaluate X (BusinessHoursCheck ws tz) ctx = business_hours_evaluate ws tz ctx"
| "invariant_evaluate X (HolidayBlackoutCheck ds) ctx = holiday_blackout_evaluate ds ctx"
| "invariant_evaluate X (VersionPinCheck v) ctx = version_pin_evaluate v ctx"
| "invariant_evaluate X DryRunCheck ctx = dry_run_evaluate ctx"
| "invariant_evaluate X DataFlowCheck ctx = data_flow_evaluate ctx"

lemmas invariant_evaluate_defs =
  budget_evaluate_def scope_evaluate_def allowlist_evaluate_def rate_evaluate_def
  time_evaluate_def threshold_evaluate_def domain_denylist_evaluate_def
  domain_allowlist_evaluate_def tool_denylist_evaluate_def daily_budget_evaluate_def
  per_action_cap_evaluate_def weekly_rate_evaluate_def concurrency_evaluate_def
  cooldown_evaluate_def payload_size_evaluate_def content_type_evaluate_def
  recipient_count_evaluate_def chain_depth_evaluate_def pii_detection_evaluate_def
  language_allowlist_evaluate_def currency_allowlist_evaluate_def geo_restriction_evaluate_def
  business_hours_evaluate_def holiday_blackout_evaluate_def version_pin_evaluate_def
  dry_run_evaluate_def data_flow_evaluate_def

lemma signature_evaluate_name: "signature_evaluate reqs ctx = Deny n r \<Longrightarrow> n = ''signatures''"
  by (induction reqs) (auto simp: Let_def split: if_splits)

text \<open>A deny carries the name of the check that produced it.\<close>

lemma invariant_evaluate_name: "invariant_evaluate X c ctx = Deny n r \<Longrightarrow> n = invariant_name c"
  by (cases c)
     (auto simp: invariant_evaluate_defs Let_def split: if_splits option.splits
       dest: signature_evaluate_name)

end
