(* ===== verification/Expr_Lexer.thy ===== *)
theory Expr_Lexer
  imports Values
begin

text \<open>
  The lexer of invariant expressions, \<open>policy/expressions/lexer.rs\<close>.  The index
  loop over the bytes is a recursion on the remaining bytes that carries the byte
  offset; a token consumes its first byte and a number of further bytes.
\<close>

datatype bin_op = Eq | Neq | Lt | Lte | Gt | Gte | Add | Sub | And | Or

datatype unary_op = Not | Neg

datatype token =
    TIdent string
  | TNum f64
  | TStr string
  | TLParen
  | TRParen
  | TLBracket
  | TRBracket
  | TComma
  | TColon
  | TOp bin_op
  | TIn
  | TAnd
  | TOr
  | TNot
  | TTrue
  | TFalse
  | TEof

type_synonym token_with_pos = "token \<times> nat"

datatype lex_error =
    UnexpectedChar char nat
  | UnterminatedString nat
  | InvalidNumber string nat

fun lex_error_display :: "lex_error \<Rightarrow> msg" where
  "lex_error_display (UnexpectedChar ch pos) =
     Fmt ''unexpected character '{ch}' at byte {pos}'' [AStr [ch], AInt (int pos)]"
| "lex_error_display (UnterminatedString pos) =
     Fmt ''unterminated string literal starting at byte {pos}'' [AInt (int pos)]"
| "lex_error_display (InvalidNumber src pos) =
     Fmt ''invalid numeric literal '{src}' at byte {pos}'' [AStr src, AInt (int pos)]"

text \<open>\<open>char::is_ascii_whitespace\<close>: space, tab, line feed, form feed, carriage return.\<close>

definition is_ascii_whitespace :: "char \<Rightarrow> bool" where
  "is_ascii_whitespace c \<longleftrightarrow> byte c \<in> {32, 9, 10, 12, 13}"

definition is_ident_start :: "char \<Rightarrow> bool" where
  "is_ident_start c \<longleftrightarrow> is_ascii_alphabetic c \<or> c = CHR ''_''"

definition is_ident_char :: "char \<Rightarrow> bool" where
  "is_ident_char c \<longleftrightarrow> is_ascii_alphanumeric c \<or> c = CHR ''_''"

definition is_number_char :: "char \<Rightarrow> bool" where
  "is_number_char c \<longleftrightarrow> is_ascii_digit c \<or> c = CHR ''.''"

text \<open>The further segments of a dotted identifier, from the byte after its first segment.\<close>

function dotted :: "string \<Rightarrow> string" where
  "dotted s =
     (case s of
        dot # d # r \<Rightarrow>
          if dot = CHR ''.'' \<and> is_ident_start d
          then dot # takeWhile is_ident_char (d # r) @ dotted (dropWhile is_ident_char (d # r))
          else []
      | _ \<Rightarrow> [])"
  by pat_completeness auto
termination
  by (relation "measure length")
     (auto simp: less_Suc_eq_le intro: le_SucI length_dropWhile_le
       intro: order_trans [OF length_dropWhile_le])

declare dotted.simps [simp del]

text \<open>
  \<open>str::parse::<f64>\<close> on a run of digits and dots that starts with a digit: at most
  one dot, and the value is the correctly rounded decimal.
\<close>

fun digits_value :: "int \<Rightarrow> string \<Rightarrow> int" where
  "digits_value acc [] = acc"
| "digits_value acc (c # cs) = digits_value (acc * 10 + int (byte c) - 48) cs"

definition parse_f64 :: "string \<Rightarrow> f64 option" where
  "parse_f64 raw =
     (case split_on (CHR ''.'') raw of
        [w] \<Rightarrow> Some (f64_of_decimal (digits_value 0 w) 0)
      | [w, f] \<Rightarrow> Some (f64_of_decimal (digits_value 0 (w @ f)) (length f))
      | _ \<Rightarrow> None)"

definition keyword_or_ident :: "string \<Rightarrow> token" where
  "keyword_or_ident word =
     (if word = ''true'' then TTrue
      else if word = ''false'' then TFalse
      else if word = ''and'' then TAnd
      else if word = ''or'' then TOr
      else if word = ''not'' then TNot
      else if word = ''in'' then TIn
      else TIdent word)"

text \<open>A two-byte operator if \<open>next\<close> follows, and what the first byte means on its own.\<close>

definition two_byte ::
  "char \<Rightarrow> string \<Rightarrow> token \<Rightarrow> (lex_error, token \<times> nat) result \<Rightarrow> (lex_error, token \<times> nat) result"
where
  "two_byte follow cs tok alone = (if cs \<noteq> [] \<and> hd cs = follow then Ok (tok, 1) else alone)"

text \<open>
  The token that starts with byte \<open>c\<close> at offset \<open>pos\<close>, \<open>cs\<close> being the bytes after
  it, with the number of bytes of \<open>cs\<close> it consumes.
\<close>

definition lex_token :: "nat \<Rightarrow> char \<Rightarrow> string \<Rightarrow> (lex_error, token \<times> nat) result" where
  "lex_token pos c cs =
     (if c = CHR ''('' then Ok (TLParen, 0)
      else if c = CHR '')'' then Ok (TRParen, 0)
      else if c = CHR ''['' then Ok (TLBracket, 0)
      else if c = CHR '']'' then Ok (TRBracket, 0)
      else if c = CHR '','' then Ok (TComma, 0)
      else if c = CHR '':'' then Ok (TColon, 0)
      else if c = CHR ''+'' then Ok (TOp Add, 0)
      else if c = CHR ''-'' then Ok (TOp Sub, 0)
      else if c = CHR ''='' then two_byte (CHR ''='') cs (TOp Eq) (Err (UnexpectedChar c pos))
      else if c = CHR ''!'' then two_byte (CHR ''='') cs (TOp Neq) (Ok (TNot, 0))
      else if c = CHR ''<'' then two_byte (CHR ''='') cs (TOp Lte) (Ok (TOp Lt, 0))
      else if c = CHR ''>'' then two_byte (CHR ''='') cs (TOp Gte) (Ok (TOp Gt, 0))
      else if c = CHR ''&'' then two_byte (CHR ''&'') cs TAnd (Err (UnexpectedChar c pos))
      else if c = CHR ''|'' then two_byte (CHR ''|'') cs TOr (Err (UnexpectedChar c pos))
      else if c = CHR 0x27 then
        let body = takeWhile (\<lambda>x. x \<noteq> CHR 0x27) cs in
        if length body = length cs then Err (UnterminatedString pos)
        else Ok (TStr body, length body + 1)
      else if is_ascii_digit c then
        let raw = takeWhile is_number_char (c # cs) in
        (case parse_f64 raw of
           None \<Rightarrow> Err (InvalidNumber raw pos)
         | Some n \<Rightarrow> Ok (TNum n, length raw - 1))
      else if is_ident_start c then
        let seg = takeWhile is_ident_char (c # cs);
            word = seg @ dotted (drop (length seg) (c # cs)) in
        Ok (keyword_or_ident word, length word - 1)
      else Err (UnexpectedChar c pos))"

function lex_from :: "nat \<Rightarrow> string \<Rightarrow> (lex_error, token_with_pos list) result" where
  "lex_from pos [] = Ok [(TEof, pos)]"
| "lex_from pos (c # cs) =
     (if is_ascii_whitespace c then lex_from (pos + 1) cs
      else case lex_token pos c cs of
        Inl e \<Rightarrow> Err e
      | Inr (tok, n) \<Rightarrow>
          (case lex_from (pos + 1 + n) (drop n cs) of
             Inl e \<Rightarrow> Err e
           | Inr ts \<Rightarrow> Ok ((tok, pos) # ts)))"
  by pat_completeness auto
termination
  by (relation "measure (\<lambda>(pos, s). length s)") auto

definition lex :: "string \<Rightarrow> (lex_error, token_with_pos list) result" where
  "lex input = lex_from 0 input"

section \<open>Shape of a token stream\<close>

text \<open>
  A token stream of a source of \<open>n\<close> bytes: one \<open>Eof\<close> sentinel, at the end and at
  offset \<open>n\<close>, after tokens whose offsets increase strictly.
\<close>

definition token_stream :: "nat \<Rightarrow> token_with_pos list \<Rightarrow> bool" where
  "token_stream n ts \<longleftrightarrow>
     (\<exists>body. ts = body @ [(TEof, n)] \<and> TEof \<notin> fst ` set body \<and>
        sorted_wrt (<) (map snd ts))"

lemma lex_token_not_Eof: "lex_token pos c cs = Ok (tok, n) \<Longrightarrow> tok \<noteq> TEof"
  by (auto simp: lex_token_def two_byte_def keyword_or_ident_def Let_def
      split: if_splits option.splits)

lemma length_dotted: "length (dotted s) \<le> length s"
proof (induction s rule: dotted.induct)
  case (1 s)
  show ?case
  proof (cases "\<exists>d r. s = CHR ''.'' # d # r \<and> is_ident_start d")
    case True
    then obtain d r where s: "s = CHR ''.'' # d # r" and d: "is_ident_start d"
      by blast
    have "length (dotted (dropWhile is_ident_char (d # r))) \<le> length (dropWhile is_ident_char (d # r))"
      using 1 [OF s refl] d by simp
    moreover have "length (takeWhile is_ident_char (d # r)) + length (dropWhile is_ident_char (d # r))
        = length (d # r)"
      by (metis length_append takeWhile_dropWhile_id)
    ultimately have "length (takeWhile is_ident_char (d # r)) +
        length (dotted (dropWhile is_ident_char (d # r))) \<le> length (d # r)"
      by linarith
    then show ?thesis
      using d by (subst dotted.simps) (simp add: s del: dropWhile.simps takeWhile.simps)
  next
    case False
    then show ?thesis
      by (subst dotted.simps) (auto split: list.splits if_splits)
  qed
qed

lemma lex_token_consumes:
  assumes "lex_token pos c cs = Ok (tok, n)"
  shows "n \<le> length cs"
proof -
  have seg: "length (takeWhile P xs) - Suc 0 \<le> length ys" if "length xs = Suc (length ys)" for P and xs ys :: string
    using length_takeWhile_le [of P xs] that by simp
  have word: "length (takeWhile P xs @ dotted (drop (length (takeWhile P xs)) xs)) - Suc 0 \<le> length ys"
    if "length xs = Suc (length ys)" for P and xs ys :: string
    using length_dotted [of "drop (length (takeWhile P xs)) xs"] length_takeWhile_le [of P xs] that
    by simp
  show ?thesis
    using assms seg [of "c # cs" cs] word [of "c # cs" cs] length_takeWhile_le [of _ cs]
    by (auto simp: lex_token_def two_byte_def Let_def Suc_le_eq le_neq_implies_less
        simp del: takeWhile.simps split: if_splits option.splits)
qed

lemma lex_from_stream:
  "lex_from pos s = Ok ts \<Longrightarrow>
     token_stream (pos + length s) ts \<and> (\<forall>t \<in> set ts. pos \<le> snd t)"
proof (induction pos s arbitrary: ts rule: lex_from.induct)
  case (1 pos)
  then show ?case
    by (auto simp: token_stream_def)
next
  case (2 pos c cs)
  show ?case
  proof (cases "is_ascii_whitespace c")
    case True
    then show ?thesis
      using 2 by force
  next
    case False
    with 2 obtain tok n ts' where
      tok: "lex_token pos c cs = Ok (tok, n)" and
      rest: "lex_from (pos + 1 + n) (drop n cs) = Ok ts'" and ts: "ts = (tok, pos) # ts'"
      by (auto split: sum.splits)
    have IH: "token_stream (pos + 1 + n + length (drop n cs)) ts'" "\<forall>t \<in> set ts'. pos + 1 + n \<le> snd t"
      using 2(2) [OF False tok refl rest] by simp_all
    have "pos + 1 + n + length (drop n cs) = pos + length (c # cs)"
      using lex_token_consumes [OF tok] by simp
    with IH obtain body where "ts' = body @ [(TEof, pos + length (c # cs))]" "TEof \<notin> fst ` set body"
        "sorted_wrt (<) (map snd ts')"
      by (auto simp: token_stream_def)
    then have "ts = ((tok, pos) # body) @ [(TEof, pos + length (c # cs))]"
        "TEof \<notin> fst ` set ((tok, pos) # body)" "sorted_wrt (<) (map snd ts)"
      using ts lex_token_not_Eof [OF tok] IH(2) by (auto simp: less_eq_Suc_le)
    then show ?thesis
      using IH(2) ts unfolding token_stream_def by fastforce
  qed
qed

end
