(* ===== verification/Expr_Parser.thy ===== *)
theory Expr_Parser
  imports Expr_Lexer
begin

text \<open>
  The recursive-descent parser of invariant expressions,
  \<open>policy/expressions/parser.rs\<close>.  The parser state, a token vector and an index,
  is the suffix of the tokens from the index on.  Reading past its end, which would
  be an index panic, is the outcome \<open>Panic\<close>; the recursion carries fuel, and
  running out of it is the outcome \<open>Diverge\<close>.  \<open>parse\<close> supplies fuel for
  every input, and neither outcome is ever produced.
\<close>

datatype expr =
    EIdent string
  | ENum f64
  | EStr string
  | EBool bool
  | EList "expr list"
  | EBinary bin_op expr expr
  | EUnary unary_op expr
  | EIn expr expr
  | ECall string "(string option \<times> expr) list"

text \<open>The token an error found is kept as such; the source prints its debug form.\<close>

datatype parse_error =
    LexFailed lex_error
  | Expected string token nat
  | UnexpectedEof nat
  | PositionalAfterKwarg nat
  | InRhsNotList nat

fun token_display :: "token \<Rightarrow> arg" where
  "token_display (TIdent s) = AMsg (Fmt ''Ident({:?})'' [AStr s])"
| "token_display (TNum x) = AMsg (Fmt ''Num({:?})'' [AF64 x])"
| "token_display (TStr s) = AMsg (Fmt ''Str({:?})'' [AStr s])"
| "token_display TLParen = AStr ''LParen''"
| "token_display TRParen = AStr ''RParen''"
| "token_display TLBracket = AStr ''LBracket''"
| "token_display TRBracket = AStr ''RBracket''"
| "token_display TComma = AStr ''Comma''"
| "token_display TColon = AStr ''Colon''"
| "token_display (TOp b) = AStr (case b of
      Eq \<Rightarrow> ''Op(Eq)'' | Neq \<Rightarrow> ''Op(Neq)'' | Lt \<Rightarrow> ''Op(Lt)'' | Lte \<Rightarrow> ''Op(Lte)''
    | Gt \<Rightarrow> ''Op(Gt)'' | Gte \<Rightarrow> ''Op(Gte)'' | Add \<Rightarrow> ''Op(Add)'' | Sub \<Rightarrow> ''Op(Sub)''
    | And \<Rightarrow> ''Op(And)'' | Or \<Rightarrow> ''Op(Or)'')"
| "token_display TIn = AStr ''In''"
| "token_display TAnd = AStr ''And''"
| "token_display TOr = AStr ''Or''"
| "token_display TNot = AStr ''Not''"
| "token_display TTrue = AStr ''True''"
| "token_display TFalse = AStr ''False''"
| "token_display TEof = AStr ''Eof''"

fun parse_error_display :: "parse_error \<Rightarrow> msg" where
  "parse_error_display (LexFailed e) = Fmt ''lex error: {e}'' [AMsg (lex_error_display e)]"
| "parse_error_display (Expected what found pos) =
     Fmt ''expected {what} at byte {pos}, found {found}''
       [AStr what, AInt (int pos), token_display found]"
| "parse_error_display (UnexpectedEof pos) =
     Fmt ''unexpected end of input at byte {pos}'' [AInt (int pos)]"
| "parse_error_display (PositionalAfterKwarg pos) =
     Fmt ''positional argument after keyword argument at byte {pos}'' [AInt (int pos)]"
| "parse_error_display (InRhsNotList pos) =
     Fmt ''right-hand side of `in` must be a list/tuple at byte {pos}'' [AInt (int pos)]"

section \<open>Parser outcomes\<close>

type_synonym tokens = "token_with_pos list"

datatype 'a outcome = Ret 'a | Fail parse_error | Panic | Diverge

definition obind :: "'a outcome \<Rightarrow> ('a \<Rightarrow> 'b outcome) \<Rightarrow> 'b outcome" where
  "obind r f = (case r of Ret x \<Rightarrow> f x | Fail e \<Rightarrow> Fail e | Panic \<Rightarrow> Panic | Diverge \<Rightarrow> Diverge)"

lemma obind_simps [simp]:
  "obind (Ret x) f = f x"
  "obind (Fail e) f = Fail e"
  "obind Panic f = Panic"
  "obind Diverge f = Diverge"
  by (simp_all add: obind_def)

text \<open>\<open>peek\<close> with what the caller does with the token, \<open>bump\<close>, and \<open>expect\<close>.\<close>

definition with_peek :: "tokens \<Rightarrow> (token \<Rightarrow> 'a outcome) \<Rightarrow> 'a outcome" where
  "with_peek ts f = (case ts of [] \<Rightarrow> Panic | (t, _) # _ \<Rightarrow> f t)"

definition cur_pos :: "tokens \<Rightarrow> nat" where
  "cur_pos ts = (case ts of [] \<Rightarrow> 0 | (_, p) # _ \<Rightarrow> p)"

abbreviation bump :: "tokens \<Rightarrow> tokens" where
  "bump ts \<equiv> tl ts"

definition expect :: "token \<Rightarrow> string \<Rightarrow> tokens \<Rightarrow> tokens outcome" where
  "expect want what ts =
     with_peek ts (\<lambda>t. if t = want then Ret (bump ts) else Fail (Expected what t (cur_pos ts)))"

definition is_cmp :: "bin_op \<Rightarrow> bool" where
  "is_cmp op \<longleftrightarrow> op \<in> {Eq, Neq, Lt, Lte, Gt, Gte}"

definition is_list :: "expr \<Rightarrow> bool" where
  "is_list e = (case e of EList _ \<Rightarrow> True | _ \<Rightarrow> False)"

text \<open>The look-ahead of an argument: an identifier directly before a colon is a keyword.\<close>

definition kwarg_name :: "tokens \<Rightarrow> string option" where
  "kwarg_name ts =
     (case ts of (TIdent n, _) # (TColon, _) # _ \<Rightarrow> Some n | _ \<Rightarrow> None)"

section \<open>The grammar\<close>

text \<open>
  One definition per production, over the parser \<open>P\<close> that answers the calls to the
  other productions; the loops of a production are definitions of their own, which
  carry what the loop has built so far.
\<close>

record parser =
  p_or :: "tokens \<Rightarrow> (expr \<times> tokens) outcome"
  p_or_loop :: "expr \<Rightarrow> tokens \<Rightarrow> (expr \<times> tokens) outcome"
  p_and :: "tokens \<Rightarrow> (expr \<times> tokens) outcome"
  p_and_loop :: "expr \<Rightarrow> tokens \<Rightarrow> (expr \<times> tokens) outcome"
  p_not :: "tokens \<Rightarrow> (expr \<times> tokens) outcome"
  p_cmp :: "tokens \<Rightarrow> (expr \<times> tokens) outcome"
  p_add :: "tokens \<Rightarrow> (expr \<times> tokens) outcome"
  p_add_loop :: "expr \<Rightarrow> tokens \<Rightarrow> (expr \<times> tokens) outcome"
  p_unary :: "tokens \<Rightarrow> (expr \<times> tokens) outcome"
  p_primary :: "tokens \<Rightarrow> (expr \<times> tokens) outcome"
  p_items_loop :: "expr list \<Rightarrow> tokens \<Rightarrow> (expr list \<times> tokens) outcome"
  p_args_loop :: "bool \<Rightarrow> (string option \<times> expr) list \<Rightarrow> tokens \<Rightarrow>
    ((string option \<times> expr) list \<times> tokens) outcome"

definition parse_or :: "parser \<Rightarrow> tokens \<Rightarrow> (expr \<times> tokens) outcome" where
  "parse_or P ts = obind (p_and P ts) (\<lambda>(left, ts1). p_or_loop P left ts1)"

definition or_loop :: "parser \<Rightarrow> expr \<Rightarrow> tokens \<Rightarrow> (expr \<times> tokens) outcome" where
  "or_loop P left ts = with_peek ts (\<lambda>t.
     if t = TOr then
       obind (p_and P (bump ts)) (\<lambda>(right, ts1). p_or_loop P (EBinary Or left right) ts1)
     else Ret (left, ts))"

definition parse_and :: "parser \<Rightarrow> tokens \<Rightarrow> (expr \<times> tokens) outcome" where
  "parse_and P ts = obind (p_not P ts) (\<lambda>(left, ts1). p_and_loop P left ts1)"

definition and_loop :: "parser \<Rightarrow> expr \<Rightarrow> tokens \<Rightarrow> (expr \<times> tokens) outcome" where
  "and_loop P left ts = with_peek ts (\<lambda>t.
     if t = TAnd then
       obind (p_not P (bump ts)) (\<lambda>(right, ts1). p_and_loop P (EBinary And left right) ts1)
     else Ret (left, ts))"

definition parse_not :: "parser \<Rightarrow> tokens \<Rightarrow> (expr \<times> tokens) outcome" where
  "parse_not P ts = with_peek ts (\<lambda>t.
     if t = TNot then obind (p_not P (bump ts)) (\<lambda>(inner, ts1). Ret (EUnary Not inner, ts1))
     else p_cmp P ts)"

definition parse_cmp :: "parser \<Rightarrow> tokens \<Rightarrow> (expr \<times> tokens) outcome" where
  "parse_cmp P ts = obind (p_add P ts) (\<lambda>(left, ts1). with_peek ts1 (\<lambda>t.
     case t of
       TOp op \<Rightarrow>
         if is_cmp op then
           obind (p_add P (bump ts1)) (\<lambda>(right, ts2). Ret (EBinary op left right, ts2))
         else Ret (left, ts1)
     | TIn \<Rightarrow>
         obind (p_add P (bump ts1)) (\<lambda>(right, ts2).
           if \<not> is_list right then Fail (InRhsNotList (cur_pos ts1))
           else Ret (EIn left right, ts2))
     | _ \<Rightarrow> Ret (left, ts1)))"

definition parse_add :: "parser \<Rightarrow> tokens \<Rightarrow> (expr \<times> tokens) outcome" where
  "parse_add P ts = obind (p_unary P ts) (\<lambda>(left, ts1). p_add_loop P left ts1)"

definition add_loop :: "parser \<Rightarrow> expr \<Rightarrow> tokens \<Rightarrow> (expr \<times> tokens) outcome" where
  "add_loop P left ts = with_peek ts (\<lambda>t.
     if t = TOp Add \<or> t = TOp Sub then
       obind (p_unary P (bump ts)) (\<lambda>(right, ts1).
         p_add_loop P (EBinary (if t = TOp Add then Add else Sub) left right) ts1)
     else Ret (left, ts))"

definition parse_unary :: "parser \<Rightarrow> tokens \<Rightarrow> (expr \<times> tokens) outcome" where
  "parse_unary P ts = with_peek ts (\<lambda>t.
     if t = TOp Sub then
       obind (p_unary P (bump ts)) (\<lambda>(inner, ts1). Ret (EUnary Neg inner, ts1))
     else p_primary P ts)"

text \<open>The three compound forms of a primary, from the token after the opening one.\<close>

definition parse_paren :: "parser \<Rightarrow> tokens \<Rightarrow> (expr \<times> tokens) outcome" where
  "parse_paren P ts =
     obind (p_or P ts) (\<lambda>(first, ts1). with_peek ts1 (\<lambda>t.
       if t = TComma then
         obind (p_items_loop P [first] ts1) (\<lambda>(items, ts2).
         obind (expect TRParen '')'' ts2) (\<lambda>ts3. Ret (EList items, ts3)))
       else obind (expect TRParen '')'' ts1) (\<lambda>ts2. Ret (first, ts2))))"

definition parse_bracket :: "parser \<Rightarrow> tokens \<Rightarrow> (expr \<times> tokens) outcome" where
  "parse_bracket P ts = with_peek ts (\<lambda>t.
     obind (if t = TRBracket then Ret ([], ts)
            else obind (p_or P ts) (\<lambda>(first, ts1). p_items_loop P [first] ts1))
       (\<lambda>(items, ts2). obind (expect TRBracket '']'' ts2) (\<lambda>ts3. Ret (EList items, ts3))))"

definition parse_call_args ::
  "parser \<Rightarrow> tokens \<Rightarrow> ((string option \<times> expr) list \<times> tokens) outcome" where
  "parse_call_args P ts = with_peek ts (\<lambda>t.
     if t = TRParen then Ret ([], ts) else p_args_loop P False [] ts)"

definition parse_ident :: "parser \<Rightarrow> string \<Rightarrow> tokens \<Rightarrow> (expr \<times> tokens) outcome" where
  "parse_ident P name ts = with_peek ts (\<lambda>t.
     if t = TLParen then
       obind (parse_call_args P (bump ts)) (\<lambda>(args, ts1).
       obind (expect TRParen '')'' ts1) (\<lambda>ts2. Ret (ECall name args, ts2)))
     else Ret (EIdent name, ts))"

definition parse_primary :: "parser \<Rightarrow> tokens \<Rightarrow> (expr \<times> tokens) outcome" where
  "parse_primary P ts = with_peek ts (\<lambda>t.
     case t of
       TNum v \<Rightarrow> Ret (ENum v, bump ts)
     | TStr v \<Rightarrow> Ret (EStr v, bump ts)
     | TTrue \<Rightarrow> Ret (EBool True, bump ts)
     | TFalse \<Rightarrow> Ret (EBool False, bump ts)
     | TLParen \<Rightarrow> parse_paren P (bump ts)
     | TLBracket \<Rightarrow> parse_bracket P (bump ts)
     | TIdent name \<Rightarrow> parse_ident P name (bump ts)
     | TEof \<Rightarrow> Fail (UnexpectedEof (cur_pos ts))
     | _ \<Rightarrow> Fail (Expected ''expression'' t (cur_pos ts)))"

definition items_loop ::
  "parser \<Rightarrow> expr list \<Rightarrow> tokens \<Rightarrow> (expr list \<times> tokens) outcome" where
  "items_loop P items ts = with_peek ts (\<lambda>t.
     if t = TComma then
       obind (p_or P (bump ts)) (\<lambda>(item, ts1). p_items_loop P (items @ [item]) ts1)
     else Ret (items, ts))"

definition args_loop :: "parser \<Rightarrow> bool \<Rightarrow> (string option \<times> expr) list \<Rightarrow> tokens \<Rightarrow>
  ((string option \<times> expr) list \<times> tokens) outcome" where
  "args_loop P seen_kwarg out ts = with_peek ts (\<lambda>_.
     obind (case kwarg_name ts of
         Some kw \<Rightarrow>
           obind (p_or P (bump (bump ts))) (\<lambda>(v, ts1). Ret (True, out @ [(Some kw, v)], ts1))
       | None \<Rightarrow>
           if seen_kwarg then Fail (PositionalAfterKwarg (cur_pos ts))
           else obind (p_or P ts) (\<lambda>(v, ts1). Ret (seen_kwarg, out @ [(None, v)], ts1)))
       (\<lambda>(seen1, out1, ts1). with_peek ts1 (\<lambda>t.
         if t = TComma then p_args_loop P seen1 out1 (bump ts1) else Ret (out1, ts1))))"

text \<open>The parser whose calls may nest \<open>n\<close> deep.\<close>

primrec parser_at :: "nat \<Rightarrow> parser" where
  "parser_at 0 =
     \<lparr> p_or = \<lambda>_. Diverge, p_or_loop = \<lambda>_ _. Diverge, p_and = \<lambda>_. Diverge,
       p_and_loop = \<lambda>_ _. Diverge, p_not = \<lambda>_. Diverge, p_cmp = \<lambda>_. Diverge,
       p_add = \<lambda>_. Diverge, p_add_loop = \<lambda>_ _. Diverge, p_unary = \<lambda>_. Diverge,
       p_primary = \<lambda>_. Diverge, p_items_loop = \<lambda>_ _. Diverge,
       p_args_loop = \<lambda>_ _ _. Diverge \<rparr>"
| "parser_at (Suc n) =
     (let P = parser_at n in
      \<lparr> p_or = parse_or P, p_or_loop = or_loop P, p_and = parse_and P,
        p_and_loop = and_loop P, p_not = parse_not P, p_cmp = parse_cmp P,
        p_add = parse_add P, p_add_loop = add_loop P, p_unary = parse_unary P,
        p_primary = parse_primary P, p_items_loop = items_loop P,
        p_args_loop = args_loop P \<rparr>)"

declare parser_at.simps(2) [simp del]

lemma parser_at_Suc [simp]:
  "p_or (parser_at (Suc n)) = parse_or (parser_at n)"
  "p_or_loop (parser_at (Suc n)) = or_loop (parser_at n)"
  "p_and (parser_at (Suc n)) = parse_and (parser_at n)"
  "p_and_loop (parser_at (Suc n)) = and_loop (parser_at n)"
  "p_not (parser_at (Suc n)) = parse_not (parser_at n)"
  "p_cmp (parser_at (Suc n)) = parse_cmp (parser_at n)"
  "p_add (parser_at (Suc n)) = parse_add (parser_at n)"
  "p_add_loop (parser_at (Suc n)) = add_loop (parser_at n)"
  "p_unary (parser_at (Suc n)) = parse_unary (parser_at n)"
  "p_primary (parser_at (Suc n)) = parse_primary (parser_at n)"
  "p_items_loop (parser_at (Suc n)) = items_loop (parser_at n)"
  "p_args_loop (parser_at (Suc n)) = args_loop (parser_at n)"
  by (simp_all add: parser_at.simps(2) Let_def)

text \<open>
  \<open>parse_expr\<close> is \<open>parse_or\<close>; the whole input must be consumed.  The depth below
  is enough for every token stream.
\<close>

definition parse_depth :: "tokens \<Rightarrow> nat" where
  "parse_depth ts = 9 * length ts + 9"

definition parse_tokens :: "tokens \<Rightarrow> expr outcome" where
  "parse_tokens toks =
     obind (p_or (parser_at (parse_depth toks)) toks) (\<lambda>(e, ts). with_peek ts (\<lambda>t.
       if t \<noteq> TEof then Fail (Expected ''end of input'' t (cur_pos ts)) else Ret e))"

definition parse :: "string \<Rightarrow> expr outcome" where
  "parse input =
     (case lex input of Inl e \<Rightarrow> Fail (LexFailed e) | Inr toks \<Rightarrow> parse_tokens toks)"

lemmas parser_at_numeral = parser_at_Suc [of "pred_numeral k" for k, folded numeral_eq_Suc]

lemmas parser_eval =
  parser_at_Suc parser_at_numeral parse_or_def or_loop_def parse_and_def and_loop_def
  parse_not_def parse_cmp_def parse_add_def add_loop_def parse_unary_def parse_primary_def
  parse_paren_def parse_bracket_def parse_call_args_def parse_ident_def items_loop_def
  args_loop_def with_peek_def expect_def is_cmp_def cur_pos_def kwarg_name_def is_list_def

section \<open>Totality\<close>

text \<open>
  On a stream that ends in the sentinel no production reads past the end, a
  production consumes at least one token and a loop none or more, and nesting
  \<open>9\<close> deep per token is enough.  \<open>good k d ts r\<close> is the joint invariant of an
  outcome \<open>r\<close> on input \<open>ts\<close>: at least \<open>k\<close> tokens are consumed, and \<open>Diverge\<close> is
  possible only if \<open>d\<close>.
\<close>

definition eof_ended :: "tokens \<Rightarrow> bool" where
  "eof_ended ts \<longleftrightarrow> ts \<noteq> [] \<and> fst (last ts) = TEof"

definition good :: "nat \<Rightarrow> bool \<Rightarrow> tokens \<Rightarrow> ('a \<times> tokens) outcome \<Rightarrow> bool" where
  "good k d ts r \<longleftrightarrow>
     (case r of
        Ret (x, ts1) \<Rightarrow> eof_ended ts1 \<and> length ts1 + k \<le> length ts
      | Fail e \<Rightarrow> True | Panic \<Rightarrow> False | Diverge \<Rightarrow> d)"

lemma good_simps [simp]:
  "good k d ts (Ret (x, ts1)) \<longleftrightarrow> eof_ended ts1 \<and> length ts1 + k \<le> length ts"
  "good k d ts (Fail e)"
  "\<not> good k d ts Panic"
  "good k d ts Diverge \<longleftrightarrow> d"
  by (simp_all add: good_def)

lemma good_bindI:
  assumes "good k d ts r"
    and "d \<Longrightarrow> D"
    and "\<And>x ts1. r = Ret (x, ts1) \<Longrightarrow> eof_ended ts1 \<Longrightarrow> length ts1 + k \<le> length ts \<Longrightarrow>
      good l D ts0 (f (x, ts1))"
  shows "good l D ts0 (obind r f)"
  using assms by (cases r) auto

lemma eof_ended_tl: "eof_ended ((t, p) # ts) \<Longrightarrow> t \<noteq> TEof \<Longrightarrow> eof_ended ts"
  by (auto simp: eof_ended_def split: if_splits)

lemma good_peekI:
  assumes "eof_ended ts"
    and "\<And>t p ts1. ts = (t, p) # ts1 \<Longrightarrow> good k d ts0 (f t)"
  shows "good k d ts0 (with_peek ts f)"
  using assms by (cases ts) (auto simp: eof_ended_def with_peek_def)

lemma good_expectI:
  assumes "eof_ended ts" "want \<noteq> TEof"
    and "\<And>ts1. eof_ended ts1 \<Longrightarrow> length ts1 < length ts \<Longrightarrow> good k d ts0 (f ts1)"
  shows "good k d ts0 (obind (expect want what ts) f)"
proof (cases ts)
  case Nil
  with assms(1) show ?thesis
    by (simp add: eof_ended_def)
next
  case (Cons tp ts1)
  then show ?thesis
    using assms eof_ended_tl [of "fst tp" "snd tp" ts1]
    by (cases tp) (auto simp: expect_def with_peek_def)
qed

lemma eof_ended_bump:
  assumes "eof_ended ts" "ts = (t, p) # ts1" "t \<noteq> TEof"
  shows "eof_ended (bump ts)" "length (bump ts) < length ts"
  using assms eof_ended_tl by auto

lemma good_mono:
  "good k d ts r \<Longrightarrow> (d \<Longrightarrow> D) \<Longrightarrow> length ts + l \<le> length ts0 + k \<Longrightarrow> good l D ts0 r"
  by (auto simp: good_def split: outcome.splits)

text \<open>
  The contract a production relies on: the productions it calls are good.  The
  constants rank the productions that call each other on the same tokens.
\<close>

locale subparser =
  fixes n :: nat and P :: parser
  assumes or_good: "eof_ended ts \<Longrightarrow> good 1 (n < 9 * length ts + 7) ts (p_or P ts)"
    and and_good: "eof_ended ts \<Longrightarrow> good 1 (n < 9 * length ts + 6) ts (p_and P ts)"
    and not_good: "eof_ended ts \<Longrightarrow> good 1 (n < 9 * length ts + 5) ts (p_not P ts)"
    and cmp_good: "eof_ended ts \<Longrightarrow> good 1 (n < 9 * length ts + 4) ts (p_cmp P ts)"
    and add_good: "eof_ended ts \<Longrightarrow> good 1 (n < 9 * length ts + 3) ts (p_add P ts)"
    and unary_good: "eof_ended ts \<Longrightarrow> good 1 (n < 9 * length ts + 2) ts (p_unary P ts)"
    and primary_good: "eof_ended ts \<Longrightarrow> good 1 (n < 9 * length ts + 1) ts (p_primary P ts)"
    and or_loop_good: "eof_ended ts \<Longrightarrow> good 0 (n < 9 * length ts + 1) ts (p_or_loop P e ts)"
    and and_loop_good: "eof_ended ts \<Longrightarrow> good 0 (n < 9 * length ts + 1) ts (p_and_loop P e ts)"
    and add_loop_good: "eof_ended ts \<Longrightarrow> good 0 (n < 9 * length ts + 1) ts (p_add_loop P e ts)"
    and items_loop_good: "eof_ended ts \<Longrightarrow> good 0 (n < 9 * length ts + 1) ts (p_items_loop P es ts)"
    and args_loop_good:
      "eof_ended ts \<Longrightarrow> good 1 (n < 9 * length ts + 8) ts (p_args_loop P b as ts)"
begin

lemma parse_or_good: "eof_ended ts \<Longrightarrow> good 1 (Suc n < 9 * length ts + 7) ts (parse_or P ts)"
  unfolding parse_or_def
  by (rule good_bindI [OF and_good]) (auto intro!: good_mono [OF or_loop_good])

lemma parse_and_good: "eof_ended ts \<Longrightarrow> good 1 (Suc n < 9 * length ts + 6) ts (parse_and P ts)"
  unfolding parse_and_def
  by (rule good_bindI [OF not_good]) (auto intro!: good_mono [OF and_loop_good])

lemma parse_add_good: "eof_ended ts \<Longrightarrow> good 1 (Suc n < 9 * length ts + 3) ts (parse_add P ts)"
  unfolding parse_add_def
  by (rule good_bindI [OF unary_good]) (auto intro!: good_mono [OF add_loop_good])

lemma or_loop_body_good:
  "eof_ended ts \<Longrightarrow> good 0 (Suc n < 9 * length ts + 1) ts (or_loop P e ts)"
  unfolding or_loop_def
  by (rule good_peekI, assumption)
     (auto dest: eof_ended_tl intro!: good_bindI [OF and_good] good_mono [OF or_loop_good])

lemma and_loop_body_good:
  "eof_ended ts \<Longrightarrow> good 0 (Suc n < 9 * length ts + 1) ts (and_loop P e ts)"
  unfolding and_loop_def
  by (rule good_peekI, assumption)
     (auto dest: eof_ended_tl intro!: good_bindI [OF not_good] good_mono [OF and_loop_good])

lemma add_loop_body_good:
  "eof_ended ts \<Longrightarrow> good 0 (Suc n < 9 * length ts + 1) ts (add_loop P e ts)"
  unfolding add_loop_def
  by (rule good_peekI, assumption)
     (auto dest: eof_ended_tl intro!: good_bindI [OF unary_good] good_mono [OF add_loop_good])

lemma items_loop_body_good:
  "eof_ended ts \<Longrightarrow> good 0 (Suc n < 9 * length ts + 1) ts (items_loop P es ts)"
  unfolding items_loop_def
  by (rule good_peekI, assumption)
     (auto dest: eof_ended_tl intro!: good_bindI [OF or_good] good_mono [OF items_loop_good])

lemma parse_not_good:
  "eof_ended ts \<Longrightarrow> good 1 (Suc n < 9 * length ts + 5) ts (parse_not P ts)"
  unfolding parse_not_def
  by (rule good_peekI, assumption)
     (auto dest: eof_ended_tl intro!: good_bindI [OF not_good] good_mono [OF cmp_good])

lemma parse_unary_good:
  "eof_ended ts \<Longrightarrow> good 1 (Suc n < 9 * length ts + 2) ts (parse_unary P ts)"
  unfolding parse_unary_def
  by (rule good_peekI, assumption)
     (auto dest: eof_ended_tl intro!: good_bindI [OF unary_good] good_mono [OF primary_good])

lemma parse_cmp_good:
  assumes "eof_ended ts"
  shows "good 1 (Suc n < 9 * length ts + 4) ts (parse_cmp P ts)"
  unfolding parse_cmp_def
proof (rule good_bindI [OF add_good [OF assms]], goal_cases)
  case (2 left ts1)
  show ?case
    unfolding case_prod_conv
  proof (rule good_peekI [OF 2(2)])
    fix t p ts2
    assume "ts1 = (t, p) # ts2"
    then show "good 1 (Suc n < 9 * length ts + 4) ts
      (case t of
         TOp op \<Rightarrow> if is_cmp op
           then obind (p_add P (bump ts1)) (\<lambda>(right, ts2). Ret (EBinary op left right, ts2))
           else Ret (left, ts1)
       | TIn \<Rightarrow> obind (p_add P (bump ts1)) (\<lambda>(right, ts2).
           if \<not> is_list right then Fail (InRhsNotList (cur_pos ts1)) else Ret (EIn left right, ts2))
       | _ \<Rightarrow> Ret (left, ts1))"
      using 2 by (cases t) (auto dest: eof_ended_tl intro!: good_bindI [OF add_good])
  qed
qed simp

lemma parse_paren_good:
  assumes "eof_ended ts"
  shows "good 1 (n < 9 * length ts + 9) ts (parse_paren P ts)"
  unfolding parse_paren_def
  using assms
  by (intro good_bindI [OF or_good])
     (auto intro!: good_peekI good_expectI good_bindI [OF items_loop_good])

lemma parse_bracket_good:
  assumes "eof_ended ts"
  shows "good 1 (n < 9 * length ts + 9) ts (parse_bracket P ts)"
  unfolding parse_bracket_def
  by (rule good_peekI [OF assms])
     (use assms in \<open>auto intro!: good_bindI [where k = 0 and ts = ts and d = "n < 9 * length ts + 9"]
        good_expectI good_bindI [OF or_good] good_mono [OF items_loop_good]\<close>)

lemma parse_call_args_good:
  assumes "eof_ended ts"
  shows "good 0 (n < 9 * length ts + 9) ts (parse_call_args P ts)"
  unfolding parse_call_args_def
  by (rule good_peekI [OF assms]) (use assms in \<open>auto intro!: good_mono [OF args_loop_good]\<close>)

lemma parse_ident_good:
  assumes "eof_ended ts"
  shows "good 0 (n < 9 * length ts + 9) ts (parse_ident P name ts)"
  unfolding parse_ident_def
  by (rule good_peekI [OF assms])
     (use assms in \<open>auto dest: eof_ended_tl intro!: good_bindI [OF parse_call_args_good] good_expectI\<close>)

lemma parse_primary_good:
  assumes "eof_ended ts"
  shows "good 1 (Suc n < 9 * length ts + 1) ts (parse_primary P ts)"
  unfolding parse_primary_def
proof (rule good_peekI [OF assms])
  fix t p ts1
  assume ts: "ts = (t, p) # ts1"
  then have "t \<noteq> TEof \<Longrightarrow> eof_ended ts1"
    using assms eof_ended_tl by blast
  then show "good 1 (Suc n < 9 * length ts + 1) ts
      (case t of
         TNum v \<Rightarrow> Ret (ENum v, bump ts) | TStr v \<Rightarrow> Ret (EStr v, bump ts)
       | TTrue \<Rightarrow> Ret (EBool True, bump ts) | TFalse \<Rightarrow> Ret (EBool False, bump ts)
       | TLParen \<Rightarrow> parse_paren P (bump ts) | TLBracket \<Rightarrow> parse_bracket P (bump ts)
       | TIdent name \<Rightarrow> parse_ident P name (bump ts)
       | TEof \<Rightarrow> Fail (UnexpectedEof (cur_pos ts))
       | _ \<Rightarrow> Fail (Expected ''expression'' t (cur_pos ts)))"
    using ts
    by (cases t)
       (auto intro!: good_mono [OF parse_paren_good] good_mono [OF parse_bracket_good]
         good_mono [OF parse_ident_good])
qed

lemma args_loop_body_good:
  assumes "eof_ended ts"
  shows "good 1 (Suc n < 9 * length ts + 8) ts (args_loop P b as ts)"
proof -
  define arg where "arg =
    (case kwarg_name ts of
       Some kw \<Rightarrow> obind (p_or P (bump (bump ts))) (\<lambda>(v, ts1). Ret (True, as @ [(Some kw, v)], ts1))
     | None \<Rightarrow>
         if b then Fail (PositionalAfterKwarg (cur_pos ts))
         else obind (p_or P ts) (\<lambda>(v, ts1). Ret (b, as @ [(None, v)], ts1)))"
  define rest where "rest = (\<lambda>(seen1, out1, ts1). with_peek ts1 (\<lambda>t.
    if t = TComma then p_args_loop P seen1 out1 (bump ts1) else Ret (out1, ts1)))"
  have rest: "good 1 (Suc n < 9 * length ts + 8) ts (rest (s, xs, ts1))"
    if "eof_ended ts1" "length ts1 < length ts" for s xs ts1
    unfolding rest_def case_prod_conv
    by (rule good_peekI [OF that(1)])
       (use that in \<open>auto dest: eof_ended_tl intro!: good_mono [OF args_loop_good]\<close>)
  have kw: "\<exists>t p u q us. ts = (t, p) # (u, q) # us \<and> t \<noteq> TEof \<and> u \<noteq> TEof"
    if "kwarg_name ts = Some k" for k
    using that by (auto simp: kwarg_name_def split: list.splits prod.splits token.splits)
  have "good 1 (Suc n < 9 * length ts + 8) ts (obind arg rest)"
  proof (cases "kwarg_name ts")
    case None
    show ?thesis
      using assms rest good_bindI [OF or_good [OF assms], of "Suc n < 9 * length ts + 8" 1 ts
          "\<lambda>(v, ts1). rest (b, as @ [(None, v)], ts1)"]
      by (cases "p_or P ts") (auto simp: arg_def None)
  next
    case (Some k)
    then obtain t p u q us where ts: "ts = (t, p) # (u, q) # us" "t \<noteq> TEof" "u \<noteq> TEof"
      using kw by blast
    then have "eof_ended us"
      using assms eof_ended_tl by metis
    moreover have "arg = obind (p_or P us) (\<lambda>(v, ts1). Ret (True, as @ [(Some k, v)], ts1))"
      by (simp add: arg_def Some) (simp add: ts)
    ultimately show ?thesis
      using or_good [of us] rest by (cases "p_or P us") (auto simp: ts)
  qed
  then show ?thesis
    unfolding args_loop_def arg_def rest_def by (rule good_peekI [OF assms])
qed

lemmas productions_good =
  parse_or_good parse_and_good parse_not_good parse_cmp_good parse_add_good parse_unary_good
  parse_primary_good or_loop_body_good and_loop_body_good add_loop_body_good items_loop_body_good
  args_loop_body_good

end

lemma subparser_parser_at: "subparser n (parser_at n)"
proof (induction n)
  case 0
  show ?case
    by unfold_locales auto
next
  case (Suc n)
  show ?case
    by unfold_locales
       (simp_all only: parser_at.simps Let_def parser.select_convs
         subparser.productions_good [OF Suc])
qed

interpretation parser_at: subparser n "parser_at n" for n
  by (rule subparser_parser_at)

lemma token_stream_eof_ended: "token_stream n ts \<Longrightarrow> eof_ended ts"
  by (auto simp: token_stream_def eof_ended_def)

lemma parse_tokens_total:
  assumes "eof_ended ts"
  shows "(\<exists>e. parse_tokens ts = Ret e) \<or> (\<exists>err. parse_tokens ts = Fail err)"
  using parser_at.or_good [OF assms, of "parse_depth ts"]
  by (cases "p_or (parser_at (parse_depth ts)) ts")
     (auto simp: parse_tokens_def parse_depth_def with_peek_def eof_ended_def split: list.splits)

lemma lex_eof_ended: "lex s = Ok ts \<Longrightarrow> eof_ended ts"
  using lex_from_stream [of 0 s ts] token_stream_eof_ended by (simp add: lex_def)

lemma parse_cases: "(\<exists>e. parse s = Ret e) \<or> (\<exists>err. parse s = Fail err)"
proof (cases "lex s")
  case (Inr ts)
  then show ?thesis
    using parse_tokens_total [OF lex_eof_ended [OF Inr]] by (simp add: parse_def)
qed (simp add: parse_def)

end
