(* ===== verification/Expr_Eval.thy ===== *)
theory Expr_Eval
  imports Policy_Invariants Expr_Parser
begin

text \<open>
  The tree-walking evaluator of invariant expressions,
  \<open>policy/expressions/eval.rs\<close>.  Arguments of a call reach \<open>call\<close> as their
  evaluation results, of which it looks only at those the source evaluates.
\<close>

datatype val = VNum f64 | VStr string | VBool bool | VList "val list" | VNull

fun value_tag :: "val \<Rightarrow> string" where
  "value_tag (VNum _) = ''Num''"
| "value_tag (VStr _) = ''Str''"
| "value_tag (VBool _) = ''Bool''"
| "value_tag (VList _) = ''List''"
| "value_tag VNull = ''Null''"

text \<open>The derived \<open>PartialEq\<close>: structural, with the float equality on numbers.\<close>

fun value_eq :: "val \<Rightarrow> val \<Rightarrow> bool"
and value_list_eq :: "val list \<Rightarrow> val list \<Rightarrow> bool" where
  "value_eq (VNum a) (VNum b) \<longleftrightarrow> f64_eq a b"
| "value_eq (VStr a) (VStr b) \<longleftrightarrow> a = b"
| "value_eq (VBool a) (VBool b) \<longleftrightarrow> a = b"
| "value_eq (VList xs) (VList ys) \<longleftrightarrow> value_list_eq xs ys"
| "value_eq VNull VNull \<longleftrightarrow> True"
| "value_eq _ _ \<longleftrightarrow> False"
| "value_list_eq [] [] \<longleftrightarrow> True"
| "value_list_eq (x # xs) (y # ys) \<longleftrightarrow> value_eq x y \<and> value_list_eq xs ys"
| "value_list_eq _ _ \<longleftrightarrow> False"

record eval_env =
  env_action :: action
  env_ctx :: evaluation_context
  env_binding :: binding
  env_now_epoch :: i64

datatype eval_error =
    UnknownIdent string
  | UnknownFunction string
  | TypeError msg
  | BadArgs string msg

fun eval_error_display :: "eval_error \<Rightarrow> msg" where
  "eval_error_display (UnknownIdent n) =
     Fmt (''unknown identifier '{n}'' @ [CHR 0x27]) [AStr n]"
| "eval_error_display (UnknownFunction n) =
     Fmt (''unknown function '{n}'' @ [CHR 0x27]) [AStr n]"
| "eval_error_display (TypeError m) = Fmt ''type error: {m}'' [AMsg m]"
| "eval_error_display (BadArgs func m) =
     Fmt ''bad arguments to {func}: {msg}'' [AStr func, AMsg m]"

section \<open>Identifiers\<close>

definition num_or_null :: "f64 option \<Rightarrow> val" where
  "num_or_null v = (case v of None \<Rightarrow> VNull | Some x \<Rightarrow> VNum x)"

definition str_or_null :: "string option \<Rightarrow> val" where
  "str_or_null v = (case v of None \<Rightarrow> VNull | Some s \<Rightarrow> VStr s)"

definition payment_currency_of :: "action \<Rightarrow> string option" where
  "payment_currency_of a =
     Option.bind (case metadata a ''payment_currency'' of
         Some v \<Rightarrow> Some v | None \<Rightarrow> metadata a ''currency'') as_str"

definition resolve_ident :: "string \<Rightarrow> eval_env \<Rightarrow> (eval_error, val) result" where
  "resolve_ident name env =
     (if name \<in> {''spend_total'', ''spend_total_usd''} then Ok (VNum (spend_total_usd (env_ctx env)))
      else if name = ''now'' then Ok (VNum (f64_of_int (env_now_epoch env)))
      else if name = ''max_budget_usd'' then Ok (num_or_null (max_budget_usd (env_binding env)))
      else if name \<in> {''tool'', ''action.tool''} then Ok (VStr (tool (env_action env)))
      else if name \<in> {''amount_usd'', ''action.amount_usd''}
        then Ok (num_or_null (amount_usd (env_action env)))
      else if name \<in> {''data_classification'', ''action.data_classification''}
        then Ok (str_or_null (data_classification (env_action env)))
      else if name \<in> {''action.signatures'', ''signatures''}
        then Ok (VList (map VStr (signatures (env_action env))))
      else if name \<in> {''delegation_depth'', ''action.delegation_depth''}
        then Ok (VNum (f64_of_int (uint (delegation_depth (env_action env)))))
      else if name \<in> {''timestamp'', ''action.timestamp''}
        then Ok (VNum (f64_of_int (timestamp (env_action env))))
      else if name = ''payment_currency''
        then Ok (str_or_null (payment_currency_of (env_action env)))
      else Err (UnknownIdent name))"

section \<open>Operators\<close>

definition eq_neq :: "val \<Rightarrow> val \<Rightarrow> bool \<Rightarrow> (eval_error, val) result" where
  "eq_neq l r negate =
     (case (l, r) of
        (VNum a, VNum b) \<Rightarrow> Ok (VBool (if negate then \<not> f64_eq a b else f64_eq a b))
      | (VStr a, VStr b) \<Rightarrow> Ok (VBool (if negate then a \<noteq> b else a = b))
      | (VBool a, VBool b) \<Rightarrow> Ok (VBool (if negate then a \<noteq> b else a = b))
      | (VNull, VNull) \<Rightarrow> Ok (VBool (\<not> negate))
      | _ \<Rightarrow> Err (TypeError (Fmt ''cannot compare {} and {} with ==/!=''
               [AStr (value_tag l), AStr (value_tag r)])))"

fun bin_op_debug :: "bin_op \<Rightarrow> string" where
  "bin_op_debug Eq = ''Eq''"
| "bin_op_debug Neq = ''Neq''"
| "bin_op_debug Lt = ''Lt''"
| "bin_op_debug Lte = ''Lte''"
| "bin_op_debug Gt = ''Gt''"
| "bin_op_debug Gte = ''Gte''"
| "bin_op_debug Add = ''Add''"
| "bin_op_debug Sub = ''Sub''"
| "bin_op_debug And = ''And''"
| "bin_op_debug Or = ''Or''"

text \<open>The comparison and the arithmetic of an operator the caller has selected for it.\<close>

definition cmp_f64 :: "bin_op \<Rightarrow> f64 \<Rightarrow> f64 \<Rightarrow> bool" where
  "cmp_f64 op a b =
     (case op of Lt \<Rightarrow> f64_lt a b | Lte \<Rightarrow> f64_le a b | Gt \<Rightarrow> f64_gt a b | _ \<Rightarrow> f64_ge a b)"

definition arith_f64 :: "bin_op \<Rightarrow> f64 \<Rightarrow> f64 \<Rightarrow> f64" where
  "arith_f64 op a b = (case op of Add \<Rightarrow> f64_add a b | _ \<Rightarrow> f64_sub a b)"

definition num_cmp :: "bin_op \<Rightarrow> val \<Rightarrow> val \<Rightarrow> (eval_error, val) result" where
  "num_cmp op l r =
     (case (l, r) of
        (VNum a, VNum b) \<Rightarrow>
          if \<not> f64_is_finite a \<or> \<not> f64_is_finite b
          then Err (TypeError (Fmt
            (''{op:?} on non-finite number ({a} vs {b}) '' @ em_dash @ '' refusing to order (fail-closed)'')
            [AStr (bin_op_debug op), AF64 a, AF64 b]))
          else Ok (VBool (cmp_f64 op a b))
      | _ \<Rightarrow> Err (TypeError (Fmt ''{:?} expects two Num, got {} and {}''
               [AStr (bin_op_debug op), AStr (value_tag l), AStr (value_tag r)])))"

definition num_arith :: "bin_op \<Rightarrow> val \<Rightarrow> val \<Rightarrow> (eval_error, val) result" where
  "num_arith op l r =
     (case (l, r) of
        (VNum a, VNum b) \<Rightarrow>
          if \<not> f64_is_finite a \<or> \<not> f64_is_finite b
          then Err (TypeError (Fmt
            (''{op:?} on non-finite number ({a} vs {b}) '' @ em_dash @ '' refusing to compute (fail-closed)'')
            [AStr (bin_op_debug op), AF64 a, AF64 b]))
          else (let out = arith_f64 op a b in
            if \<not> f64_is_finite out
            then Err (TypeError (Fmt
              (''{op:?} produced non-finite result ({out}) '' @ em_dash @ '' refusing (fail-closed)'')
              [AStr (bin_op_debug op), AF64 out]))
            else Ok (VNum out))
      | _ \<Rightarrow> Err (TypeError (Fmt ''{:?} expects two Num, got {} and {}''
               [AStr (bin_op_debug op), AStr (value_tag l), AStr (value_tag r)])))"

definition bool_bin :: "bin_op \<Rightarrow> val \<Rightarrow> val \<Rightarrow> (eval_error, val) result" where
  "bool_bin op l r =
     (case (l, r) of
        (VBool a, VBool b) \<Rightarrow> Ok (VBool (if op = And then a \<and> b else a \<or> b))
      | _ \<Rightarrow> Err (TypeError (Fmt ''{:?} expects two Bool, got {} and {}''
               [AStr (bin_op_debug op), AStr (value_tag l), AStr (value_tag r)])))"

fun apply_binary :: "bin_op \<Rightarrow> val \<Rightarrow> val \<Rightarrow> (eval_error, val) result" where
  "apply_binary Eq l r = eq_neq l r False"
| "apply_binary Neq l r = eq_neq l r True"
| "apply_binary Lt l r = num_cmp Lt l r"
| "apply_binary Lte l r = num_cmp Lte l r"
| "apply_binary Gt l r = num_cmp Gt l r"
| "apply_binary Gte l r = num_cmp Gte l r"
| "apply_binary Add l r = num_arith Add l r"
| "apply_binary Sub l r = num_arith Sub l r"
| "apply_binary And l r = bool_bin And l r"
| "apply_binary Or l r = bool_bin Or l r"

fun apply_unary :: "unary_op \<Rightarrow> val \<Rightarrow> (eval_error, val) result" where
  "apply_unary Not (VBool b) = Ok (VBool (\<not> b))"
| "apply_unary Not other = Err (TypeError (Fmt ''`!` expects Bool, got {}'' [AStr (value_tag other)]))"
| "apply_unary Neg (VNum n) = Ok (VNum (f64_neg n))"
| "apply_unary Neg other =
     Err (TypeError (Fmt ''unary `-` expects Num, got {}'' [AStr (value_tag other)]))"

section \<open>The function whitelist\<close>

type_synonym call_args = "(string option \<times> (eval_error, val) result) list"

definition arg_value ::
  "string \<Rightarrow> string \<Rightarrow> nat \<Rightarrow> call_args \<Rightarrow> (eval_error, val) result" where
  "arg_value func keyword pos args =
     (case find (\<lambda>(k, _). k = Some keyword) args of
        Some (_, v) \<Rightarrow> v
      | None \<Rightarrow>
          if pos < length args \<and> fst (args ! pos) = None then snd (args ! pos)
          else Err (BadArgs func
            (Fmt (''missing argument '{keyword}'' @ [CHR 0x27]) [AStr keyword])))"

definition want_str :: "string \<Rightarrow> val \<Rightarrow> (eval_error, string) result" where
  "want_str func v =
     (case v of
        VStr s \<Rightarrow> Ok s
      | other \<Rightarrow> Err (BadArgs func (Fmt ''expected Str, got {}'' [AStr (value_tag other)])))"

definition want_num :: "string \<Rightarrow> val \<Rightarrow> (eval_error, f64) result" where
  "want_num func v =
     (case v of
        VNum n \<Rightarrow> if f64_is_finite n then Ok n else Err (BadArgs func (Msg ''expected finite Num''))
      | other \<Rightarrow> Err (BadArgs func (Fmt ''expected Num, got {}'' [AStr (value_tag other)])))"

fun want_strs :: "string \<Rightarrow> val list \<Rightarrow> (eval_error, string list) result" where
  "want_strs func [] = Ok []"
| "want_strs func (v # vs) =
     and_then (want_str func v) (\<lambda>s. and_then (want_strs func vs) (\<lambda>ss. Ok (s # ss)))"

definition want_str_list :: "string \<Rightarrow> val \<Rightarrow> (eval_error, string list) result" where
  "want_str_list func v =
     (case v of
        VList items \<Rightarrow> want_strs func items
      | other \<Rightarrow> Err (BadArgs func (Fmt ''expected List, got {}'' [AStr (value_tag other)])))"

definition require_arity :: "string \<Rightarrow> call_args \<Rightarrow> nat \<Rightarrow> (eval_error, unit) result" where
  "require_arity func args want =
     (if length args \<noteq> want
      then Err (BadArgs func (Fmt ''expected {want} args, got {}''
             [AInt (int want), AInt (int (length args))]))
      else Ok ())"

text \<open>\<open>str::chars().count()\<close>: the bytes that are not UTF-8 continuation bytes.\<close>

definition chars_count :: "string \<Rightarrow> nat" where
  "chars_count s = length (filter (\<lambda>c. \<not> (128 \<le> byte c \<and> byte c < 192)) s)"

definition call :: "string \<Rightarrow> call_args \<Rightarrow> eval_env \<Rightarrow> (eval_error, val) result" where
  "call name args env =
     (if name = ''now'' then
        and_then (require_arity ''now'' args 0) (\<lambda>_. Ok (VNum (f64_of_int (env_now_epoch env))))
      else if name = ''len'' then
        and_then (require_arity ''len'' args 1) (\<lambda>_.
        and_then (snd (args ! 0)) (\<lambda>v.
          case v of
            VStr s \<Rightarrow> Ok (VNum (f64_of_int (int (chars_count s))))
          | other \<Rightarrow> Err (BadArgs ''len'' (Fmt ''expected Str, got {}'' [AStr (value_tag other)]))))
      else if name = ''count'' then
        and_then (require_arity ''count'' args 1) (\<lambda>_.
        and_then (snd (args ! 0)) (\<lambda>v.
          case v of
            VList items \<Rightarrow> Ok (VNum (f64_of_int (int (length items))))
          | other \<Rightarrow> Err (BadArgs ''count'' (Fmt ''expected List, got {}'' [AStr (value_tag other)]))))
      else if name = ''no_external_call_to'' then
        and_then (require_arity name args 1) (\<lambda>_.
        and_then (arg_value name ''domain'' 0 args) (\<lambda>v.
        and_then (want_str name v) (\<lambda>domain.
        Ok (VBool (Option.bind (metadata (env_action env) ''target_domain'') as_str \<noteq> Some domain)))))
      else if name = ''transfer_requires'' then
        and_then (require_arity name args 1) (\<lambda>_.
        and_then (arg_value name ''roles'' 0 args) (\<lambda>v.
        and_then (want_str_list name v) (\<lambda>roles.
        if amount_usd (env_action env) = None then Ok (VBool True)
        else Ok (VBool (list_all (\<lambda>r. list_ex (\<lambda>s. s = r) (signatures (env_action env))) roles)))))
      else if name = ''exports_require_signatures'' then
        and_then (require_arity name args 2) (\<lambda>_.
        and_then (arg_value name ''role'' 0 args) (\<lambda>v.
        and_then (want_str name v) (\<lambda>role.
        and_then (arg_value name ''threshold'' 1 args) (\<lambda>w.
        and_then (want_num name w) (\<lambda>threshold.
        if f64_lt threshold f64_zero then Err (BadArgs name (Msg ''threshold must be >= 0''))
        else (let got = distinct_role_signatures (signatures (env_action env)) role in
          Ok (VBool (f64_ge (f64_of_int (uint got)) threshold))))))))
      else if name = ''tool_class'' then
        and_then (require_arity name args 1) (\<lambda>_.
        and_then (arg_value name ''tool'' 0 args) (\<lambda>_.
        Ok (VStr (case Option.bind (metadata (env_action env) ''tool_class'') as_str of
                    None \<Rightarrow> ''unknown'' | Some c \<Rightarrow> c))))
      else if name = ''sandbox_required'' then
        and_then (require_arity name args 1) (\<lambda>_.
        and_then (arg_value name ''tool'' 0 args) (\<lambda>v.
        and_then (want_str name v) (\<lambda>t.
        if tool (env_action env) \<noteq> t then Ok (VBool True)
        else Ok (VBool (Option.bind (metadata (env_action env) ''sandbox_mode'') as_bool = Some True)))))
      else Err (UnknownFunction name))"

section \<open>Evaluation\<close>

text \<open>The evaluation of the items of a list stops at the first error.\<close>

fun collect :: "(eval_error, val) result list \<Rightarrow> (eval_error, val list) result" where
  "collect [] = Ok []"
| "collect (r # rs) = and_then r (\<lambda>v. and_then (collect rs) (\<lambda>vs. Ok (v # vs)))"

definition apply_in :: "val \<Rightarrow> val \<Rightarrow> (eval_error, val) result" where
  "apply_in v list =
     (case list of
        VList items \<Rightarrow>
          if v = VNull then Ok (VBool True)
          else Ok (VBool (list_ex (\<lambda>x. value_eq x v) items))
      | other \<Rightarrow> Err (TypeError (Fmt ''`in` expects List on rhs, got {}'' [AStr (value_tag other)])))"

fun eval :: "expr \<Rightarrow> eval_env \<Rightarrow> (eval_error, val) result" where
  "eval (ENum n) env = Ok (VNum n)"
| "eval (EStr s) env = Ok (VStr s)"
| "eval (EBool b) env = Ok (VBool b)"
| "eval (EIdent name) env = resolve_ident name env"
| "eval (EList items) env =
     and_then (collect (map (\<lambda>it. eval it env) items)) (\<lambda>out. Ok (VList out))"
| "eval (EBinary op l r) env =
     and_then (eval l env) (\<lambda>a. and_then (eval r env) (\<lambda>b. apply_binary op a b))"
| "eval (EUnary op e) env = and_then (eval e env) (\<lambda>v. apply_unary op v)"
| "eval (EIn lhs rhs) env =
     and_then (eval lhs env) (\<lambda>v. and_then (eval rhs env) (\<lambda>list. apply_in v list))"
| "eval (ECall name args) env = call name (map (\<lambda>(k, e). (k, eval e env)) args) env"

definition eval_predicate :: "expr \<Rightarrow> eval_env \<Rightarrow> (eval_error, bool) result" where
  "eval_predicate e env =
     and_then (eval e env) (\<lambda>v.
       case v of
         VBool b \<Rightarrow> Ok b
       | other \<Rightarrow> Err (TypeError (Fmt ''predicate must be Bool, got {}'' [AStr (value_tag other)])))"

end
