(* ===== verification/Policy_Compiler.thy ===== *)
theory Policy_Compiler
  imports Expr_Eval
begin

text \<open>
  The compiler of \<open>policy/compiler.rs\<close>, which turns a policy into a list of runtime
  checks, and the evaluator of \<open>policy/evaluator.rs\<close>, which runs them.  A
  \<open>Box<dyn RuntimeCheck>\<close> is a value of \<open>runtime_check\<close>; the evaluator takes the
  trait's \<open>evaluate\<close> and \<open>name\<close> as arguments, and the locale \<open>check_trait\<close> states
  what it relies on.

  The digests and the JSON serialisation of a policy are third-party functions,
  held in \<open>hashers\<close>.
\<close>

record hashers = digests +
  policy_to_json :: "policy \<Rightarrow> string"

datatype runtime_check =
    Inv invariant_check
  | ExpressionCheck string expr binding

text \<open>\<open>CompilePanic\<close> stands for a panic or non-termination of the expression parser.\<close>

datatype compile_error =
    InvalidScope msg
  | InvalidTimeWindow msg
  | InvariantParseError nat msg
  | CompilePanic

record compiled_policy =
  policy_id :: string
  compiled_agent :: string
  checks :: "runtime_check list"
  raw :: policy

section \<open>The expression check\<close>

definition expression_evaluate ::
  "string \<Rightarrow> expr \<Rightarrow> binding \<Rightarrow> evaluation_context \<Rightarrow> verdict" where
  "expression_evaluate src e b ctx =
     (let env = \<lparr> env_action = ctx_action ctx, env_ctx = ctx, env_binding = b,
                  env_now_epoch = now_epoch ctx \<rparr> in
      case eval_predicate e env of
        Inr True \<Rightarrow> Allow
      | Inr False \<Rightarrow> Deny ''invariant_expr'' (Fmt ''invariant violated: {}'' [AStr src])
      | Inl err \<Rightarrow> Deny ''invariant_expr''
          (Fmt ''invariant evaluation error in `{}`: {}'' [AStr src, AMsg (eval_error_display err)]))"

fun check_name :: "runtime_check \<Rightarrow> string" where
  "check_name (Inv c) = invariant_name c"
| "check_name (ExpressionCheck _ _ _) = ''invariant_expr''"

fun check_evaluate :: "externs \<Rightarrow> runtime_check \<Rightarrow> evaluation_context \<Rightarrow> verdict" where
  "check_evaluate X (Inv c) ctx = invariant_evaluate X c ctx"
| "check_evaluate X (ExpressionCheck src e b) ctx = expression_evaluate src e b ctx"

section \<open>The compiler\<close>

definition hash_policy :: "hashers \<Rightarrow> policy \<Rightarrow> string" where
  "hash_policy H p = ''pol_'' @ hex_encode H (take 16 (sha256 H (policy_to_json H p)))"

text \<open>The check of an optional field, and of an optional flag.\<close>

definition when_some :: "'a option \<Rightarrow> ('a \<Rightarrow> invariant_check) \<Rightarrow> runtime_check list" where
  "when_some v f = (case v of None \<Rightarrow> [] | Some x \<Rightarrow> [Inv (f x)])"

definition when_true :: "bool option \<Rightarrow> invariant_check \<Rightarrow> runtime_check list" where
  "when_true v c = (if v = Some True then [Inv c] else [])"

definition compile_scope :: "binding \<Rightarrow> (compile_error, runtime_check list) result" where
  "compile_scope b =
     (case data_scope b of
        None \<Rightarrow> Ok []
      | Some ds \<Rightarrow>
          and_then (map_err (\<lambda>e. InvalidScope (policy_parse_error_display e)) (scope_from_scope ds))
            (\<lambda>(a, d). Ok [Inv (ScopeCheck a d)]))"

definition compile_time_window ::
  "externs \<Rightarrow> binding \<Rightarrow> (compile_error, runtime_check list) result" where
  "compile_time_window X b =
     (case time_window b of
        None \<Rightarrow> Ok []
      | Some tw \<Rightarrow>
          and_then (map_err (\<lambda>e. InvalidTimeWindow (policy_parse_error_display e))
              (time_from_window X tw))
            (\<lambda>(s, e, tz). Ok [Inv (TimeCheck s e tz)]))"

definition compile_business_hours ::
  "externs \<Rightarrow> binding \<Rightarrow> (compile_error, runtime_check list) result" where
  "compile_business_hours X b =
     (case business_hours b of
        None \<Rightarrow> Ok []
      | Some bh \<Rightarrow>
          and_then (map_err (\<lambda>e. InvalidTimeWindow (policy_parse_error_display e))
              (business_hours_from_config X bh))
            (\<lambda>(ws, tz). Ok [Inv (BusinessHoursCheck ws tz)]))"

definition compile_geo :: "binding \<Rightarrow> runtime_check list" where
  "compile_geo b =
     (let geo_allow = (case geo_allow_countries b of None \<Rightarrow> [] | Some cs \<Rightarrow> cs);
          geo_deny = (case geo_deny_countries b of None \<Rightarrow> [] | Some cs \<Rightarrow> cs) in
      if geo_allow \<noteq> [] \<or> geo_deny \<noteq> []
      then [Inv (GeoRestrictionCheck (uppercase_set geo_allow) (uppercase_set geo_deny))]
      else [])"

fun compile_invariants ::
  "binding \<Rightarrow> nat \<Rightarrow> string list \<Rightarrow> (compile_error, runtime_check list) result" where
  "compile_invariants b i [] = Ok []"
| "compile_invariants b i (src # srcs) =
     (case parse src of
        Ret e \<Rightarrow>
          and_then (compile_invariants b (i + 1) srcs) (\<lambda>cs. Ok (ExpressionCheck src e b # cs))
      | Fail err \<Rightarrow> Err (InvariantParseError i (parse_error_display err))
      | _ \<Rightarrow> Err CompilePanic)"

definition compile :: "externs \<Rightarrow> hashers \<Rightarrow> policy \<Rightarrow> (compile_error, compiled_policy) result" where
  "compile X H p =
     (let b = binding p in
      and_then (compile_scope b) (\<lambda>scope.
      and_then (compile_time_window X b) (\<lambda>time.
      and_then (compile_business_hours X b) (\<lambda>bh.
      and_then (compile_invariants b 0 (invariants p)) (\<lambda>exprs.
      Ok \<lparr> policy_id = hash_policy H p,
           compiled_agent = agent p,
           checks =
             when_some (max_budget_usd b) BudgetCheck @
             scope @
             when_some (allowed_tools b) (\<lambda>ts. AllowlistCheck (set ts)) @
             when_some (rate_limit b) (\<lambda>rl. RateCheck (requests_per_minute rl)) @
             time @
             when_some (required_signatures b) SignatureCheck @
             when_some (delegation b) (\<lambda>d. ThresholdCheck DelegationDepth (max_depth d)) @
             when_some (domain_denylist b) (\<lambda>ds. DomainDenylistCheck (domains_new ds)) @
             when_some (domain_allowlist b) (\<lambda>ds. DomainAllowlistCheck (domains_new ds)) @
             when_some (tool_denylist b) (\<lambda>ts. ToolDenylistCheck (set ts)) @
             when_some (daily_budget_usd b) DailyBudgetCheck @
             when_some (max_single_action_usd b) PerActionCapCheck @
             when_some (weekly_rate b) (\<lambda>wr. WeeklyRateCheck (requests_per_week wr)) @
             when_some (max_concurrent b) ConcurrencyCheck @
             when_some (cooldown_seconds b) CooldownCheck @
             when_some (max_payload_bytes b) PayloadSizeCheck @
             when_some (content_type_allowlist b)
               (\<lambda>cts. ContentTypeCheck (set (map to_ascii_lowercase cts))) @
             when_some (max_recipients b) RecipientCountCheck @
             when_some (max_chain_depth b) ChainDepthCheck @
             when_true (pii_block b) PiiDetectionCheck @
             when_some (language_allowlist b)
               (\<lambda>ls. LanguageAllowlistCheck (set (map to_ascii_lowercase ls))) @
             when_some (currency_allowlist b) (\<lambda>cs. CurrencyAllowlistCheck (uppercase_set cs)) @
             compile_geo b @
             bh @
             when_some (holiday_blackout_dates b) (\<lambda>ds. HolidayBlackoutCheck (set ds)) @
             when_some (pinned_version b) VersionPinCheck @
             when_true (dry_run b) DryRunCheck @
             exprs,
           raw = p \<rparr>)))))"

section \<open>The evaluator\<close>

text \<open>Fail-fast: the first deny is returned.\<close>

fun evaluate_checks :: "('c \<Rightarrow> 'x \<Rightarrow> verdict) \<Rightarrow> 'c list \<Rightarrow> 'x \<Rightarrow> verdict" where
  "evaluate_checks ev [] ctx = Allow"
| "evaluate_checks ev (c # cs) ctx =
     (case ev c ctx of Allow \<Rightarrow> evaluate_checks ev cs ctx | Deny n r \<Rightarrow> Deny n r)"

text \<open>Every check runs; the overall verdict is the first deny met.\<close>

fun trace_loop :: "('c \<Rightarrow> string) \<Rightarrow> ('c \<Rightarrow> 'x \<Rightarrow> verdict) \<Rightarrow> 'c list \<Rightarrow> 'x \<Rightarrow>
  verdict \<Rightarrow> (string \<times> verdict) list \<Rightarrow> verdict \<times> (string \<times> verdict) list" where
  "trace_loop name ev [] ctx overall trace = (overall, trace)"
| "trace_loop name ev (c # cs) ctx overall trace =
     (let v = ev c ctx;
          overall' = (if is_deny v \<and> is_allow overall then v else overall) in
      trace_loop name ev cs ctx overall' (trace @ [(name c, v)]))"

definition evaluate :: "externs \<Rightarrow> compiled_policy \<Rightarrow> evaluation_context \<Rightarrow> verdict" where
  "evaluate X compiled ctx = evaluate_checks (check_evaluate X) (checks compiled) ctx"

definition evaluate_with_trace ::
  "externs \<Rightarrow> compiled_policy \<Rightarrow> evaluation_context \<Rightarrow> verdict \<times> (string \<times> verdict) list" where
  "evaluate_with_trace X compiled ctx =
     trace_loop check_name (check_evaluate X) (checks compiled) ctx Allow []"

subsection \<open>What the evaluator relies on\<close>

locale check_trait =
  fixes name :: "'c \<Rightarrow> string" and ev :: "'c \<Rightarrow> 'x \<Rightarrow> verdict"
  assumes deny_name: "ev c ctx = Deny n r \<Longrightarrow> n = name c"
begin

lemma evaluate_Allow_iff: "evaluate_checks ev cs ctx = Allow \<longleftrightarrow> (\<forall>c \<in> set cs. ev c ctx = Allow)"
  by (induction cs) (auto split: verdict.splits)

lemma evaluate_Deny:
  assumes "evaluate_checks ev cs ctx = Deny n r"
  shows "\<exists>us c vs. cs = us @ c # vs \<and> (\<forall>u \<in> set us. ev u ctx = Allow) \<and>
    ev c ctx = Deny n r \<and> n = name c"
  using assms
proof (induction cs)
  case (Cons c cs)
  show ?case
  proof (cases "ev c ctx")
    case Allow
    with Cons obtain us d vs where "cs = us @ d # vs" "\<forall>u \<in> set us. ev u ctx = Allow"
        "ev d ctx = Deny n r" "n = name d"
      by auto
    with Allow have "c # cs = (c # us) @ d # vs" "\<forall>u \<in> set (c # us). ev u ctx = Allow"
      by simp_all
    with \<open>ev d ctx = Deny n r\<close> \<open>n = name d\<close> show ?thesis
      by blast
  next
    case (Deny m s)
    with Cons.prems have "c # cs = [] @ c # cs \<and> (\<forall>u \<in> set []. ev u ctx = Allow) \<and>
        ev c ctx = Deny n r \<and> n = name c"
      using deny_name by simp
    then show ?thesis
      by blast
  qed
qed simp

lemma trace_loop_eq:
  "trace_loop name ev cs ctx overall trace =
     ((if is_allow overall then evaluate_checks ev cs ctx else overall),
      trace @ map (\<lambda>c. (name c, ev c ctx)) cs)"
proof (induction cs arbitrary: overall trace)
  case (Cons c cs)
  show ?case
    by (cases "ev c ctx") (simp_all add: Cons Let_def is_deny_def is_allow_def)
qed (simp add: is_allow_def)

end

lemma expression_evaluate_name: "expression_evaluate src e b ctx = Deny n r \<Longrightarrow> n = ''invariant_expr''"
  by (auto simp: expression_evaluate_def Let_def split: sum.splits bool.splits)

interpretation policy_checks: check_trait check_name "check_evaluate X" for X
proof
  show "n = check_name c" if "check_evaluate X c ctx = Deny n r" for c ctx n r
    using that by (cases c) (auto dest: invariant_evaluate_name expression_evaluate_name)
qed

end
