(* ===== verification/Policy_Spec.thy ===== *)
theory Policy_Spec
  imports Policy_Compiler
begin

text \<open>
  What a policy promises, stated over the policy document instead of over checks,
  and the refinement of that promise by compiler and evaluator: an evaluation
  allows an action exactly if every configured limit of the binding and every
  invariant expression permits it.
\<close>

section \<open>The verdict of each check\<close>

lemma amount_checks_Allow_iff:
  "budget_evaluate cap ctx = Allow \<longleftrightarrow>
     \<not> f64_gt (f64_add (spend_total_usd ctx) (amount_or_zero ctx)) cap"
  "daily_budget_evaluate cap ctx = Allow \<longleftrightarrow>
     \<not> f64_gt (f64_add (daily_spend_usd ctx) (amount_or_zero ctx)) cap"
  "per_action_cap_evaluate cap ctx = Allow \<longleftrightarrow> \<not> f64_gt (amount_or_zero ctx) cap"
  by (simp_all add: budget_evaluate_def daily_budget_evaluate_def per_action_cap_evaluate_def Let_def)

lemma scope_Allow_iff:
  "scope_evaluate allow deny ctx = Allow \<longleftrightarrow>
     (\<forall>tag. data_classification (ctx_action ctx) = Some tag \<longrightarrow>
        to_ascii_lowercase tag \<notin> set deny \<and>
        (allow = [] \<or> to_ascii_lowercase tag \<in> set allow))"
  by (auto simp: scope_evaluate_def Let_def split: option.splits)

lemma membership_checks_Allow_iff:
  "allowlist_evaluate ts ctx = Allow \<longleftrightarrow> tool (ctx_action ctx) \<in> ts"
  "tool_denylist_evaluate ts ctx = Allow \<longleftrightarrow> tool (ctx_action ctx) \<notin> ts"
  "domain_denylist_evaluate ds ctx = Allow \<longleftrightarrow>
     (\<forall>d. meta_str ctx ''target_domain'' = Some d \<longrightarrow> to_ascii_lowercase d \<notin> ds)"
  "domain_allowlist_evaluate ds ctx = Allow \<longleftrightarrow>
     (\<exists>d. meta_str ctx ''target_domain'' = Some d \<and> to_ascii_lowercase d \<in> ds)"
  "language_allowlist_evaluate ls ctx = Allow \<longleftrightarrow>
     (\<exists>l. meta_str ctx ''detected_language'' = Some l \<and> to_ascii_lowercase l \<in> ls)"
  "currency_allowlist_evaluate cs ctx = Allow \<longleftrightarrow>
     (\<exists>c. meta_str ctx ''currency'' = Some c \<and> to_ascii_uppercase c \<in> cs)"
  "content_type_evaluate ts ctx = Allow \<longleftrightarrow>
     (\<exists>t. meta_str ctx ''content_type'' = Some t \<and>
        to_ascii_lowercase (trim (takeWhile (\<lambda>x. x \<noteq> CHR '';'') t)) \<in> ts)"
  "version_pin_evaluate v ctx = Allow \<longleftrightarrow> meta_str ctx ''agent_version'' = Some v"
  by (auto simp: allowlist_evaluate_def tool_denylist_evaluate_def domain_denylist_evaluate_def
      domain_allowlist_evaluate_def language_allowlist_evaluate_def currency_allowlist_evaluate_def
      content_type_evaluate_def version_pin_evaluate_def Let_def hd_split_on split: option.splits)

lemma geo_Allow_iff:
  "geo_restriction_evaluate allow deny ctx = Allow \<longleftrightarrow>
     (\<forall>c. meta_str ctx ''client_country'' = Some c \<longrightarrow> to_ascii_uppercase c \<notin> deny) \<and>
     (allow \<noteq> {} \<longrightarrow> (\<exists>c. meta_str ctx ''client_country'' = Some c \<and> to_ascii_uppercase c \<in> allow))"
  by (cases "meta_str ctx ''client_country''") (auto simp: geo_restriction_evaluate_def Let_def)

lemma rate_checks_Allow_iff:
  "rate_evaluate n ctx = Allow \<longleftrightarrow>
     window_count RATE_WINDOW_SECS (now_epoch ctx) (recent_call_timestamps ctx) < n"
  "weekly_rate_evaluate n ctx = Allow \<longleftrightarrow>
     window_count WEEKLY_WINDOW_SECS (now_epoch ctx) (weekly_call_timestamps ctx) < n"
  "concurrency_evaluate n ctx = Allow \<longleftrightarrow> in_flight_actions ctx < n"
  "cooldown_evaluate secs ctx = Allow \<longleftrightarrow>
     (\<forall>prev. last_action_at ctx = Some prev \<longrightarrow>
        sint secs \<le> i64_saturating_sub (now_epoch ctx) prev)"
  by (auto simp: rate_evaluate_def weekly_rate_evaluate_def concurrency_evaluate_def
      cooldown_evaluate_def Let_def split: option.splits)

lemma time_checks_Allow_iff:
  "time_evaluate s e tz ctx = Allow \<longleftrightarrow> in_window s e (now_tz_hhmm ctx)"
  "business_hours_evaluate ws tz ctx = Allow \<longleftrightarrow>
     (\<exists>s e. ws (now_weekday ctx) = Some (s, e) \<and> in_window s e (now_tz_hhmm ctx))"
  "holiday_blackout_evaluate ds ctx = Allow \<longleftrightarrow>
     now_date_yyyy_mm_dd ctx = [] \<or> now_date_yyyy_mm_dd ctx \<notin> ds"
  by (auto simp: time_evaluate_def business_hours_evaluate_def holiday_blackout_evaluate_def
      split: option.splits)

lemma signature_Allow_iff:
  "signature_evaluate reqs ctx = Allow \<longleftrightarrow>
     (\<forall>req \<in> set reqs.
        sr_threshold req \<le> distinct_role_signatures (signatures (ctx_action ctx)) (sr_role req))"
  by (induction reqs) (auto simp: Let_def not_less)

lemma threshold_Allow_iff:
  "threshold_evaluate DelegationDepth n ctx = Allow \<longleftrightarrow> delegation_depth (ctx_action ctx) \<le> n"
  by (auto simp: threshold_evaluate_def Let_def)

lemma metadata_caps_Allow_iff:
  "payload_size_evaluate m ctx = Allow \<longleftrightarrow>
     (\<forall>n. meta_u64 ctx ''payload_bytes'' = Some n \<longrightarrow> n \<le> m)"
  "recipient_count_evaluate k ctx = Allow \<longleftrightarrow>
     (\<forall>n. meta_u64 ctx ''recipient_count'' = Some n \<longrightarrow> n \<le> ucast k)"
  "chain_depth_evaluate k ctx = Allow \<longleftrightarrow>
     (\<forall>n. meta_u64 ctx ''chain_depth'' = Some n \<longrightarrow> n \<le> ucast k)"
  by (auto simp: payload_size_evaluate_def recipient_count_evaluate_def chain_depth_evaluate_def
      Let_def not_less split: option.splits)

lemma pii_Allow_iff:
  "pii_detection_evaluate X ctx = Allow \<longleftrightarrow>
     meta_bool ctx ''pii_detected'' \<noteq> Some True \<and>
     (\<forall>p. meta_str ctx ''payload'' = Some p \<longrightarrow>
        \<not> re_is_match X EMAIL_RE p \<and> \<not> re_is_match X SSN_RE p)"
  by (auto simp: pii_detection_evaluate_def split: option.splits if_splits)

lemmas check_Allow_iffs =
  amount_checks_Allow_iff scope_Allow_iff membership_checks_Allow_iff geo_Allow_iff
  rate_checks_Allow_iff time_checks_Allow_iff signature_Allow_iff threshold_Allow_iff
  metadata_caps_Allow_iff pii_Allow_iff

definition env_of :: "binding \<Rightarrow> evaluation_context \<Rightarrow> eval_env" where
  "env_of b ctx = \<lparr> env_action = ctx_action ctx, env_ctx = ctx, env_binding = b,
                    env_now_epoch = now_epoch ctx \<rparr>"

lemma expression_Allow_iff:
  "expression_evaluate src e b ctx = Allow \<longleftrightarrow> eval_predicate e (env_of b ctx) = Ok True"
  by (auto simp: expression_evaluate_def env_of_def Let_def split: sum.splits bool.splits)

section \<open>What a binding permits\<close>

definition geo_permits :: "string list \<Rightarrow> string list \<Rightarrow> evaluation_context \<Rightarrow> bool" where
  "geo_permits allow deny ctx \<longleftrightarrow>
     (\<forall>c. meta_str ctx ''client_country'' = Some c \<longrightarrow>
        to_ascii_uppercase c \<notin> to_ascii_uppercase ` set deny) \<and>
     (allow \<noteq> [] \<longrightarrow> (\<exists>c. meta_str ctx ''client_country'' = Some c \<and>
        to_ascii_uppercase c \<in> to_ascii_uppercase ` set allow))"

text \<open>The limits in the order of the checks the compiler emits.\<close>

definition binding_permits :: "externs \<Rightarrow> binding \<Rightarrow> evaluation_context \<Rightarrow> bool" where
  "binding_permits X b ctx \<longleftrightarrow>
     (\<forall>cap. max_budget_usd b = Some cap \<longrightarrow>
        \<not> f64_gt (f64_add (spend_total_usd ctx) (amount_or_zero ctx)) cap) \<and>
     (\<forall>ds tag. data_scope b = Some ds \<longrightarrow> data_classification (ctx_action ctx) = Some tag \<longrightarrow>
        to_ascii_lowercase tag \<notin> to_ascii_lowercase ` set (ds_deny ds) \<and>
        (ds_allow ds = [] \<or> to_ascii_lowercase tag \<in> to_ascii_lowercase ` set (ds_allow ds))) \<and>
     (\<forall>ts. allowed_tools b = Some ts \<longrightarrow> tool (ctx_action ctx) \<in> set ts) \<and>
     (\<forall>rl. rate_limit b = Some rl \<longrightarrow>
        window_count 60 (now_epoch ctx) (recent_call_timestamps ctx) < requests_per_minute rl) \<and>
     (\<forall>tw. time_window b = Some tw \<longrightarrow> in_window (tw_start tw) (tw_end tw) (now_tz_hhmm ctx)) \<and>
     (\<forall>reqs. required_signatures b = Some reqs \<longrightarrow>
        (\<forall>req \<in> set reqs.
           sr_threshold req \<le> distinct_role_signatures (signatures (ctx_action ctx)) (sr_role req))) \<and>
     (\<forall>d. delegation b = Some d \<longrightarrow> delegation_depth (ctx_action ctx) \<le> max_depth d) \<and>
     (\<forall>ds. domain_denylist b = Some ds \<longrightarrow>
        (\<forall>d. meta_str ctx ''target_domain'' = Some d \<longrightarrow>
           to_ascii_lowercase d \<notin> to_ascii_lowercase ` set ds)) \<and>
     (\<forall>ds. domain_allowlist b = Some ds \<longrightarrow>
        (\<exists>d. meta_str ctx ''target_domain'' = Some d \<and>
           to_ascii_lowercase d \<in> to_ascii_lowercase ` set ds)) \<and>
     (\<forall>ts. tool_denylist b = Some ts \<longrightarrow> tool (ctx_action ctx) \<notin> set ts) \<and>
     (\<forall>cap. daily_budget_usd b = Some cap \<longrightarrow>
        \<not> f64_gt (f64_add (daily_spend_usd ctx) (amount_or_zero ctx)) cap) \<and>
     (\<forall>cap. max_single_action_usd b = Some cap \<longrightarrow> \<not> f64_gt (amount_or_zero ctx) cap) \<and>
     (\<forall>wr. weekly_rate b = Some wr \<longrightarrow>
        window_count 604800 (now_epoch ctx) (weekly_call_timestamps ctx) < requests_per_week wr) \<and>
     (\<forall>n. max_concurrent b = Some n \<longrightarrow> in_flight_actions ctx < n) \<and>
     (\<forall>secs. cooldown_seconds b = Some secs \<longrightarrow>
        (\<forall>prev. last_action_at ctx = Some prev \<longrightarrow>
           sint secs \<le> i64_saturating_sub (now_epoch ctx) prev)) \<and>
     (\<forall>m. max_payload_bytes b = Some m \<longrightarrow>
        (\<forall>n. meta_u64 ctx ''payload_bytes'' = Some n \<longrightarrow> n \<le> m)) \<and>
     (\<forall>cts. content_type_allowlist b = Some cts \<longrightarrow>
        (\<exists>t. meta_str ctx ''content_type'' = Some t \<and>
           to_ascii_lowercase (trim (takeWhile (\<lambda>x. x \<noteq> CHR '';'') t))
             \<in> to_ascii_lowercase ` set cts)) \<and>
     (\<forall>k. max_recipients b = Some k \<longrightarrow>
        (\<forall>n. meta_u64 ctx ''recipient_count'' = Some n \<longrightarrow> n \<le> ucast k)) \<and>
     (\<forall>k. max_chain_depth b = Some k \<longrightarrow>
        (\<forall>n. meta_u64 ctx ''chain_depth'' = Some n \<longrightarrow> n \<le> ucast k)) \<and>
     (pii_block b = Some True \<longrightarrow> meta_bool ctx ''pii_detected'' \<noteq> Some True \<and>
        (\<forall>p. meta_str ctx ''payload'' = Some p \<longrightarrow>
           \<not> re_is_match X EMAIL_RE p \<and> \<not> re_is_match X SSN_RE p)) \<and>
     (\<forall>ls. language_allowlist b = Some ls \<longrightarrow>
        (\<exists>l. meta_str ctx ''detected_language'' = Some l \<and>
           to_ascii_lowercase l \<in> to_ascii_lowercase ` set ls)) \<and>
     (\<forall>cs. currency_allowlist b = Some cs \<longrightarrow>
        (\<exists>c. meta_str ctx ''currency'' = Some c \<and>
           to_ascii_uppercase c \<in> to_ascii_uppercase ` set cs)) \<and>
     geo_permits (case geo_allow_countries b of None \<Rightarrow> [] | Some cs \<Rightarrow> cs)
       (case geo_deny_countries b of None \<Rightarrow> [] | Some cs \<Rightarrow> cs) ctx \<and>
     (\<forall>bh. business_hours b = Some bh \<longrightarrow>
        (\<exists>s e. map_of (rev (weekday_windows bh)) (now_weekday ctx) = Some (s, e) \<and>
           in_window s e (now_tz_hhmm ctx))) \<and>
     (\<forall>ds. holiday_blackout_dates b = Some ds \<longrightarrow>
        now_date_yyyy_mm_dd ctx = [] \<or> now_date_yyyy_mm_dd ctx \<notin> set ds) \<and>
     (\<forall>v. pinned_version b = Some v \<longrightarrow> meta_str ctx ''agent_version'' = Some v)"

section \<open>Refinement\<close>

abbreviation allows :: "externs \<Rightarrow> evaluation_context \<Rightarrow> runtime_check list \<Rightarrow> bool" where
  "allows X ctx cs \<equiv> (\<forall>c \<in> set cs. check_evaluate X c ctx = Allow)"

lemma allows_when_some [simp]:
  "allows X ctx (when_some v f) \<longleftrightarrow> (\<forall>x. v = Some x \<longrightarrow> invariant_evaluate X (f x) ctx = Allow)"
  by (auto simp: when_some_def split: option.splits)

lemma allows_when_true [simp]:
  "allows X ctx (when_true v c) \<longleftrightarrow> (v = Some True \<longrightarrow> invariant_evaluate X c ctx = Allow)"
  by (auto simp: when_true_def)

lemma allows_compile_scope:
  assumes "compile_scope b = Ok cs"
  shows "allows X ctx cs \<longleftrightarrow>
    (\<forall>ds tag. data_scope b = Some ds \<longrightarrow> data_classification (ctx_action ctx) = Some tag \<longrightarrow>
        to_ascii_lowercase tag \<notin> to_ascii_lowercase ` set (ds_deny ds) \<and>
        (ds_allow ds = [] \<or> to_ascii_lowercase tag \<in> to_ascii_lowercase ` set (ds_allow ds)))"
  using assms
  by (auto simp: compile_scope_def scope_from_scope_def scope_Allow_iff split: option.splits)

lemma allows_compile_time_window:
  assumes "compile_time_window X b = Ok cs"
  shows "allows X ctx cs \<longleftrightarrow>
    (\<forall>tw. time_window b = Some tw \<longrightarrow> in_window (tw_start tw) (tw_end tw) (now_tz_hhmm ctx))"
  using assms
  by (auto simp: compile_time_window_def time_from_window_def time_checks_Allow_iff
      and_then_eq_Ok_iff split: option.splits)

lemma windows_insert_eq:
  "windows_insert X ws m = Ok m' \<Longrightarrow> m' = m ++ map_of (rev ws)"
proof (induction X ws m arbitrary: m' rule: windows_insert.induct)
  case (2 X wd start stop ws m)
  from 2(2) have "windows_insert X ws (m(wd \<mapsto> (start, stop))) = Ok m'"
    by (simp add: and_then_eq_Ok_iff)
  then have "m' = m(wd \<mapsto> (start, stop)) ++ map_of (rev ws)"
    by (rule 2(1))
  then show ?case
    by (simp add: fun_eq_iff map_add_def split: option.splits)
qed simp

lemma allows_compile_business_hours:
  assumes "compile_business_hours X b = Ok cs"
  shows "allows X ctx cs \<longleftrightarrow>
    (\<forall>bh. business_hours b = Some bh \<longrightarrow>
        (\<exists>s e. map_of (rev (weekday_windows bh)) (now_weekday ctx) = Some (s, e) \<and>
           in_window s e (now_tz_hhmm ctx)))"
  using assms
  by (auto simp: compile_business_hours_def business_hours_from_config_def time_checks_Allow_iff
      and_then_eq_Ok_iff split: option.splits dest!: windows_insert_eq)

lemma geo_restriction_permits:
  "geo_restriction_evaluate (uppercase_set as) (uppercase_set ds) ctx = Allow \<longleftrightarrow> geo_permits as ds ctx"
  by (simp add: geo_permits_def geo_Allow_iff uppercase_set_def)

lemma allows_compile_geo:
  "allows X ctx (compile_geo b) \<longleftrightarrow>
     geo_permits (case geo_allow_countries b of None \<Rightarrow> [] | Some cs \<Rightarrow> cs)
       (case geo_deny_countries b of None \<Rightarrow> [] | Some cs \<Rightarrow> cs) ctx"
proof -
  define as where "as = (case geo_allow_countries b of None \<Rightarrow> [] | Some cs \<Rightarrow> cs)"
  define ds where "ds = (case geo_deny_countries b of None \<Rightarrow> [] | Some cs \<Rightarrow> cs)"
  have "geo_permits [] [] ctx"
    by (simp add: geo_permits_def)
  then show ?thesis
    unfolding compile_geo_def Let_def as_def [symmetric] ds_def [symmetric]
    by (auto simp: geo_restriction_permits)
qed

lemma allows_compile_invariants:
  "compile_invariants b i srcs = Ok cs \<Longrightarrow>
     allows X ctx cs \<longleftrightarrow>
     (\<forall>src \<in> set srcs. \<exists>e. parse src = Ret e \<and> eval_predicate e (env_of b ctx) = Ok True)"
  by (induction b i srcs arbitrary: cs rule: compile_invariants.induct)
     (auto simp: and_then_eq_Ok_iff expression_Allow_iff split: outcome.splits)

lemma compile_OkD:
  assumes "compile X H p = Ok cp"
  shows "\<exists>scope time bh exprs.
    compile_scope (binding p) = Ok scope \<and> compile_time_window X (binding p) = Ok time \<and>
    compile_business_hours X (binding p) = Ok bh \<and>
    compile_invariants (binding p) 0 (invariants p) = Ok exprs \<and>
    (allows X ctx (checks cp) \<longleftrightarrow> binding_permits X (binding p) ctx \<and> allows X ctx exprs)"
proof -
  define b where "b = binding p"
  from assms obtain scope time bh exprs where parts: "compile_scope b = Ok scope"
      "compile_time_window X b = Ok time" "compile_business_hours X b = Ok bh"
      "compile_invariants b 0 (invariants p) = Ok exprs"
    by (auto simp: compile_def Let_def b_def and_then_eq_Ok_iff)
  have "allows X ctx (checks cp) \<longleftrightarrow> binding_permits X b ctx \<and> allows X ctx exprs"
    using assms
    unfolding compile_def b_def [symmetric] Let_def parts and_then_simps sum.inject
    unfolding binding_permits_def allows_compile_scope [OF parts(1), where X = X and ctx = ctx, symmetric]
      allows_compile_time_window [OF parts(2), where ctx = ctx, symmetric]
      allows_compile_business_hours [OF parts(3), where ctx = ctx, symmetric]
      allows_compile_geo [where X = X and ctx = ctx and b = b, symmetric]
    by (elim subst)
       (simp only: compiled_policy.select_convs set_append ball_Un allows_when_some
         allows_when_true invariant_evaluate.simps check_Allow_iffs dry_run_evaluate_def
         RATE_WINDOW_SECS_def WEEKLY_WINDOW_SECS_def domains_new_def uppercase_set_def set_map
         conj_assoc simp_thms, simp)
  with parts show ?thesis
    unfolding b_def by blast
qed

lemma evaluate_compile:
  assumes "compile X H p = Ok cp"
  shows "evaluate X cp ctx = Allow \<longleftrightarrow>
    binding_permits X (binding p) ctx \<and>
    (\<forall>src \<in> set (invariants p).
       \<exists>e. parse src = Ret e \<and> eval_predicate e (env_of (binding p) ctx) = Ok True)"
proof -
  obtain exprs where "compile_invariants (binding p) 0 (invariants p) = Ok exprs"
      "allows X ctx (checks cp) \<longleftrightarrow> binding_permits X (binding p) ctx \<and> allows X ctx exprs"
    using compile_OkD [OF assms, of ctx] by blast
  then show ?thesis
    by (simp add: evaluate_def policy_checks.evaluate_Allow_iff allows_compile_invariants)
qed

section \<open>Time windows in minutes\<close>

text \<open>A 24-hour \<open>HH:MM\<close> string in ASCII digits, and the minute of the day it names.\<close>

definition hhmm_ok :: "string \<Rightarrow> bool" where
  "hhmm_ok s \<longleftrightarrow>
     (case s of [a, b, c, d, e] \<Rightarrow>
        c = CHR '':'' \<and> is_ascii_digit a \<and> is_ascii_digit b \<and> is_ascii_digit d \<and> is_ascii_digit e \<and>
        byte d < 54 \<and> (byte a < 50 \<or> byte a = 50 \<and> byte b < 52)
      | _ \<Rightarrow> False)"

definition minutes :: "string \<Rightarrow> nat" where
  "minutes s =
     600 * (byte (s ! 0) - 48) + 60 * (byte (s ! 1) - 48) + 10 * (byte (s ! 3) - 48) + (byte (s ! 4) - 48)"

lemma char_less_byte: "c < d \<longleftrightarrow> byte c < byte d"
  by (simp add: less_char_def byte_def)

lemma char_le_byte: "c \<le> d \<longleftrightarrow> byte c \<le> byte d"
  by (simp add: less_eq_char_def byte_def)

lemma hhmm_okE:
  assumes "hhmm_ok s"
  obtains a b d e where "s = [a, b, CHR '':'', d, e]"
    "48 \<le> byte a" "byte a \<le> 50" "48 \<le> byte b" "byte b \<le> 57" "48 \<le> byte d" "byte d \<le> 53"
    "48 \<le> byte e" "byte e \<le> 57" "byte a = 50 \<longrightarrow> byte b < 52"
  using assms by (auto simp: hhmm_ok_def is_ascii_digit_def split: list.splits)

lemma digits_le_iff:
  fixes a b d e a' b' d' e' :: nat
  assumes "b \<le> 9" "d \<le> 5" "e \<le> 9" "b' \<le> 9" "d' \<le> 5" "e' \<le> 9"
  shows "(a < a' \<or> a = a' \<and> (b < b' \<or> b = b' \<and> (d < d' \<or> d = d' \<and> e \<le> e'))) \<longleftrightarrow>
    600 * a + 60 * b + 10 * d + e \<le> 600 * a' + 60 * b' + 10 * d' + e'" (is "?L \<longleftrightarrow> ?R")
proof
  assume ?L
  then show ?R
    using assms by (elim disjE conjE) linarith+
next
  assume R: ?R
  have "a \<le> a'"
    using R assms by linarith
  moreover have "b \<le> b'" if "a = a'"
    using R assms that by linarith
  moreover have "d \<le> d'" if "a = a'" "b = b'"
    using R assms that by linarith
  moreover have "e \<le> e'" if "a = a'" "b = b'" "d = d'"
    using R that by linarith
  ultimately show ?L
    by (auto simp: order_le_less)
qed

lemma minutes_parts: "minutes [a, b, c, d, e] =
    600 * (byte a - 48) + 60 * (byte b - 48) + 10 * (byte d - 48) + (byte e - 48)"
  by (simp add: minutes_def)

lemma diff_48_cmp:
  fixes m n :: nat
  assumes "48 \<le> m" "48 \<le> n"
  shows "m - 48 < n - 48 \<longleftrightarrow> m < n" "m - 48 = n - 48 \<longleftrightarrow> m = n" "m - 48 \<le> n - 48 \<longleftrightarrow> m \<le> n"
  using assms by arith+

lemma hhmm_le_iff:
  assumes "hhmm_ok s" "hhmm_ok t"
  shows "s \<le> t \<longleftrightarrow> minutes s \<le> minutes t"
  using assms(1)
proof (rule hhmm_okE)
  fix a b d e assume s: "s = [a, b, CHR '':'', d, e]"
    "48 \<le> byte a" "byte a \<le> 50" "48 \<le> byte b" "byte b \<le> 57" "48 \<le> byte d" "byte d \<le> 53"
    "48 \<le> byte e" "byte e \<le> 57"
  show ?thesis
    using assms(2)
  proof (rule hhmm_okE)
    fix a' b' d' e' assume t: "t = [a', b', CHR '':'', d', e']"
      "48 \<le> byte a'" "byte a' \<le> 50" "48 \<le> byte b'" "byte b' \<le> 57" "48 \<le> byte d'" "byte d' \<le> 53"
      "48 \<le> byte e'" "byte e' \<le> 57"
    have "s \<le> t \<longleftrightarrow> byte a < byte a' \<or> byte a = byte a' \<and> (byte b < byte b' \<or> byte b = byte b' \<and>
        (byte d < byte d' \<or> byte d = byte d' \<and> byte e \<le> byte e'))"
      by (auto simp: s(1) t(1) char_less_byte order_le_less [of "byte e"])
    also have "\<dots> \<longleftrightarrow> minutes s \<le> minutes t"
      unfolding s(1) t(1) minutes_parts
      using digits_le_iff [of "byte b - 48" "byte d - 48" "byte e - 48" "byte b' - 48"
          "byte d' - 48" "byte e' - 48" "byte a - 48" "byte a' - 48"] s t
      by (simp only: diff_48_cmp)
    finally show ?thesis .
  qed
qed

section \<open>Compilation of validated policies\<close>

lemma compile_invariants_cases:
  "(\<exists>cs. compile_invariants b i srcs = Ok cs) \<or>
   (\<exists>j err. j < length srcs \<and> parse (srcs ! j) = Fail err \<and>
      (\<forall>k < j. \<exists>e. parse (srcs ! k) = Ret e) \<and>
      compile_invariants b i srcs = Err (InvariantParseError (i + j) (parse_error_display err)))"
proof (induction srcs arbitrary: i)
  case (Cons src srcs)
  have "(\<exists>e. parse src = Ret e) \<or> (\<exists>err. parse src = Fail err)"
    by (rule parse_cases)
  then show ?case
  proof (elim disjE exE)
    fix e assume e: "parse src = Ret e"
    from Cons [of "i + 1"] show ?thesis
    proof (elim disjE exE conjE)
      fix cs assume "compile_invariants b (i + 1) srcs = Ok cs"
      then show ?thesis
        by (simp add: e)
    next
      fix j err
      assume "j < length srcs" "parse (srcs ! j) = Fail err" "\<forall>k < j. \<exists>e. parse (srcs ! k) = Ret e"
        "compile_invariants b (i + 1) srcs = Err (InvariantParseError (i + 1 + j) (parse_error_display err))"
      then have "Suc j < length (src # srcs)" "parse ((src # srcs) ! Suc j) = Fail err"
          "\<forall>k < Suc j. \<exists>e. parse ((src # srcs) ! k) = Ret e"
          "compile_invariants b i (src # srcs) =
             Err (InvariantParseError (i + Suc j) (parse_error_display err))"
        using e by (auto simp: less_Suc_eq_0_disj)
      then show ?thesis
        by blast
    qed
  next
    fix err assume "parse src = Fail err"
    then have "0 < length (src # srcs) \<and> parse ((src # srcs) ! 0) = Fail err \<and>
        (\<forall>k < 0. \<exists>e. parse ((src # srcs) ! k) = Ret e) \<and>
        compile_invariants b i (src # srcs) = Err (InvariantParseError (i + 0) (parse_error_display err))"
      by simp
    then show ?thesis
      by blast
  qed
qed simp

lemma windows_insert_Ok: "\<forall>w \<in> set ws. window_ok X w \<Longrightarrow> \<exists>m'. windows_insert X ws m = Ok m'"
  by (induction ws arbitrary: m) (auto simp: window_ok_def validate_hhmm_def)

lemma binding_ok_compiles:
  assumes "binding_ok X b"
  shows "\<exists>cs. compile_scope b = Ok cs" "\<exists>cs. compile_time_window X b = Ok cs"
    "\<exists>cs. compile_business_hours X b = Ok cs"
proof -
  show "\<exists>cs. compile_scope b = Ok cs"
    by (simp add: compile_scope_def scope_from_scope_def split: option.splits)
  show "\<exists>cs. compile_time_window X b = Ok cs"
    using assms
    by (simp add: compile_time_window_def time_from_window_def validate_hhmm_def binding_ok_def
        split: option.splits)
  show "\<exists>cs. compile_business_hours X b = Ok cs"
  proof (cases "business_hours b")
    case (Some bh)
    then have "\<forall>w \<in> set (weekday_windows bh). window_ok X w"
      using assms by (simp add: binding_ok_def)
    then obtain m where "windows_insert X (weekday_windows bh) Map.empty = Ok m"
      using windows_insert_Ok by blast
    then show ?thesis
      using Some by (simp add: compile_business_hours_def business_hours_from_config_def)
  qed (simp add: compile_business_hours_def)
qed

section \<open>Successful evaluations\<close>

lemma eval_predicate_Ok_iff: "eval_predicate e env = Ok b \<longleftrightarrow> eval e env = Ok (VBool b)"
proof (cases "eval e env")
  case (Inr v)
  then show ?thesis
    by (cases v) (auto simp: eval_predicate_def)
qed (simp add: eval_predicate_def)

lemma f64_finite_iff: "f64_is_finite x \<longleftrightarrow> (\<exists>k. x = Fin k)"
  by (cases x) auto

lemma num_cmp_Ok_iff:
  "num_cmp op x y = Ok v \<longleftrightarrow>
     (\<exists>j k. x = VNum (Fin j) \<and> y = VNum (Fin k) \<and> v = VBool (cmp_f64 op (Fin j) (Fin k)))"
  by (cases x; cases y) (auto simp: num_cmp_def f64_finite_iff)

lemma num_arith_OkD:
  "num_arith op x y = Ok v \<Longrightarrow>
     \<exists>j k m. x = VNum (Fin j) \<and> y = VNum (Fin k) \<and> v = VNum (Fin m) \<and>
       arith_f64 op (Fin j) (Fin k) = Fin m"
  by (cases x; cases y) (auto simp: num_arith_def f64_finite_iff Let_def split: if_splits)

lemma apply_binary_op:
  "op \<in> {Lt, Lte, Gt, Gte} \<Longrightarrow> apply_binary op x y = num_cmp op x y"
  "op \<in> {Add, Sub} \<Longrightarrow> apply_binary op x y = num_arith op x y"
  by (cases op; simp)+

section \<open>Properties of the policy engine\<close>

subsection \<open>A concrete policy\<close>

definition demo_externs :: externs where
  "demo_externs =
     \<lparr> re_is_match = \<lambda>pat s. pat = HHMM_RE \<and> hhmm_ok s,
       tz_from_str = \<lambda>tz. if tz = ''UTC'' then Ok () else Err ''unknown zone'' \<rparr>"

definition demo_hashers :: hashers where
  "demo_hashers = \<lparr> sha256 = \<lambda>s. s, hex_encode = \<lambda>s. s, policy_to_json = \<lambda>p. agent p \<rparr>"

definition demo_binding :: binding where
  "demo_binding = binding_default
     \<lparr> max_budget_usd := Some (f64_of_int 100), allowed_tools := Some [''pay''],
       time_window := Some \<lparr> tw_start = ''09:00'', tw_end = ''18:00'', tw_timezone = ''UTC'' \<rparr>,
       required_signatures := Some [\<lparr> sr_role = ''cfo'', sr_threshold = 2 \<rparr>] \<rparr>"

definition demo_policy :: "string list \<Rightarrow> policy" where
  "demo_policy invs =
     \<lparr> version = ''1'', agent = ''a'', description = None, binding = demo_binding,
       invariants = invs, policy_meta = metadata_default \<rparr>"

definition demo_action :: action where
  "demo_action = action_default
     \<lparr> tool := ''pay'', amount_usd := Some (f64_of_int 50),
       signatures := [''cfo:ann'', ''cfo:bob''] \<rparr>"

definition demo_ctx :: evaluation_context where
  "demo_ctx = (with_defaults demo_action) \<lparr> spend_total_usd := f64_of_int 40, now_tz_hhmm := ''12:30'' \<rparr>"

lemma parse_demo_invariant:
  "parse ''spend_total <= max_budget_usd'' =
     Ret (EBinary Lte (EIdent ''spend_total'') (EIdent ''max_budget_usd''))"
proof -
  have "lex ''spend_total <= max_budget_usd'' =
      Ok [(TIdent ''spend_total'', 0), (TOp Lte, 12), (TIdent ''max_budget_usd'', 15), (TEof, 29)]"
    by code_simp
  then show ?thesis
    by (simp add: parse_def parse_tokens_def parse_depth_def parser_eval)
qed

lemma hhmm_ok_demo: "hhmm_ok ''09:00''" "hhmm_ok ''18:00''" "hhmm_ok ''12:30''"
  by code_simp+

lemmas demo_defs =
  demo_externs_def demo_hashers_def demo_binding_def demo_policy_def demo_action_def demo_ctx_def
  binding_default_def metadata_default_def action_default_def with_defaults_def

lemma demo_compiles:
  "\<exists>cp. compile demo_externs demo_hashers (demo_policy [''spend_total <= max_budget_usd'']) = Ok cp"
  by (simp add: compile_def compile_scope_def compile_time_window_def time_from_window_def
      compile_business_hours_def validate_hhmm_def parse_demo_invariant Let_def demo_defs hhmm_ok_demo)

lemma demo_policy_validates: "validate demo_externs (demo_policy []) = Ok ()"
proof -
  have "trim ''a'' = ''a''" "trim ''cfo'' = ''cfo''"
    by (simp_all add: trim_graphic is_graphic_def byte_def)
  then show ?thesis
    by (simp add: validate_def validate_binding_Ok_iff binding_ok_def SUPPORTED_VERSION_def usd_ok_def
        demo_defs hhmm_ok_demo f64_int_simps)
qed

lemma demo_distinct: "distinct_role_signatures [''cfo:ann'', ''cfo:bob''] ''cfo'' = 2"
  by code_simp

lemma demo_permits: "binding_permits demo_externs demo_binding demo_ctx"
proof -
  have "in_window ''09:00'' ''18:00'' ''12:30''"
    by code_simp
  then show ?thesis
    unfolding binding_permits_def
    by (simp add: demo_defs amount_or_zero_def geo_permits_def demo_distinct f64_int_simps)
qed

lemma demo_invariant_holds:
  "eval_predicate (EBinary Lte (EIdent ''spend_total'') (EIdent ''max_budget_usd''))
     (env_of demo_binding demo_ctx) = Ok True"
  by (simp add: eval_predicate_def resolve_ident_def num_or_null_def num_cmp_def cmp_f64_def
      env_of_def demo_defs f64_int_simps f64_le_def)



text \<open>
  Tracing does not change the decision: the traced evaluation returns the verdict of the
  fail-fast evaluation, together with the verdict of every check in order.
\<close>

theorem traced_evaluation_agrees:
  "evaluate_with_trace X cp ctx =
     (evaluate X cp ctx, map (\<lambda>c. (check_name c, check_evaluate X c ctx)) (checks cp))"
  by (simp add: evaluate_with_trace_def evaluate_def policy_checks.trace_loop_eq is_allow_def)

text \<open>
  C2. A denied evaluation names the first check, in compiled order, that denies the action, and
  every check before it allows.
\<close>

theorem deny_names_first_failing_check:
  assumes "evaluate X cp ctx = Deny n r"
  shows "\<exists>us c vs. checks cp = us @ c # vs \<and> (\<forall>u \<in> set us. check_evaluate X u ctx = Allow) \<and>
    check_evaluate X c ctx = Deny n r \<and> n = check_name c"
  using assms unfolding evaluate_def by (rule policy_checks.evaluate_Deny)

theorem deny_names_first_failing_check_witness:
  "\<exists>us c vs. [Inv DryRunCheck, Inv DataFlowCheck] = us @ c # vs \<and>
     (\<forall>u \<in> set us. check_evaluate demo_externs u demo_ctx = Allow) \<and>
     check_evaluate demo_externs c demo_ctx =
       data_flow_evaluate demo_ctx \<and> ''data_flow'' = check_name c"
  using deny_names_first_failing_check
    [of demo_externs "\<lparr> policy_id = [], compiled_agent = [],
        checks = [Inv DryRunCheck, Inv DataFlowCheck], raw = demo_policy [] \<rparr>" demo_ctx]
  by (simp add: evaluate_def data_flow_evaluate_def dry_run_evaluate_def)

text \<open>
  C3. A policy that passed semantic validation compiles unless one of its free-form invariants
  does not parse; the error then carries the index of the first such invariant and its parse error.
  The compiler never panics on a validated policy.
\<close>

theorem validated_policy_compiles:
  assumes "validate X p = Ok ()"
  shows "(\<exists>cp. compile X H p = Ok cp) \<or>
    (\<exists>j err. j < length (invariants p) \<and> parse (invariants p ! j) = Fail err \<and>
       (\<forall>k < j. \<exists>e. parse (invariants p ! k) = Ret e) \<and>
       compile X H p = Err (InvariantParseError j (parse_error_display err)))"
proof -
  have "binding_ok X (binding p)"
    using assms by (auto simp: validate_def validate_binding_Ok_iff split: if_splits)
  from binding_ok_compiles [OF this] obtain s t h where parts:
      "compile_scope (binding p) = Ok s" "compile_time_window X (binding p) = Ok t"
      "compile_business_hours X (binding p) = Ok h"
    by blast
  show ?thesis
    using compile_invariants_cases [of "binding p" 0 "invariants p"]
    by (auto simp: compile_def Let_def parts)
qed

theorem validated_policy_compiles_witness:
  "validate demo_externs (demo_policy []) = Ok () \<and>
   (\<exists>cp. compile demo_externs demo_hashers (demo_policy []) = Ok cp)"
proof -
  have "\<exists>cp. compile demo_externs demo_hashers (demo_policy []) = Ok cp"
    using validated_policy_compiles [OF demo_policy_validates, of demo_hashers] by (simp add: demo_policy_def)
  then show ?thesis
    using demo_policy_validates by blast
qed

text \<open>
  C4. Validation accepts exactly the policies of version 1 with a non-blank agent whose binding
  is well formed: finite non-negative money limits, positive rates, 24-hour windows in known time
  zones, disjoint scopes, positive signature thresholds with named roles, dates of the right shape.
\<close>

theorem validate_accepts_exactly:
  "validate X p = Ok () \<longleftrightarrow>
     version p = ''1'' \<and> trim (agent p) \<noteq> [] \<and> binding_ok X (binding p)"
  by (simp add: validate_def SUPPORTED_VERSION_def validate_binding_Ok_iff)

text \<open>
  C5. Parsing an invariant expression always ends with an expression or with an error: for no
  input does the parser read past the token vector or fail to terminate.
\<close>

theorem parse_always_returns: "(\<exists>e. parse s = Ret e) \<or> (\<exists>err. parse s = Fail err)"
  by (rule parse_cases)

text \<open>
  A successful lexer run yields tokens at strictly increasing byte offsets followed by exactly
  one end-of-input sentinel, which stands at the length of the source.
\<close>

theorem lex_yields_token_stream:
  assumes "lex s = Ok ts"
  shows "token_stream (length s) ts"
  using assms lex_from_stream [of 0 s ts] by (simp add: lex_def)

theorem lex_yields_token_stream_witness:
  "lex ''a < b'' = Ok [(TIdent ''a'', 0), (TOp Lt, 2), (TIdent ''b'', 4), (TEof, 5)] \<and>
   token_stream 5 [(TIdent ''a'', 0), (TOp Lt, 2), (TIdent ''b'', 4), (TEof, 5)]"
proof -
  have *: "lex ''a < b'' =
      Ok [(TIdent ''a'', 0), (TOp Lt, 2), (TIdent ''b'', 4), (TEof, 5)]"
    by code_simp
  show ?thesis
    using lex_yields_token_stream [OF *] * by (simp add: eval_nat_numeral)
qed

text \<open>
  C6. Ordering comparisons fail closed: if a comparison evaluates to a verdict at all, both sides
  evaluated to finite numbers, and the verdict is the order of these numbers.
\<close>

theorem comparison_fails_closed:
  assumes "op \<in> {Lt, Lte, Gt, Gte}" "eval_predicate (EBinary op l r) env = Ok b"
  shows "\<exists>j k. eval l env = Ok (VNum (Fin j)) \<and> eval r env = Ok (VNum (Fin k)) \<and>
    (b \<longleftrightarrow> (case op of Lt \<Rightarrow> j < k | Lte \<Rightarrow> j \<le> k | Gt \<Rightarrow> k < j | _ \<Rightarrow> k \<le> j))"
proof -
  obtain x y where "eval l env = Ok x" "eval r env = Ok y" "num_cmp op x y = Ok (VBool b)"
    using assms by (auto simp: eval_predicate_Ok_iff and_then_eq_Ok_iff apply_binary_op)
  moreover from this obtain j k where "x = VNum (Fin j)" "y = VNum (Fin k)"
      "b = cmp_f64 op (Fin j) (Fin k)"
    by (auto simp: num_cmp_Ok_iff)
  ultimately show ?thesis
    using assms(1) by (cases op) (simp_all add: cmp_f64_def)
qed

theorem comparison_fails_closed_witness:
  "\<exists>j k. eval (EIdent ''spend_total'') (env_of demo_binding demo_ctx) = Ok (VNum (Fin j)) \<and>
     eval (EIdent ''max_budget_usd'') (env_of demo_binding demo_ctx) = Ok (VNum (Fin k)) \<and> j \<le> k"
  using comparison_fails_closed [OF _ demo_invariant_holds] by simp

text \<open>
  Arithmetic in invariant expressions never yields an infinity or a NaN: a sum or difference
  that evaluates at all is a finite number, the correctly rounded result on finite operands.
\<close>

theorem arithmetic_fails_closed:
  assumes "op \<in> {Add, Sub}" "eval (EBinary op l r) env = Ok v"
  shows "\<exists>j k m. eval l env = Ok (VNum (Fin j)) \<and> eval r env = Ok (VNum (Fin k)) \<and>
    v = VNum (Fin m) \<and> round_f64 (if op = Add then j + k else j - k) 1 = Fin m"
proof -
  obtain x y where "eval l env = Ok x" "eval r env = Ok y" "num_arith op x y = Ok v"
    using assms by (auto simp: and_then_eq_Ok_iff apply_binary_op)
  moreover from this obtain j k m where "x = VNum (Fin j)" "y = VNum (Fin k)" "v = VNum (Fin m)"
      "arith_f64 op (Fin j) (Fin k) = Fin m"
    using num_arith_OkD by blast
  ultimately show ?thesis
    using assms(1) by (cases op) (simp_all add: arith_f64_def f64_sub_def)
qed

theorem arithmetic_fails_closed_witness:
  "\<exists>m. eval (EBinary Add (ENum (f64_of_int 2)) (ENum (f64_of_int 3))) (env_of demo_binding demo_ctx)
     = Ok (VNum (Fin m))"
proof -
  have "eval (EBinary Add (ENum (f64_of_int 2)) (ENum (f64_of_int 3))) (env_of demo_binding demo_ctx)
      = Ok (VNum (f64_of_int 5))"
    by (simp add: num_arith_def arith_f64_def f64_int_simps)
  from arithmetic_fails_closed [OF _ this] this show ?thesis
    by auto
qed

text \<open>
  C7. M-of-N approval cannot be met by repeating a signature: if the signature check allows an
  action, every required role is borne by at least the threshold of different signature entries.
\<close>

theorem signature_threshold_counts_distinct:
  assumes "signature_evaluate reqs ctx = Allow" "req \<in> set reqs"
    and "length (signatures (ctx_action ctx)) < 2 ^ 32"
  shows "unat (sr_threshold req) \<le>
    card {s \<in> set (signatures (ctx_action ctx)). signature_bears_role s (sr_role req)}"
proof -
  let ?S = "{s \<in> set (signatures (ctx_action ctx)). signature_bears_role s (sr_role req)}"
  have "card ?S \<le> card (set (signatures (ctx_action ctx)))"
    by (rule card_mono) auto
  then have "card ?S < 2 ^ 32"
    using assms(3) card_length [of "signatures (ctx_action ctx)"] by linarith
  then have "unat (of_nat (card ?S) :: u32) = card ?S"
    by (simp add: unat_of_nat)
  moreover have "sr_threshold req \<le> of_nat (card ?S)"
    using assms(1,2) by (simp add: signature_Allow_iff distinct_role_signatures_def)
  ultimately show ?thesis
    by (simp add: word_le_nat_alt)
qed

theorem signature_threshold_counts_distinct_witness:
  "2 \<le> card {s \<in> set [''cfo:ann'', ''cfo:bob'']. signature_bears_role s ''cfo''}"
  using signature_threshold_counts_distinct
    [of "[\<lparr> sr_role = ''cfo'', sr_threshold = 2 \<rparr>]" demo_ctx "\<lparr> sr_role = ''cfo'', sr_threshold = 2 \<rparr>"]
  by (simp add: signature_Allow_iff demo_defs demo_distinct)

text \<open>
  The time windows mean what they say: on 24-hour times, the string comparison of the check
  agrees with the minutes of the day, and a window that ends before it starts wraps over midnight.
\<close>

theorem in_window_minutes:
  assumes "hhmm_ok s" "hhmm_ok e" "hhmm_ok t"
  shows "in_window s e t \<longleftrightarrow>
    (if minutes s \<le> minutes e then minutes s \<le> minutes t \<and> minutes t \<le> minutes e
     else minutes s \<le> minutes t \<or> minutes t \<le> minutes e)"
  using assms by (simp add: in_window_def hhmm_le_iff)

theorem in_window_minutes_witness:
  "in_window ''18:00'' ''09:00'' ''12:30'' \<longleftrightarrow>
    (if minutes ''18:00'' \<le> minutes ''09:00'' then
       minutes ''18:00'' \<le> minutes ''12:30'' \<and> minutes ''12:30'' \<le> minutes ''09:00''
     else minutes ''18:00'' \<le> minutes ''12:30'' \<or> minutes ''12:30'' \<le> minutes ''09:00'')"
  using in_window_minutes [OF hhmm_ok_demo(2) hhmm_ok_demo(1) hhmm_ok_demo(3)] .

text \<open>
  Budget denials are monotone: with a finite spend total, an action denied for its amount is
  also denied for any larger amount.
\<close>

theorem budget_denial_monotone:
  assumes "f64_is_finite (spend_total_usd ctx)" "budget_evaluate cap ctx \<noteq> Allow"
    and "f64_le (amount_or_zero ctx) (amount_or_zero ctx')" "spend_total_usd ctx' = spend_total_usd ctx"
  shows "budget_evaluate cap ctx' \<noteq> Allow"
  using assms f64_lt_le_trans [OF _ f64_add_mono [OF assms(1,3)]]
  by (simp add: amount_checks_Allow_iff)

theorem budget_denial_monotone_witness:
  "budget_evaluate (f64_of_int 80) demo_ctx \<noteq> Allow \<and>
   budget_evaluate (f64_of_int 80)
     (demo_ctx \<lparr> ctx_action := demo_action \<lparr> amount_usd := Some (f64_of_int 60) \<rparr> \<rparr>) \<noteq> Allow"
proof -
  have *: "budget_evaluate (f64_of_int 80) demo_ctx \<noteq> Allow"
    by (simp add: amount_checks_Allow_iff amount_or_zero_def demo_defs f64_int_simps)
  show ?thesis
    using * budget_denial_monotone [OF _ *, of "demo_ctx \<lparr> ctx_action := demo_action \<lparr> amount_usd :=
        Some (f64_of_int 60) \<rparr> \<rparr>"]
    by (simp add: amount_or_zero_def demo_defs f64_int_simps f64_le_def)
qed

text \<open>
  A cooldown of 2 to the 63 seconds or more is read as a negative gap and never denies: the
  cast to a signed integer wraps around.
\<close>

theorem cooldown_wraps_around:
  assumes "2 ^ 63 \<le> uint secs" "last_action_at ctx = Some prev" "prev \<le> now_epoch ctx"
  shows "cooldown_evaluate secs ctx = Allow"
proof -
  have u: "uint secs < 2 ^ 64"
    using uint_lt2p [of secs] by simp
  have "uint secs div 2 ^ 63 = 1"
    by (rule int_div_pos_eq [where r = "uint secs - 2 ^ 63"]) (use assms(1) u in simp_all)
  then have "bit (uint secs) 63"
    by (simp add: bit_iff_odd)
  then have "sint secs = uint secs - 2 ^ 64"
    using u by (simp add: sint_uint signed_take_bit_eq_take_bit_minus take_bit_int_eq_self)
  with u have "sint secs < 0"
    by simp
  moreover have "0 \<le> i64_saturating_sub (now_epoch ctx) prev"
    using assms(3) i64_clamp_mono [of 0 "now_epoch ctx - prev"]
    by (simp add: i64_saturating_sub_def is_i64_def i64_MIN_def i64_MAX_def)
  ultimately show ?thesis
    using assms(2) by (simp add: rate_checks_Allow_iff)
qed

theorem cooldown_wraps_around_witness:
  "cooldown_evaluate (2 ^ 63) (demo_ctx \<lparr> last_action_at := Some 100, now_epoch := 100 \<rparr>) = Allow"
  by (rule cooldown_wraps_around [where prev = 100]) simp_all

end
