(* ===== verification/Policy_Store.thy ===== *)
theory Policy_Store
  imports Policy_Spec Repository "HOL-Library.AList"
begin

text \<open>
  The policy store of \<open>policy/store.rs\<close> (the table \<open>policies\<close> with its in-memory index), its handlers
  \<open>upload\<close>, \<open>list\<close>, \<open>get_one\<close> and \<open>delete_one\<close> of \<open>policy/handlers.rs\<close>, and the bindings of
  agents to policies of \<open>policy/binding_handlers.rs\<close>.

  The maps of the index are association lists without repeated keys; the order in which the
  code iterates over a \<open>HashMap\<close> is not specified, and the order of the list stands for it.
  \<open>poisoned\<close> says that a thread panicked while it held the write lock of the index.  The
  serialisers of policy documents are third-party functions in the record \<open>policy_tools\<close>.
\<close>

section \<open>The store\<close>

record policy_tools =
  pt_externs :: externs
  pt_hashers :: hashers
  json_policy_from_str :: deserialiser
  yaml_policy_from_str :: deserialiser
  yaml_policy_to_string :: "policy \<Rightarrow> (string, string) result"
  envelope_from_str :: "string \<Rightarrow> (string, string) result"

datatype store_error =
    StoreDb string
  | StoreParse policy_parse_error
  | StoreCompile compile_error
  | StoreLock

record policy_summary =
  ps_policy_id :: string
  ps_agent :: string
  ps_version :: string
  ps_updated_at :: i64

type_synonym tenant_key = "string \<times> string"

record store_index =
  by_id :: "(tenant_key \<times> compiled_policy) list"
  by_agent :: "(tenant_key \<times> string) list"
  policy_updated_at :: "(tenant_key \<times> i64) list"
  poisoned :: bool

definition new_store :: store_index where
  "new_store = \<lparr>by_id = [], by_agent = [], policy_updated_at = [], poisoned = False\<rparr>"

definition index_insert :: "string \<Rightarrow> string \<Rightarrow> compiled_policy \<Rightarrow> i64 \<Rightarrow> store_index \<Rightarrow> store_index" where
  "index_insert tenant id' cp now idx =
     idx\<lparr>by_id := AList.update (tenant, id') cp (by_id idx),
         by_agent := AList.update (tenant, compiled_agent cp) id' (by_agent idx),
         policy_updated_at := AList.update (tenant, id') now (policy_updated_at idx)\<rparr>"

fun hydrate_rows ::
  "policy_tools \<Rightarrow> policy_row list \<Rightarrow> nat \<Rightarrow> store_index \<Rightarrow> (store_error, nat) result \<times> store_index" where
  "hydrate_rows T [] n idx = (Ok n, idx)"
| "hydrate_rows T (r # rs) n idx =
     (case parse_policy (pt_externs T) (json_policy_from_str T) (yaml_policy_from_str T) (po_raw_yaml r) of
        Err e \<Rightarrow> (Err (StoreParse e), idx)
      | Ok p \<Rightarrow>
          (case compile (pt_externs T) (pt_hashers T) p of
             Err e \<Rightarrow> (Err (StoreCompile e), idx)
           | Ok cp \<Rightarrow>
               hydrate_rows T rs (n + 1)
                 (index_insert (po_tenant_id r) (po_policy_id r) cp (po_updated_at r) idx)))"

definition hydrate ::
  "policy_tools \<Rightarrow> any_env \<Rightarrow> database \<Rightarrow> store_index \<Rightarrow> (store_error, nat) result \<times> store_index" where
  "hydrate T conn db idx =
     (case lock_fault conn of
        Some e \<Rightarrow> (Err (StoreDb e), idx)
      | None \<Rightarrow>
          (case run_stmt conn 0 False (policies db) of
             Err e \<Rightarrow> (Err (StoreDb e), idx)
           | Ok rows \<Rightarrow> if poisoned idx then (Err StoreLock, idx) else hydrate_rows T rows 0 idx))"

text \<open>\<open>INSERT \<dots> ON CONFLICT(policy_id) DO UPDATE\<close>.\<close>

definition policies_upsert ::
  "string \<Rightarrow> compiled_policy \<Rightarrow> string \<Rightarrow> i64 \<Rightarrow> policy_row list \<Rightarrow> policy_row list" where
  "policies_upsert tenant cp raw_yaml now rows =
     (if list_ex (\<lambda>r. po_policy_id r = policy_id cp) rows
      then map (\<lambda>r. if po_policy_id r = policy_id cp
                    then r\<lparr>po_agent := compiled_agent cp, po_version := version (raw cp),
                           po_raw_yaml := raw_yaml, po_updated_at := now, po_tenant_id := tenant\<rparr>
                    else r) rows
      else rows @ [\<lparr>po_policy_id = policy_id cp, po_agent = compiled_agent cp,
                    po_version = version (raw cp), po_raw_yaml = raw_yaml, po_created_at = now,
                    po_updated_at = now, po_tenant_id = tenant\<rparr>])"

definition upsert_tenant ::
  "policy_tools \<Rightarrow> any_env \<Rightarrow> i64 \<Rightarrow> string \<Rightarrow> compiled_policy \<Rightarrow> database \<times> store_index \<Rightarrow>
   (store_error, unit) result \<times> database \<times> store_index" where
  "upsert_tenant T conn now tenant cp st =
     (case yaml_policy_to_string T (raw cp) of
        Err e \<Rightarrow> (Err (StoreDb (''serialize: '' @ e)), st)
      | Ok raw_yaml \<Rightarrow>
          (case lock_fault conn of
             Some e \<Rightarrow> (Err (StoreDb e), st)
           | None \<Rightarrow>
               (case run_stmt conn 0 False ((fst st)\<lparr>policies :=
                       policies_upsert tenant cp raw_yaml now (policies (fst st))\<rparr>) of
                  Err e \<Rightarrow> (Err (StoreDb e), st)
                | Ok db \<Rightarrow>
                    if poisoned (snd st) then (Err StoreLock, db, snd st)
                    else (Ok (), db, index_insert tenant (policy_id cp) cp now (snd st)))))"

definition upsert ::
  "policy_tools \<Rightarrow> any_env \<Rightarrow> i64 \<Rightarrow> compiled_policy \<Rightarrow> database \<times> store_index \<Rightarrow>
   (store_error, unit) result \<times> database \<times> store_index" where
  "upsert T conn now cp st = upsert_tenant T conn now DEFAULT_TENANT cp st"

definition get_by_id_tenant :: "store_index \<Rightarrow> string \<Rightarrow> string \<Rightarrow> compiled_policy option" where
  "get_by_id_tenant idx tenant id' =
     (if poisoned idx then None else map_of (by_id idx) (tenant, id'))"

definition get_by_id :: "store_index \<Rightarrow> string \<Rightarrow> compiled_policy option" where
  "get_by_id idx id' = get_by_id_tenant idx DEFAULT_TENANT id'"

definition get_by_agent_tenant :: "store_index \<Rightarrow> string \<Rightarrow> string \<Rightarrow> compiled_policy option" where
  "get_by_agent_tenant idx tenant ag =
     (if poisoned idx then None
      else Option.bind (map_of (by_agent idx) (tenant, ag)) (\<lambda>id'. map_of (by_id idx) (tenant, id')))"

definition get_by_agent :: "store_index \<Rightarrow> string \<Rightarrow> compiled_policy option" where
  "get_by_agent idx ag = get_by_agent_tenant idx DEFAULT_TENANT ag"

definition summary_of :: "store_index \<Rightarrow> tenant_key \<times> compiled_policy \<Rightarrow> policy_summary" where
  "summary_of idx e =
     \<lparr>ps_policy_id = snd (fst e), ps_agent = compiled_agent (snd e), ps_version = version (raw (snd e)),
      ps_updated_at = (case map_of (policy_updated_at idx) (fst e) of Some t \<Rightarrow> t | None \<Rightarrow> 0)\<rparr>"

definition list_all_policies :: "store_index \<Rightarrow> policy_summary list" where
  "list_all_policies idx = (if poisoned idx then [] else map (summary_of idx) (by_id idx))"

definition list_for_tenant :: "store_index \<Rightarrow> string \<Rightarrow> policy_summary list" where
  "list_for_tenant idx tenant =
     (if poisoned idx then []
      else map (summary_of idx) (filter (\<lambda>e. fst (fst e) = tenant) (by_id idx)))"

definition index_remove :: "string \<Rightarrow> string \<Rightarrow> store_index \<Rightarrow> store_index" where
  "index_remove tenant id' idx =
     (let idx' = (case map_of (by_id idx) (tenant, id') of
                    Some cp \<Rightarrow>
                      idx\<lparr>by_id := AList.delete (tenant, id') (by_id idx),
                          by_agent := AList.delete (tenant, compiled_agent cp) (by_agent idx)\<rparr>
                  | None \<Rightarrow> idx)
      in idx'\<lparr>policy_updated_at := AList.delete (tenant, id') (policy_updated_at idx')\<rparr>)"

definition delete_tenant ::
  "any_env \<Rightarrow> string \<Rightarrow> string \<Rightarrow> database \<times> store_index \<Rightarrow>
   (store_error, unit) result \<times> database \<times> store_index" where
  "delete_tenant conn tenant id' st =
     (case lock_fault conn of
        Some e \<Rightarrow> (Err (StoreDb e), st)
      | None \<Rightarrow>
          (case run_stmt conn 0 False ((fst st)\<lparr>policies :=
                  filter (\<lambda>r. \<not> (po_policy_id r = id' \<and> po_tenant_id r = tenant)) (policies (fst st))\<rparr>) of
             Err e \<Rightarrow> (Err (StoreDb e), st)
           | Ok db \<Rightarrow>
               if poisoned (snd st) then (Err StoreLock, db, snd st)
               else (Ok (), db, index_remove tenant id' (snd st))))"

definition delete_policy ::
  "any_env \<Rightarrow> string \<Rightarrow> database \<times> store_index \<Rightarrow> (store_error, unit) result \<times> database \<times> store_index" where
  "delete_policy conn id' st = delete_tenant conn DEFAULT_TENANT id' st"

section \<open>The handlers of the store\<close>

text \<open>\<open>CompilePanic\<close> is no value of the source: the last equation only makes the function total.\<close>

fun compile_error_display :: "compile_error \<Rightarrow> msg" where
  "compile_error_display (InvalidScope m) = Fmt ''invalid scope: {m}'' [AMsg m]"
| "compile_error_display (InvalidTimeWindow m) = Fmt ''invalid time window: {m}'' [AMsg m]"
| "compile_error_display (InvariantParseError n m) =
     Fmt ''invariant #{line} parse error: {msg}'' [AInt (int n), AMsg m]"
| "compile_error_display CompilePanic = Msg []"

fun store_error_display :: "store_error \<Rightarrow> msg" where
  "store_error_display (StoreDb e) = Fmt ''db: {s}'' [AStr e]"
| "store_error_display (StoreParse e) = Fmt ''parse: {e}'' [AMsg (policy_parse_error_display e)]"
| "store_error_display (StoreCompile e) = Fmt ''compile: {e}'' [AMsg (compile_error_display e)]"
| "store_error_display StoreLock = Msg ''store lock poisoned''"

record upload_response =
  up_policy_id :: string
  up_agent :: string
  up_checks :: "string list"

text \<open>The tenant of a request without the tenancy middleware is the default one.\<close>

definition tenant_or_default :: "string option \<Rightarrow> string" where
  "tenant_or_default t = (case t of Some t \<Rightarrow> t | None \<Rightarrow> DEFAULT_TENANT)"

definition parse_or_yaml :: "policy_tools \<Rightarrow> string \<Rightarrow> (policy_parse_error, policy) result" where
  "parse_or_yaml T input =
     (if prefix ''{'' (trim_start input) then parse_json (pt_externs T) (json_policy_from_str T) input
      else parse_yaml (pt_externs T) (yaml_policy_from_str T) input)"

definition read_upload :: "policy_tools \<Rightarrow> request \<Rightarrow> (app_error, string) result" where
  "read_upload T req =
     (let content_type = (case header_str req ''content-type'' of Some v \<Rightarrow> v | None \<Rightarrow> ''application/json'')
      in if prefix ''application/yaml'' content_type \<or> prefix ''text/yaml'' content_type \<or>
            prefix ''application/x-yaml'' content_type
         then Ok (rq_body req)
         else map_err (\<lambda>e. BadRequest (Fmt ''invalid envelope: {e}'' [AStr e])) (envelope_from_str T (rq_body req)))"

definition upload ::
  "policy_tools \<Rightarrow> any_env \<Rightarrow> i64 \<Rightarrow> request \<Rightarrow> database \<times> store_index \<Rightarrow>
   (app_error, upload_response) result \<times> database \<times> store_index" where
  "upload T conn now req st =
     (case and_then (read_upload T req) (\<lambda>text.
           and_then (map_err (\<lambda>e. BadRequest (Fmt ''policy parse: {e}'' [AMsg (policy_parse_error_display e)]))
             (parse_or_yaml T text)) (\<lambda>p.
           map_err (\<lambda>e. BadRequest (Fmt ''policy compile: {e}'' [AMsg (compile_error_display e)]))
             (compile (pt_externs T) (pt_hashers T) p))) of
        Err e \<Rightarrow> (Err e, st)
      | Ok cp \<Rightarrow>
          (case upsert_tenant T conn now (tenant_or_default (rq_tenant req)) cp st of
             (Err e, st') \<Rightarrow> (Err (Internal (Fmt ''store upsert: {e}'' [AMsg (store_error_display e)])), st')
           | (Ok _, st') \<Rightarrow>
               (Ok \<lparr>up_policy_id = policy_id cp, up_agent = compiled_agent cp,
                    up_checks = map check_name (checks cp)\<rparr>, st')))"

definition list_policies :: "string option \<Rightarrow> store_index \<Rightarrow> policy_summary list" where
  "list_policies tenant idx = list_for_tenant idx (tenant_or_default tenant)"

definition get_one :: "string option \<Rightarrow> string \<Rightarrow> store_index \<Rightarrow> (app_error, policy) result" where
  "get_one tenant id' idx =
     (case get_by_id_tenant idx (tenant_or_default tenant) id' of
        None \<Rightarrow> Err (NotFound (Fmt ''policy {id} not found'' [AStr id']))
      | Some cp \<Rightarrow> Ok (raw cp))"

definition delete_one ::
  "any_env \<Rightarrow> string option \<Rightarrow> string \<Rightarrow> database \<times> store_index \<Rightarrow>
   (app_error, unit) result \<times> database \<times> store_index" where
  "delete_one conn tenant id' st =
     (case delete_tenant conn (tenant_or_default tenant) id' st of
        (Err e, st') \<Rightarrow> (Err (Internal (Fmt ''store delete: {e}'' [AMsg (store_error_display e)])), st')
      | (Ok _, st') \<Rightarrow> (Ok (), st'))"

section \<open>Bindings of agents to policies\<close>

record policy_binding_record =
  br_agent_id :: string
  br_policy_id :: string
  br_bound_at :: i64

definition bind_policy_with_handles ::
  "any_env \<Rightarrow> i64 \<Rightarrow> store_index \<Rightarrow> string \<Rightarrow> string \<Rightarrow> string \<Rightarrow> database \<Rightarrow>
   (app_error, policy_binding_record) result \<times> database" where
  "bind_policy_with_handles conn now idx tenant agent_id pid db =
     (let exists = scalar_or conn 0
            (int (length (filter (\<lambda>a. ag_agent_id a = agent_id \<and> ag_tenant_id a = tenant) (agents db)))) 0
      in if agent_id = [] then (Err (BadRequest (Msg ''agent_id required'')), db)
         else if pid = [] then (Err (BadRequest (Msg ''policy_id required'')), db)
         else if get_by_id_tenant idx tenant pid = None
         then (Err (BadRequest (Fmt ''policy_id {} not found in this tenant'' [AStr pid])), db)
         else if lock_fault conn \<noteq> None then (Err (Internal (Msg ''db lock'')), db)
         else if exists = 0
         then (Err (BadRequest (Fmt ''agent_id {agent_id} not found in this tenant'' [AStr agent_id])), db)
         else
           case run_stmt conn 1 False (db\<lparr>agent_policy_bindings := (agent_policy_bindings db)((tenant, agent_id) \<mapsto>
                   \<lparr>pb_policy_id = pid, pb_bound_at = now\<rparr>)\<rparr>) of
             Err e \<Rightarrow> (Err (Internal (Fmt ''binding upsert: {e}'' [AStr e])), db)
           | Ok db' \<Rightarrow> (Ok \<lparr>br_agent_id = agent_id, br_policy_id = pid, br_bound_at = now\<rparr>, db'))"

definition get_binding_with_handle ::
  "any_env \<Rightarrow> string \<Rightarrow> string \<Rightarrow> database \<Rightarrow> (app_error, policy_binding_record) result" where
  "get_binding_with_handle conn tenant agent_id db =
     (if agent_id = [] then Err (BadRequest (Msg ''agent_id required''))
      else if lock_fault conn \<noteq> None then Err (Internal (Msg ''db lock''))
      else
        case scalar_or conn 0 (agent_policy_bindings db (tenant, agent_id)) None of
          Some b \<Rightarrow> Ok \<lparr>br_agent_id = agent_id, br_policy_id = pb_policy_id b, br_bound_at = pb_bound_at b\<rparr>
        | None \<Rightarrow> Err (NotFound (Fmt ''no binding for agent {agent_id}'' [AStr agent_id])))"

definition unbind_policy_with_handle ::
  "any_env \<Rightarrow> string \<Rightarrow> string \<Rightarrow> database \<Rightarrow> (app_error, unit) result \<times> database" where
  "unbind_policy_with_handle conn tenant agent_id db =
     (if agent_id = [] then (Err (BadRequest (Msg ''agent_id required'')), db)
      else if lock_fault conn \<noteq> None then (Err (Internal (Msg ''db lock'')), db)
      else
        case run_stmt conn 0 False
               (db\<lparr>agent_policy_bindings := (agent_policy_bindings db)((tenant, agent_id) := None)\<rparr>) of
          Err e \<Rightarrow> (Err (Internal (Fmt ''binding delete: {e}'' [AStr e])), db)
        | Ok db' \<Rightarrow> (Ok (), db'))"

definition lookup_bound_policy_id ::
  "any_env \<Rightarrow> string \<Rightarrow> string \<Rightarrow> database \<Rightarrow> (app_error, string option) result" where
  "lookup_bound_policy_id conn tenant agent_id db =
     (if agent_id = [] then Err (BadRequest (Msg ''agent_id required''))
      else if lock_fault conn \<noteq> None then Err (Internal (Msg ''db lock''))
      else map_err (\<lambda>e. Internal (Fmt ''binding lookup: {e}'' [AStr e]))
        (run_stmt conn 0 False (map_option pb_policy_id (agent_policy_bindings db (tenant, agent_id)))))"

section \<open>What survives a restart\<close>

lemma compile_raw: "compile X H p = Ok cp \<Longrightarrow> raw cp = p"
  by (auto simp: compile_def Let_def and_then_eq_Ok_iff)

lemma policies_upsert_rows:
  "r \<in> set (policies_upsert t cp y now rows) \<Longrightarrow> po_policy_id r = policy_id cp \<Longrightarrow>
   po_tenant_id r = t \<and> po_raw_yaml r = y"
  by (auto simp: policies_upsert_def split: if_splits)

lemma policies_upsert_ids:
  "map po_policy_id (policies_upsert t cp y now rows) =
     (if policy_id cp \<in> set (map po_policy_id rows) then map po_policy_id rows
      else map po_policy_id rows @ [policy_id cp])"
  by (auto simp: policies_upsert_def image_iff) metis+

lemma index_insert_by_id [simp]:
  "map_of (by_id (index_insert t i cp now idx)) = (map_of (by_id idx))((t, i) \<mapsto> cp)"
  "poisoned (index_insert t i cp now idx) = poisoned idx"
  by (simp_all add: index_insert_def update_conv')

text \<open>A successful hydration loads every row: an entry of the new index comes from the last row with its key.\<close>

lemma hydrate_rows_lookup:
  assumes "hydrate_rows T rows n idx = (Ok m, idx')" "distinct (map po_policy_id rows)"
  shows "map_of (by_id idx') (t, i) =
    (case find (\<lambda>r. po_policy_id r = i \<and> po_tenant_id r = t) rows of
       None \<Rightarrow> map_of (by_id idx) (t, i)
     | Some r \<Rightarrow>
         (case parse_policy (pt_externs T) (json_policy_from_str T) (yaml_policy_from_str T) (po_raw_yaml r) of
            Ok p \<Rightarrow> (case compile (pt_externs T) (pt_hashers T) p of Ok cp \<Rightarrow> Some cp | Err _ \<Rightarrow> None)
          | Err _ \<Rightarrow> None)) \<and> poisoned idx' = poisoned idx"
  using assms
proof (induction rows arbitrary: n idx)
  case (Cons r rs)
  obtain p cp where ok: "parse_policy (pt_externs T) (json_policy_from_str T) (yaml_policy_from_str T) (po_raw_yaml r) = Ok p"
      "compile (pt_externs T) (pt_hashers T) p = Ok cp"
      "hydrate_rows T rs (n + 1) (index_insert (po_tenant_id r) (po_policy_id r) cp (po_updated_at r) idx) = (Ok m, idx')"
    using Cons.prems(1) by (auto split: sum.splits)
  have "find (\<lambda>r. po_policy_id r = i \<and> po_tenant_id r = t) rs = None" if "po_policy_id r = i"
    using that Cons.prems(2) by (auto simp: find_None_iff) (metis image_eqI)
  then show ?case
    using Cons.IH [OF ok(3)] Cons.prems(2) ok(1,2) by (auto split: option.splits)
qed auto

lemma find_unique:
  assumes "distinct (map f xs)" "x \<in> set xs" "f x = k"
  shows "find (\<lambda>y. f y = k \<and> Q y) xs = (if Q x then Some x else None)"
  using assms
proof (induction xs)
  case (Cons y ys)
  then show ?case
    by (auto simp: find_None_iff) (metis image_eqI)+
qed simp

definition demo_tools :: policy_tools where
  "demo_tools =
     \<lparr>pt_externs = demo_externs, pt_hashers = demo_hashers,
      json_policy_from_str = (\<lambda>s. Err s),
      yaml_policy_from_str = (\<lambda>s. Ok (demo_policy [])),
      yaml_policy_to_string = (\<lambda>p. Ok ''version: 1''), envelope_from_str = (\<lambda>s. Ok s)\<rparr>"

text \<open>
  An upload and a restart.  After a successful upload by tenant \<open>u\<close> the running process
  serves the policy to \<open>u\<close> and every other tenant sees what it saw before.  A process that
  then hydrates its index from the database serves the policy to \<open>u\<close> and to no one else:
  the table has one row per policy id, and the upload moved that row to \<open>u\<close>, away from any tenant
  that had uploaded the same policy before.  The stored text is assumed to parse back to the policy.\<close>

theorem restart_keeps_only_the_last_uploader:
  assumes "distinct (map po_policy_id (policies db))" "\<not> poisoned idx"
    and "compile (pt_externs T) (pt_hashers T) p = Ok cp"
    and "\<And>text. yaml_policy_to_string T p = Ok text \<Longrightarrow>
      parse_policy (pt_externs T) (json_policy_from_str T) (yaml_policy_from_str T) text = Ok p"
    and "upsert_tenant T conn now u cp (db, idx) = (Ok (), db', idx')"
    and "hydrate T conn' db' new_store = (Ok n, idx'')"
  shows "get_by_id_tenant idx' t (policy_id cp) =
      (if t = u then Some cp else get_by_id_tenant idx t (policy_id cp)) \<and>
    get_by_id_tenant idx'' t (policy_id cp) = (if t = u then Some cp else None)"
proof -
  have raw: "raw cp = p"
    by (rule compile_raw [OF assms(3)])
  obtain y where y: "yaml_policy_to_string T p = Ok y"
      "policies db' = policies_upsert u cp y now (policies db)" "idx' = index_insert u (policy_id cp) cp now idx"
    using assms(2,5) by (auto simp: upsert_tenant_def raw split: sum.splits option.splits)
  have hyd: "hydrate_rows T (policies db') 0 new_store = (Ok n, idx'')"
    using assms(6) by (auto simp: hydrate_def new_store_def run_stmt_def split: option.splits if_splits)
  have ids: "distinct (map po_policy_id (policies db'))" "policy_id cp \<in> set (map po_policy_id (policies db'))"
    using assms(1) unfolding y(2) policies_upsert_ids by auto
  then obtain r where r: "r \<in> set (policies db')" "po_policy_id r = policy_id cp"
    by auto
  then have "po_tenant_id r = u" "po_raw_yaml r = y"
    using policies_upsert_rows y(2) by metis+
  then have "map_of (by_id idx'') (t, policy_id cp) = (if t = u then Some cp else None)" "\<not> poisoned idx''"
    using hydrate_rows_lookup [OF hyd ids(1), of t "policy_id cp"] find_unique [OF ids(1) r] assms(3) assms(4) [OF y(1)]
    by (auto simp: new_store_def)
  then show ?thesis
    using assms(2) by (simp add: get_by_id_tenant_def y(3))
qed

lemma trim_start_version: "\<not> prefix ''{'' (trim_start ''version: 1'')"
  by code_simp

theorem restart_keeps_only_the_last_uploader_witness:
  "\<exists>cp db1 idx1 db2 idx2 idx3.
     upsert_tenant demo_tools healthy 1 ''acme'' cp (empty_database, new_store) = (Ok (), db1, idx1) \<and>
     upsert_tenant demo_tools healthy 2 ''globex'' cp (db1, idx1) = (Ok (), db2, idx2) \<and>
     hydrate demo_tools healthy db2 new_store = (Ok 1, idx3) \<and>
     get_by_id_tenant idx2 ''acme'' (policy_id cp) = Some cp \<and>
     get_by_id_tenant idx3 ''acme'' (policy_id cp) = None"
proof -
  have "\<exists>cp. compile demo_externs demo_hashers (demo_policy []) = Ok cp"
    by (simp add: compile_def compile_scope_def compile_time_window_def time_from_window_def
        compile_business_hours_def validate_hhmm_def Let_def demo_defs hhmm_ok_demo)
  then obtain cp where cp: "compile demo_externs demo_hashers (demo_policy []) = Ok cp"
    by blast
  let ?db1 = "empty_database\<lparr>policies := policies_upsert ''acme'' cp ''version: 1'' 1 []\<rparr>"
  let ?idx1 = "index_insert ''acme'' (policy_id cp) cp 1 new_store"
  let ?db2 = "?db1\<lparr>policies := policies_upsert ''globex'' cp ''version: 1'' 2 (policies ?db1)\<rparr>"
  let ?idx2 = "index_insert ''globex'' (policy_id cp) cp 2 ?idx1"
  let ?idx3 = "index_insert ''globex'' (policy_id cp) cp 2 new_store"
  have parsed: "parse_policy demo_externs (\<lambda>s. Err s) (\<lambda>s. Ok (demo_policy [])) ''version: 1'' = Ok (demo_policy [])"
    using demo_policy_validates
    by (simp add: parse_policy_def parse_yaml_def trim_start_version)
  have steps: "upsert_tenant demo_tools healthy 1 ''acme'' cp (empty_database, new_store) = (Ok (), ?db1, ?idx1)"
      "upsert_tenant demo_tools healthy 2 ''globex'' cp (?db1, ?idx1) = (Ok (), ?db2, ?idx2)"
      "hydrate demo_tools healthy ?db2 new_store = (Ok 1, ?idx3)"
    using parsed cp
    by (simp_all add: upsert_tenant_def demo_tools_def healthy_def run_stmt_def empty_database_def new_store_def
        hydrate_def policies_upsert_def) 
  have "get_by_id_tenant ?idx2 ''acme'' (policy_id cp) = Some cp \<and> get_by_id_tenant ?idx3 ''acme'' (policy_id cp) = None"
    using restart_keeps_only_the_last_uploader [OF _ _ _ _ steps(2,3), of "demo_policy []" "''acme''"] cp parsed
    by (simp add: demo_tools_def policies_upsert_def get_by_id_tenant_def new_store_def)
  then show ?thesis
    using steps by blast
qed

section \<open>The store holds compiled policies\<close>

definition compiled_index :: "policy_tools \<Rightarrow> store_index \<Rightarrow> bool" where
  "compiled_index T idx \<longleftrightarrow>
     (\<forall>k cp. map_of (by_id idx) k = Some cp \<longrightarrow> compile (pt_externs T) (pt_hashers T) (raw cp) = Ok cp)"

text \<open>The indexes a process can have: any sequence of hydrations, uploads and deletions, on any databases and connections.\<close>

inductive store_reachable :: "policy_tools \<Rightarrow> store_index \<Rightarrow> bool" for T where
  fresh: "store_reachable T new_store"
| hydrated: "store_reachable T idx \<Longrightarrow> hydrate T conn db idx = (r, idx') \<Longrightarrow> store_reachable T idx'"
| uploaded: "store_reachable T idx \<Longrightarrow> upload T conn now req (db, idx) = (u, db', idx') \<Longrightarrow> store_reachable T idx'"
| deleted: "store_reachable T idx \<Longrightarrow> delete_one conn t i (db, idx) = (d, db', idx') \<Longrightarrow> store_reachable T idx'"

lemma compiled_index_insert:
  assumes "compiled_index T idx" "compile (pt_externs T) (pt_hashers T) p = Ok cp"
  shows "compiled_index T (index_insert t i cp now idx)"
  using assms compile_raw [OF assms(2)] by (auto simp: compiled_index_def)

lemma compiled_index_remove:
  assumes "compiled_index T idx"
  shows "compiled_index T (index_remove t i idx)"
  using assms
  by (auto simp: compiled_index_def index_remove_def Let_def delete_conv' split: option.splits if_splits)

lemma compiled_index_hydrate_rows:
  "compiled_index T idx \<Longrightarrow> hydrate_rows T rows n idx = (r, idx') \<Longrightarrow> compiled_index T idx'"
  by (induction rows arbitrary: n idx) (auto intro: compiled_index_insert split: sum.splits)

lemma compiled_index_upload:
  assumes "compiled_index T idx" "upload T conn now req (db, idx) = (u, db', idx')"
  shows "compiled_index T idx'"
  using assms
  by (auto simp: upload_def upsert_tenant_def and_then_eq_Ok_iff intro: compiled_index_insert
      split: sum.splits option.splits if_splits prod.splits)

lemma store_reachable_compiled: "store_reachable T idx \<Longrightarrow> compiled_index T idx"
proof (induction rule: store_reachable.induct)
  case fresh
  then show ?case by (simp add: compiled_index_def new_store_def)
next
  case (hydrated idx conn db r idx')
  then show ?case
    by (auto simp: hydrate_def intro: compiled_index_hydrate_rows split: option.splits sum.splits if_splits)
next
  case (deleted idx conn t i db d db' idx')
  then show ?case
    by (auto simp: delete_one_def delete_tenant_def intro: compiled_index_remove
        split: option.splits sum.splits if_splits prod.splits)
qed (rule compiled_index_upload)

end
