(* ===== verification/Audit_Log.thy ===== *)
theory Audit_Log
  imports Repository
begin

text \<open>
  The security audit trail of \<open>middleware/audit_log.rs\<close>: the events, the keyed hash chain with
  its append loop and its verification, the sinks, the tenant-scoped query and the
  middleware that records refused requests.

  The chain is an instance of the locale \<open>hash_chain\<close>.  Appending reads the head of the chain and
  inserts the next row; other processes on the same database may write between the
  two.  What they do during attempt \<open>k\<close> is the argument \<open>rivals k\<close>, the identity where the process is
  alone.  The JSON form of an event (\<open>serde_json\<close> on a derived implementation) is a
  third-party function, as is HMAC.
\<close>

section \<open>Events\<close>

datatype audit_event =
    AuthFailed string string msg
  | SignatureMismatch string string
  | CrossTenantAttempt string string string
  | PolicyViolation string string string string msg
  | AdminKeyRotated string
  | RateLimitTripped string string
  | AdminAction string string bool string string nat
  | EgressDenied string string string string string msg

fun event_type :: "audit_event \<Rightarrow> string" where
  "event_type (AuthFailed _ _ _) = ''auth_failed''"
| "event_type (SignatureMismatch _ _) = ''signature_mismatch''"
| "event_type (CrossTenantAttempt _ _ _) = ''cross_tenant_attempt''"
| "event_type (PolicyViolation _ _ _ _ _) = ''policy_violation''"
| "event_type (AdminKeyRotated _) = ''admin_key_rotated''"
| "event_type (RateLimitTripped _ _) = ''rate_limit_tripped''"
| "event_type (EgressDenied _ _ _ _ _ _) = ''egress_denied''"
| "event_type (AdminAction _ _ _ _ _ _) = ''admin_action''"

fun event_tenant_id :: "audit_event \<Rightarrow> string" where
  "event_tenant_id (CrossTenantAttempt tenant_id _ _) = tenant_id"
| "event_tenant_id (PolicyViolation tenant_id _ _ _ _) = tenant_id"
| "event_tenant_id (EgressDenied tenant_id _ _ _ _ _) = tenant_id"
| "event_tenant_id (AdminAction tenant_id _ _ _ _ _) = tenant_id"
| "event_tenant_id _ = ''default''"

record audit_record =
  ar_audit_id :: string
  ar_tenant_id :: string
  ar_event_type :: string
  ar_event :: audit_event
  ar_timestamp :: i64

record audit_query =
  aq_since :: "i64 option"
  aq_until :: "i64 option"
  aq_event_type :: "string option"
  aq_limit :: "u32 option"

record audit_tools = crypto +
  event_to_json :: "audit_event \<Rightarrow> (string, string) result"
  event_from_json :: "string \<Rightarrow> (string, audit_event) result"
  record_to_json :: "audit_record \<Rightarrow> (string, string) result"

section \<open>The hash chain\<close>

definition audit_hmac_key :: "env \<Rightarrow> string" where
  "audit_hmac_key env =
     (case env ''SAURON_AUDIT_HMAC_KEY'' of
        Some v \<Rightarrow> if trim v \<noteq> [] then v else ''SAURON_DEV_AUDIT_HMAC_KEY_v1''
      | None \<Rightarrow> ''SAURON_DEV_AUDIT_HMAC_KEY_v1'')"

definition entry_payload ::
  "i64 \<Rightarrow> string \<Rightarrow> string \<Rightarrow> string \<Rightarrow> string \<Rightarrow> string \<Rightarrow> i64 \<Rightarrow> string" where
  "entry_payload seq prev_hash audit_id tenant_id event_type' event_json ts =
     int_to_string seq @ ''|'' @ prev_hash @ ''|'' @ audit_id @ ''|'' @ tenant_id @ ''|'' @ event_type' @
     ''|'' @ event_json @ ''|'' @ int_to_string ts"

definition compute_entry_hash ::
  "('z) crypto_scheme \<Rightarrow> string \<Rightarrow> i64 \<Rightarrow> string \<Rightarrow> string \<Rightarrow> string \<Rightarrow> string \<Rightarrow> string \<Rightarrow> i64 \<Rightarrow> string" where
  "compute_entry_hash H key seq prev_hash audit_id tenant_id event_type' event_json ts =
     hex_encode H (hmac_sha256 H key
       (entry_payload seq prev_hash audit_id tenant_id event_type' event_json ts))"

text \<open>The rows of the chain, in the order of \<open>seq\<close>; a row without \<open>seq\<close> is not part of it.\<close>

definition seq_of :: "audit_row \<Rightarrow> i64" where
  "seq_of r = (case au_seq r of Some n \<Rightarrow> n | None \<Rightarrow> 0)"

definition audit_rows :: "database \<Rightarrow> audit_row list" where
  "audit_rows db = sort_key seq_of (filter (\<lambda>r. au_seq r \<noteq> None) (security_audit_log db))"

definition chain_head_raw :: "any_env \<Rightarrow> nat \<Rightarrow> database \<Rightarrow> (i64 \<times> string) option" where
  "chain_head_raw conn k db =
     (case stmt_fault conn k of
        Some _ \<Rightarrow> None
      | None \<Rightarrow>
          (case sort_key (\<lambda>r. - seq_of r) (filter (\<lambda>r. au_seq r \<noteq> None) (security_audit_log db)) of
             [] \<Rightarrow> None
           | r # _ \<Rightarrow> Some (seq_of r, au_entry_hash r)))"

definition audit_chain_head :: "any_env \<Rightarrow> nat \<Rightarrow> database \<Rightarrow> (i64 \<times> string) option" where
  "audit_chain_head conn k db =
     filter_option (\<lambda>(_, hash). hash \<noteq> []) (chain_head_raw conn k db)"

fun verify_audit_rows ::
  "('z) crypto_scheme \<Rightarrow> string \<Rightarrow> audit_row list \<Rightarrow> i64 \<Rightarrow> string \<Rightarrow> nat \<Rightarrow> (msg, nat) result" where
  "verify_audit_rows H key [] expected_seq prev n = Ok n"
| "verify_audit_rows H key (r # rs) expected_seq prev n =
     (if seq_of r \<noteq> expected_seq
      then Err (Fmt ''seq gap: expected {expected_seq}, got {seq} (row deleted/reordered)''
             [AInt expected_seq, AInt (seq_of r)])
      else if au_prev_hash r \<noteq> prev
      then Err (Fmt ''prev_hash mismatch at seq {seq} (chain broken)'' [AInt (seq_of r)])
      else if compute_entry_hash H key (seq_of r) (au_prev_hash r) (au_audit_id r) (au_tenant_id r)
                (au_event_type r) (au_event_json r) (au_timestamp r) \<noteq> au_entry_hash r
      then Err (Fmt ''entry_hash mismatch at seq {seq} (row tampered)'' [AInt (seq_of r)])
      else verify_audit_rows H key rs (expected_seq + 1) (au_entry_hash r) (n + 1))"

definition verify_audit_chain ::
  "('z) crypto_scheme \<Rightarrow> env \<Rightarrow> any_env \<Rightarrow> database \<Rightarrow> (msg, nat) result" where
  "verify_audit_chain H env conn db =
     and_then (map_err (\<lambda>e. Fmt ''query: {e}'' [AStr e]) (run_stmt conn 0 False (audit_rows db))) (\<lambda>rows.
     verify_audit_rows H (audit_hmac_key env) rows 1 ''genesis'' 0)"

section \<open>Sinks\<close>

text \<open>
  The process-wide sinks: the lines of the log file when one is open, with the error the next write
  meets, and the database connection when one is wired, with the flag that tells whether its
  \<open>seq\<close> column has the unique index of the Postgres schema.
\<close>

record audit_sinks =
  file_sink :: "string list option"
  file_fault :: "string option"
  db_sink :: "(bool \<times> any_env) option"
  sink_failures :: u64

definition record_audit_sink_failure :: "audit_sinks \<Rightarrow> audit_sinks" where
  "record_audit_sink_failure s = s\<lparr>sink_failures := sink_failures s + 1\<rparr>"

definition write_file_sink :: "string \<Rightarrow> audit_sinks \<Rightarrow> audit_sinks" where
  "write_file_sink line s =
     (case file_sink s of
        None \<Rightarrow> s
      | Some ls \<Rightarrow>
          (case file_fault s of
             Some _ \<Rightarrow> record_audit_sink_failure s
           | None \<Rightarrow> s\<lparr>file_sink := Some (ls @ [line])\<rparr>))"

definition AUDIT_CHAIN_APPEND_ATTEMPTS :: nat where
  "AUDIT_CHAIN_APPEND_ATTEMPTS = 4"

definition next_audit_row ::
  "('z) crypto_scheme \<Rightarrow> string \<Rightarrow> (i64 \<times> string) option \<Rightarrow> audit_record \<Rightarrow> string \<Rightarrow> audit_row" where
  "next_audit_row H key head rec event_json =
     (let (last_seq, last_hash) = (case head of Some h \<Rightarrow> h | None \<Rightarrow> (0, ''genesis''));
          seq = i64_wrap (last_seq + 1)
      in \<lparr>au_audit_id = ar_audit_id rec, au_tenant_id = ar_tenant_id rec,
          au_event_type = ar_event_type rec, au_event_json = event_json,
          au_timestamp = ar_timestamp rec, au_seq = Some seq, au_prev_hash = last_hash,
          au_entry_hash = compute_entry_hash H key seq last_hash (ar_audit_id rec) (ar_tenant_id rec)
            (ar_event_type rec) event_json (ar_timestamp rec)\<rparr>)"

definition audit_insert :: "audit_row \<Rightarrow> database \<Rightarrow> database" where
  "audit_insert row db = db\<lparr>security_audit_log := security_audit_log db @ [row]\<rparr>"

text \<open>The primary key, and the unique index on \<open>seq\<close> where there is one.\<close>

definition audit_taken :: "bool \<Rightarrow> audit_row \<Rightarrow> database \<Rightarrow> bool" where
  "audit_taken unique_seq row db \<longleftrightarrow>
     list_ex (\<lambda>r. au_audit_id r = au_audit_id row \<or> (unique_seq \<and> au_seq r = au_seq row))
       (security_audit_log db)"

definition lost_the_race :: "string \<Rightarrow> bool" where
  "lost_the_race e \<longleftrightarrow>
     (let m = to_ascii_lowercase e in str_contains m ''unique'' \<or> str_contains m ''duplicate key'')"

fun append_attempts ::
  "('z) crypto_scheme \<Rightarrow> string \<Rightarrow> bool \<Rightarrow> any_env \<Rightarrow> (nat \<Rightarrow> database \<Rightarrow> database) \<Rightarrow> audit_record \<Rightarrow>
   string \<Rightarrow> nat list \<Rightarrow> database \<Rightarrow> (string, unit) result \<times> database" where
  "append_attempts H key uq conn rivals rec event_json [] db = (Ok (), db)"
| "append_attempts H key uq conn rivals rec event_json (attempt # rest) db =
     (let row = next_audit_row H key (chain_head_raw conn (2 * attempt) db) rec event_json;
          db = rivals attempt db
      in case run_stmt conn (2 * attempt + 1) (audit_taken uq row db) () of
           Ok _ \<Rightarrow> (Ok (), audit_insert row db)
         | Err e \<Rightarrow>
             if \<not> lost_the_race e \<or> attempt + 1 = AUDIT_CHAIN_APPEND_ATTEMPTS
             then (Err (''insert: '' @ e), db)
             else append_attempts H key uq conn rivals rec event_json rest db)"

definition write_db_sink ::
  "('z) audit_tools_scheme \<Rightarrow> env \<Rightarrow> (nat \<Rightarrow> database \<Rightarrow> database) \<Rightarrow> audit_record \<Rightarrow>
   audit_sinks \<times> database \<Rightarrow> audit_sinks \<times> database" where
  "write_db_sink H env rivals rec st =
     (case db_sink (fst st) of
        None \<Rightarrow> st
      | Some (uq, conn) \<Rightarrow>
          (case lock_fault conn of
             Some _ \<Rightarrow> (record_audit_sink_failure (fst st), snd st)
           | None \<Rightarrow>
               (case event_to_json H (ar_event rec) of
                  Err _ \<Rightarrow> (record_audit_sink_failure (fst st), snd st)
                | Ok event_json \<Rightarrow>
                    (case append_attempts H (audit_hmac_key env) uq conn rivals rec event_json
                            [0..<AUDIT_CHAIN_APPEND_ATTEMPTS] (snd st) of
                       (Ok _, db) \<Rightarrow> (fst st, db)
                     | (Err _, db) \<Rightarrow> (record_audit_sink_failure (fst st), db)))))"

text \<open>The random id and the clock are arguments.\<close>

definition record_event ::
  "('z) audit_tools_scheme \<Rightarrow> env \<Rightarrow> (nat \<Rightarrow> database \<Rightarrow> database) \<Rightarrow> string \<Rightarrow> i64 \<Rightarrow> audit_event \<Rightarrow>
   audit_sinks \<times> database \<Rightarrow> audit_sinks \<times> database" where
  "record_event H env rivals audit_id now event st =
     (let rec = \<lparr>ar_audit_id = audit_id, ar_tenant_id = event_tenant_id event,
                 ar_event_type = event_type event, ar_event = event, ar_timestamp = now\<rparr>;
          json = (case record_to_json H rec of
                    Ok s \<Rightarrow> s
                  | Err _ \<Rightarrow> ''{'' @ quoted ''audit_id'' @ '':'' @ quoted (ar_audit_id rec) @
                      '','' @ quoted ''event_type'' @ '':'' @ quoted (ar_event_type rec) @
                      '','' @ quoted ''timestamp'' @ '':'' @ int_to_string now @ ''}'')
      in write_db_sink H env rivals rec (write_file_sink json (fst st), snd st))"

section \<open>Queries and the middleware\<close>

fun decode_audit_rows ::
  "('z) audit_tools_scheme \<Rightarrow> audit_row list \<Rightarrow> (string, audit_record list) result" where
  "decode_audit_rows H [] = Ok []"
| "decode_audit_rows H (r # rs) =
     and_then (map_err (\<lambda>e. ''event_json: '' @ e) (event_from_json H (au_event_json r))) (\<lambda>ev.
     and_then (decode_audit_rows H rs) (\<lambda>recs.
     Ok (\<lparr>ar_audit_id = au_audit_id r, ar_tenant_id = au_tenant_id r, ar_event_type = au_event_type r,
          ar_event = ev, ar_timestamp = au_timestamp r\<rparr> # recs)))"

definition query_audit_events ::
  "('z) audit_tools_scheme \<Rightarrow> any_env \<Rightarrow> string \<Rightarrow> audit_query \<Rightarrow> database \<Rightarrow>
   (string, audit_record list) result" where
  "query_audit_events H conn tenant q db =
     (let limit = min (case aq_limit q of Some n \<Rightarrow> unat n | None \<Rightarrow> 200) 1000;
          since = (case aq_since q of Some t \<Rightarrow> t | None \<Rightarrow> 0);
          until = (case aq_until q of Some t \<Rightarrow> t | None \<Rightarrow> i64_MAX);
          selected = filter (\<lambda>r. since \<le> au_timestamp r \<and> au_timestamp r \<le> until \<and>
            (tenant \<noteq> ''*'' \<longrightarrow> au_tenant_id r = tenant) \<and>
            (case aq_event_type q of Some et \<Rightarrow> au_event_type r = et | None \<Rightarrow> True))
            (security_audit_log db)
      in case lock_fault conn of
           Some e \<Rightarrow> Err (''audit query: db lock: '' @ e)
         | None \<Rightarrow>
             map_err (\<lambda>e. ''audit query: '' @ e)
               (and_then (run_stmt conn 0 False (take limit (sort_key (\<lambda>r. - au_timestamp r) selected)))
                  (decode_audit_rows H)))"

definition admin_audit_handler ::
  "('z) audit_tools_scheme \<Rightarrow> any_env \<Rightarrow> string \<Rightarrow> audit_query \<Rightarrow> database \<Rightarrow>
   (nat \<times> string, audit_record list) result" where
  "admin_audit_handler H conn tenant q db =
     map_err (\<lambda>e. (500, e)) (query_audit_events H conn tenant q db)"

text \<open>What the middleware records for a request that was answered with a status.\<close>

definition audit_log_middleware :: "request \<Rightarrow> nat \<Rightarrow> audit_event option" where
  "audit_log_middleware req st =
     (let ip = (case header_str req ''x-forwarded-for'' of
                  Some v \<Rightarrow> trim (hd (split_on (CHR '','') v))
                | None \<Rightarrow> ''unknown'')
      in if \<not> prefix ''/v1/admin/audit'' (rq_path req) \<and> st \<in> {401, 403, 407}
         then Some (AuthFailed ip (rq_path req) (Fmt ''http {status}'' [AInt (int st)]))
         else None)"

section \<open>The chain as a hash chain\<close>

definition row_payload :: "audit_row \<Rightarrow> string" where
  "row_payload r = entry_payload (seq_of r) (au_prev_hash r) (au_audit_id r) (au_tenant_id r)
     (au_event_type r) (au_event_json r) (au_timestamp r)"

definition audit_link :: "('z) crypto_scheme \<Rightarrow> string \<Rightarrow> audit_row \<Rightarrow> string option" where
  "audit_link H key r =
     (if hex_encode H (hmac_sha256 H key (row_payload r)) = au_entry_hash r
      then Some (au_entry_hash r) else None)"

definition audit_content :: "audit_row \<Rightarrow> i64 \<times> string \<times> string" where
  "audit_content r = (seq_of r, au_prev_hash r, row_payload r)"

interpretation audit: hash_chain seq_of au_prev_hash "audit_link H key" audit_content "''genesis''" for H key
  by unfold_locales (simp_all add: audit_content_def)

abbreviation audit_chained :: "('z) crypto_scheme \<Rightarrow> string \<Rightarrow> audit_row list \<Rightarrow> bool" where
  "audit_chained H key rs \<equiv> chained seq_of au_prev_hash (audit_link H key) 1 ''genesis'' rs"

lemma verify_audit_rows_Ok_iff:
  "verify_audit_rows H key rs n h c = Ok m \<longleftrightarrow>
     chained seq_of au_prev_hash (audit_link H key) n h rs \<and> m = c + length rs"
proof (induction rs arbitrary: n h c)
  case (Cons r rs)
  show ?case
    by (auto simp: Cons audit_link_def compute_entry_hash_def row_payload_def)
qed auto

lemma verify_audit_chain_Ok_iff:
  "verify_audit_chain H env conn db = Ok m \<longleftrightarrow>
     stmt_fault conn 0 = None \<and> audit_chained H (audit_hmac_key env) (audit_rows db) \<and>
     m = length (audit_rows db)"
  by (auto simp: verify_audit_chain_def and_then_eq_Ok_iff verify_audit_rows_Ok_iff)

lemma set_audit_rows: "set (audit_rows db) = {r \<in> set (security_audit_log db). au_seq r \<noteq> None}"
  by (auto simp: audit_rows_def)

lemma sort_key_minus:
  assumes "distinct (map f xs)"
  shows "sort_key (\<lambda>x. - f x) xs = rev (sort_key (f :: 'a \<Rightarrow> int) xs)"
proof (rule sort_key_inj_key_eq)
  show "inj_on (\<lambda>x. - f x) (set xs)"
    using assms by (auto simp: distinct_map inj_on_def)
  have "sorted_wrt (\<le>) (map f (sort_key f xs))"
    by (rule sorted_sort_key)
  then show "sorted (map (\<lambda>x. - f x) (rev (sort_key f xs)))"
    by (simp add: rev_map sorted_wrt_rev sorted_wrt_map flip: rev_map)
qed simp

lemma chain_head_raw_chained:
  assumes "audit_chained H key (audit_rows db)" "stmt_fault conn k = None"
  shows "chain_head_raw conn k db =
    (if audit_rows db = [] then None
     else Some (seq_of (last (audit_rows db)), au_entry_hash (last (audit_rows db))))"
proof -
  let ?rs = "filter (\<lambda>r. au_seq r \<noteq> None) (security_audit_log db)"
  have "distinct (map seq_of (audit_rows db))"
    by (rule audit.chained_distinct [OF assms(1)])
  then have "distinct (map seq_of ?rs)"
    by (simp add: audit_rows_def distinct_map)
  then have "sort_key (\<lambda>r. - seq_of r) ?rs = rev (audit_rows db)"
    unfolding audit_rows_def by (rule sort_key_minus)
  then show ?thesis
    using assms(2) by (cases "audit_rows db" rule: rev_cases) (simp_all add: chain_head_raw_def)
qed

section \<open>Appending\<close>

lemma next_audit_row_simps:
  "audit_link H key (next_audit_row H key head rec json) =
     Some (au_entry_hash (next_audit_row H key head rec json))"
  "au_seq (next_audit_row H key (Some (n, h)) rec json) = Some (i64_wrap (n + 1))"
  "seq_of (next_audit_row H key (Some (n, h)) rec json) = i64_wrap (n + 1)"
  "au_prev_hash (next_audit_row H key (Some (n, h)) rec json) = h"
  "au_seq (next_audit_row H key None rec json) = Some 1"
  "seq_of (next_audit_row H key None rec json) = 1"
  "au_prev_hash (next_audit_row H key None rec json) = ''genesis''"
  by (simp_all add: next_audit_row_def audit_link_def row_payload_def compute_entry_hash_def seq_of_def
      Let_def is_i64_def i64_MIN_def i64_MAX_def split: prod.splits)

lemma audit_rows_insert:
  assumes "\<forall>r \<in> set (audit_rows db). seq_of r < seq_of row" "au_seq row \<noteq> None"
  shows "audit_rows (audit_insert row db) = audit_rows db @ [row]"
proof -
  have "\<forall>r \<in> set (filter (\<lambda>r. au_seq r \<noteq> None) (security_audit_log db)). seq_of r \<le> seq_of row"
    using assms(1) by (auto simp: set_audit_rows)
  from sort_key_snoc [OF this] show ?thesis
    using assms(2) by (simp add: audit_rows_def audit_insert_def)
qed

text \<open>The row computed from the head of a verified chain extends the chain.\<close>

lemma audit_append:
  assumes "audit_chained H key (audit_rows db)" "stmt_fault conn k = None"
    and "int (length (audit_rows db)) < i64_MAX"
    and row: "row = next_audit_row H key (chain_head_raw conn k db) rec json"
  shows "audit_chained H key (audit_rows db @ [row]) \<and> au_seq row = Some (int (length (audit_rows db)) + 1) \<and>
    audit_rows (audit_insert row db) = audit_rows db @ [row]"
proof (cases "audit_rows db" rule: rev_cases)
  case Nil
  then show ?thesis
    using assms(2) chain_head_raw_chained [OF assms(1,2)]
    by (simp add: row audit_rows_insert next_audit_row_simps)
next
  case (snoc rs r)
  have seq: "seq_of r = int (length (audit_rows db))"
    using assms(1) by (simp add: snoc audit.chained_snoc)
  have "is_i64 (int (length (audit_rows db)) + 1)"
    using assms(3) by (simp add: is_i64_def i64_MIN_def)
  then have new: "au_seq row = Some (int (length (audit_rows db)) + 1)" "seq_of row = int (length (audit_rows db)) + 1"
      "au_prev_hash row = au_entry_hash r" "audit_link H key row \<noteq> None"
    using chain_head_raw_chained [OF assms(1,2)] by (simp_all add: row next_audit_row_simps snoc seq [unfolded snoc])
  have link: "audit_link H key r = Some (au_entry_hash r)"
    using assms(1) by (auto simp: snoc audit.chained_snoc audit_link_def split: if_splits)
  have "audit_chained H key (audit_rows db @ [row])"
    unfolding audit.chained_snoc using assms(1) new link by (simp add: snoc chain_end_def)
  moreover have "audit_rows (audit_insert row db) = audit_rows db @ [row]"
    using audit.chained_sq_bounds [OF assms(1)] new by (intro audit_rows_insert) force+
  ultimately show ?thesis
    using new(1) by blast
qed

text \<open>
  What other processes may do to the table between two statements: append at most \<open>m\<close> rows that
  extend the chain.
\<close>

definition appends :: "('z) crypto_scheme \<Rightarrow> string \<Rightarrow> nat \<Rightarrow> (database \<Rightarrow> database) \<Rightarrow> bool" where
  "appends H key m f \<longleftrightarrow>
     (\<forall>db. audit_chained H key (audit_rows db) \<longrightarrow>
        (\<exists>rs. audit_rows (f db) = audit_rows db @ rs \<and> length rs \<le> m \<and> audit_chained H key (audit_rows (f db))))"

definition records :: "audit_record \<Rightarrow> string \<Rightarrow> audit_row \<Rightarrow> bool" where
  "records rec event_json row \<longleftrightarrow>
     au_audit_id row = ar_audit_id rec \<and> au_tenant_id row = ar_tenant_id rec \<and>
     au_event_type row = ar_event_type rec \<and> au_event_json row = event_json \<and>
     au_timestamp row = ar_timestamp rec"

lemma records_next_audit_row: "records rec json (next_audit_row H key head rec json)"
  by (simp add: records_def next_audit_row_def Let_def split: prod.splits)

text \<open>With the unique index, a row is only inserted when no other row has joined the chain meanwhile.\<close>

lemma insert_after_rivals:
  assumes "audit_chained H key (audit_rows db)" "stmt_fault conn k = None"
    and "int (length (audit_rows db)) < i64_MAX"
    and row: "row = next_audit_row H key (chain_head_raw conn k db) rec json"
    and db': "audit_rows db' = audit_rows db @ rs" "audit_chained H key (audit_rows db')"
    and "uq \<or> rs = []" "\<not> audit_taken uq row db'"
  shows "audit_chained H key (audit_rows (audit_insert row db')) \<and>
    audit_rows (audit_insert row db') = audit_rows db @ [row]"
proof -
  note new = audit_append [OF assms(1-4)]
  have rs: "rs = []"
  proof (rule ccontr)
    assume ne: "rs \<noteq> []"
    then have "hd rs \<in> set (audit_rows db')"
      by (simp add: db'(1))
    moreover have "seq_of (hd rs) = int (length (audit_rows db)) + 1"
      using audit.chained_nth_sq [OF db'(2), of "length (audit_rows db)"] ne
      by (simp add: db'(1) nth_append hd_conv_nth)
    ultimately have "hd rs \<in> set (security_audit_log db')" "au_seq (hd rs) = au_seq row"
      using new by (auto simp: set_audit_rows seq_of_def split: option.splits)
    then show False
      using assms(7,8) ne by (auto simp: audit_taken_def)
  qed
  have "seq_of row = int (length (audit_rows db)) + 1"
    using new by (simp add: seq_of_def)
  then have "audit_rows (audit_insert row db') = audit_rows db' @ [row]"
    using audit.chained_sq_bounds [OF db'(2)] new rs db'(1) by (intro audit_rows_insert) force+
  then show ?thesis
    using new rs db'(1) by simp
qed

lemma append_attempts_extends:
  assumes "audit_chained H key (audit_rows db)" "\<forall>k. stmt_fault conn (2 * k) = None"
    and "\<forall>k. appends H key m (rivals k)" "uq \<or> m = 0"
    and "int (length (audit_rows db)) + int (length ks) * int m < i64_MAX"
    and "ks \<noteq> []" "last ks + 1 = AUDIT_CHAIN_APPEND_ATTEMPTS"
    and "append_attempts H key uq conn rivals rec json ks db = (r, db')"
  shows "audit_chained H key (audit_rows db') \<and> prefix (audit_rows db) (audit_rows db') \<and>
    (is_ok r \<longrightarrow> audit_rows db' \<noteq> [] \<and> records rec json (last (audit_rows db')))"
  using assms(1,5-8)
proof (induction ks arbitrary: db)
  case (Cons k ks)
  let ?row = "next_audit_row H key (chain_head_raw conn (2 * k) db) rec json"
  let ?db = "rivals k db"
  obtain rs where rs: "audit_rows ?db = audit_rows db @ rs" "length rs \<le> m" "audit_chained H key (audit_rows ?db)"
    using assms(3) Cons.prems(1) unfolding appends_def by blast
  have small: "int (length (audit_rows db)) < i64_MAX"
    using Cons.prems(2) by (smt (verit) mult_nonneg_nonneg of_nat_0_le_iff)
  show ?case
  proof (cases "run_stmt conn (2 * k + 1) (audit_taken uq ?row ?db) ()")
    case (Inl e)
    note step = Cons.prems(5) [unfolded append_attempts.simps Let_def Inl sum.case]
    show ?thesis
    proof (cases "\<not> lost_the_race e \<or> k + 1 = AUDIT_CHAIN_APPEND_ATTEMPTS")
      case True
      then show ?thesis
        using step rs by auto
    next
      case False
      have "append_attempts H key uq conn rivals rec json ks ?db = (r, db')"
        using step False by auto
      moreover have "ks \<noteq> []" "last ks + 1 = AUDIT_CHAIN_APPEND_ATTEMPTS"
        using False Cons.prems(4) by (auto split: if_splits)
      moreover have "int (length (audit_rows ?db)) + int (length ks) * int m < i64_MAX"
        using Cons.prems(2) rs(1,2) by (simp add: distrib_right)
      ultimately show ?thesis
        using Cons.IH [OF rs(3)] rs(1) by (auto dest: append_prefixD)
    qed
  next
    case (Inr u)
    then have "\<not> audit_taken uq ?row ?db"
      by (auto simp: run_stmt_def split: option.splits if_splits)
    then have "audit_chained H key (audit_rows (audit_insert ?row ?db)) \<and>
        audit_rows (audit_insert ?row ?db) = audit_rows db @ [?row]"
      using assms(2,4) rs(2)
      by (intro insert_after_rivals [OF Cons.prems(1) _ small refl rs(1,3)]) auto
    then show ?thesis
      using Cons.prems(5) [unfolded append_attempts.simps Let_def Inr sum.case]
      by (auto simp: records_next_audit_row)
  qed
qed simp

section \<open>Recording an event\<close>

definition solo :: "nat \<Rightarrow> database \<Rightarrow> database" where
  "solo k db = db"

lemma appends_solo: "appends H key 0 (solo k)"
  by (simp add: appends_def solo_def)

text \<open>A small concrete instance: one event on an empty database.\<close>

definition demo_audit_tools :: audit_tools where
  "demo_audit_tools =
     \<lparr>sha256 = (\<lambda>s. s), hex_encode = (\<lambda>s. s), hkdf_sha256 = (\<lambda>a b c. a @ b @ c),
      hmac_sha256 = (\<lambda>k s. s), json_str = quoted, event_to_json = (\<lambda>e. Ok (''{a|b}'')),
      event_from_json = (\<lambda>s. Ok (AdminKeyRotated s)), record_to_json = (\<lambda>r. Ok ''{}'')\<rparr>"

definition demo_record :: audit_record where
  "demo_record = \<lparr>ar_audit_id = ''id1'', ar_tenant_id = ''acme'', ar_event_type = ''egress_denied'',
     ar_event = EgressDenied ''acme'' ''agt'' ''h'' ''GET'' ''a|b'' (Msg ''no''), ar_timestamp = 100\<rparr>"

definition demo_audit_row :: audit_row where
  "demo_audit_row = next_audit_row demo_audit_tools (audit_hmac_key (\<lambda>v. None)) None demo_record ''{a|b}''"

definition demo_audit_db :: database where
  "demo_audit_db = audit_insert demo_audit_row empty_database"

definition demo_sinks :: "bool \<Rightarrow> any_env \<Rightarrow> audit_sinks" where
  "demo_sinks uq conn = \<lparr>file_sink = None, file_fault = None, db_sink = Some (uq, conn), sink_failures = 0\<rparr>"

lemma demo_audit_rows: "audit_rows demo_audit_db = [demo_audit_row]"
  by (simp add: audit_rows_def demo_audit_db_def audit_insert_def empty_database_def demo_audit_row_def
      next_audit_row_simps)

lemma demo_audit_chained: "audit_chained demo_audit_tools (audit_hmac_key (\<lambda>v. None)) (audit_rows demo_audit_db)"
  by (simp add: demo_audit_rows demo_audit_row_def next_audit_row_simps)



section \<open>An edit the chain does not show\<close>

text \<open>
  The edit moves the separators of one row: its tenant becomes part of the id, its type the
  tenant, and its JSON, which contains a separator, is cut in two.
\<close>

definition shift_row :: "string \<Rightarrow> string \<Rightarrow> audit_row \<Rightarrow> audit_row" where
  "shift_row a b r = r\<lparr>au_audit_id := au_audit_id r @ ''|'' @ au_tenant_id r, au_tenant_id := au_event_type r,
     au_event_type := a, au_event_json := b\<rparr>"

definition edit_row :: "audit_row \<Rightarrow> audit_row \<Rightarrow> database \<Rightarrow> database" where
  "edit_row r r' db =
     db\<lparr>security_audit_log := map (\<lambda>x. if x = r then r' else x) (security_audit_log db)\<rparr>"

lemma shift_row_same:
  assumes "au_event_json r = a @ ''|'' @ b"
  shows "seq_of (shift_row a b r) = seq_of r" "au_seq (shift_row a b r) = au_seq r"
    "au_prev_hash (shift_row a b r) = au_prev_hash r" "au_entry_hash (shift_row a b r) = au_entry_hash r"
    "row_payload (shift_row a b r) = row_payload r"
  using assms by (simp_all add: shift_row_def seq_of_def row_payload_def entry_payload_def)

lemma verify_audit_rows_payload:
  "verify_audit_rows H key (r # rs) n h c =
     (if seq_of r \<noteq> n
      then Err (Fmt ''seq gap: expected {expected_seq}, got {seq} (row deleted/reordered)'' [AInt n, AInt (seq_of r)])
      else if au_prev_hash r \<noteq> h
      then Err (Fmt ''prev_hash mismatch at seq {seq} (chain broken)'' [AInt (seq_of r)])
      else if hex_encode H (hmac_sha256 H key (row_payload r)) \<noteq> au_entry_hash r
      then Err (Fmt ''entry_hash mismatch at seq {seq} (row tampered)'' [AInt (seq_of r)])
      else verify_audit_rows H key rs (n + 1) (au_entry_hash r) (c + 1))"
  by (simp add: compute_entry_hash_def row_payload_def)

lemma verify_audit_rows_edit:
  assumes "au_event_json r = a @ ''|'' @ b"
  shows "verify_audit_rows H key (map (\<lambda>x. if x = r then shift_row a b r else x) rs) n h c =
    verify_audit_rows H key rs n h c"
proof (induction rs arbitrary: n h c)
  case (Cons x rs)
  then show ?case
    using shift_row_same [OF assms]
    by (simp add: verify_audit_rows_payload del: verify_audit_rows.simps(2))
qed simp

lemma audit_rows_edit:
  assumes "au_event_json r = a @ ''|'' @ b"
  shows "audit_rows (edit_row r (shift_row a b r) db) =
    map (\<lambda>x. if x = r then shift_row a b r else x) (audit_rows db)"
proof -
  let ?f = "\<lambda>x. if x = r then shift_row a b r else x"
  have same: "au_seq (?f x) = au_seq x" "seq_of (?f x) = seq_of x" for x
    using shift_row_same [OF assms] by auto
  have "audit_rows (edit_row r (shift_row a b r) db) =
      sort_key seq_of (map ?f (filter (\<lambda>x. au_seq (?f x) \<noteq> None) (security_audit_log db)))"
    by (simp add: audit_rows_def edit_row_def filter_map comp_def)
  also have "\<dots> = map ?f (audit_rows db)"
    unfolding audit_rows_def same(1) sort_key_map same(2) ..
  finally show ?thesis .
qed

text \<open>
  What the hash of an audit row does not bind: its fields are joined by a separator that the
  fields may contain.  A row whose JSON contains the separator can be edited, without the
  key, so that the chain verifies exactly as before while the row has left
  its tenant: the tenant's rows are the old ones without the edited row.\<close>

theorem audit_row_edit_not_detected:
  assumes "au_event_json r = a @ ''|'' @ b" "au_event_type r \<noteq> au_tenant_id r"
  shows "verify_audit_chain H env conn (edit_row r (shift_row a b r) db) = verify_audit_chain H env conn db \<and>
    {x \<in> set (security_audit_log (edit_row r (shift_row a b r) db)). au_tenant_id x = au_tenant_id r} =
    {x \<in> set (security_audit_log db). au_tenant_id x = au_tenant_id r} - {r}"
proof
  have shift: "au_tenant_id (shift_row a b r) = au_event_type r"
    by (simp add: shift_row_def)
  show "verify_audit_chain H env conn (edit_row r (shift_row a b r) db) = verify_audit_chain H env conn db"
    unfolding verify_audit_chain_def audit_rows_edit [OF assms(1)]
    by (cases "stmt_fault conn 0") (simp_all add: run_stmt_def verify_audit_rows_edit [OF assms(1)])
  show "{x \<in> set (security_audit_log (edit_row r (shift_row a b r) db)). au_tenant_id x = au_tenant_id r} =
    {x \<in> set (security_audit_log db). au_tenant_id x = au_tenant_id r} - {r}"
    using assms(2) shift by (auto simp: edit_row_def)
qed

theorem audit_row_edit_not_detected_witness:
  "verify_audit_chain demo_audit_tools (\<lambda>v. None) healthy
     (edit_row demo_audit_row (shift_row ''{a'' ''b}'' demo_audit_row) demo_audit_db) = Ok 1"
proof -
  have "verify_audit_chain demo_audit_tools (\<lambda>v. None) healthy demo_audit_db = Ok 1"
    using demo_audit_chained by (simp add: verify_audit_chain_Ok_iff healthy_def demo_audit_rows)
  then show ?thesis
    using audit_row_edit_not_detected [of demo_audit_row "''{a''" "''b}''" demo_audit_tools "\<lambda>v. None" healthy demo_audit_db]
    by (simp add: demo_audit_row_def next_audit_row_def demo_record_def Let_def)
qed

section \<open>A failed read of the head\<close>

lemma chain_with_two_firsts_fails:
  assumes "r \<in> set (audit_rows db)" "seq_of r = 1" "au_seq row = Some 1"
  shows "verify_audit_chain H env conn (audit_insert row db) \<noteq> Ok n"
proof
  assume "verify_audit_chain H env conn (audit_insert row db) = Ok n"
  then have "distinct (map seq_of (audit_rows (audit_insert row db)))"
    by (auto simp: verify_audit_chain_Ok_iff intro: audit.chained_distinct)
  then have "distinct (map seq_of (filter (\<lambda>r. au_seq r \<noteq> None) (security_audit_log db) @ [row]))"
    using assms(3) by (auto simp: audit_rows_def audit_insert_def distinct_map)
  moreover have "1 \<in> seq_of ` set (filter (\<lambda>r. au_seq r \<noteq> None) (security_audit_log db))"
    using assms(1,2) by (force simp: set_audit_rows)
  ultimately show False
    using assms(3) by (simp add: seq_of_def)
qed

text \<open>
  A failed read of the head is taken for an empty chain.  Where \<open>seq\<close> has no unique index (the
  SQLite schema), one such failure while an event is written makes the process insert a
  second first row: the write counts as successful, no failure is recorded,
  and from then on the chain does not verify.\<close>

theorem failed_head_read_breaks_audit_chain:
  assumes "verify_audit_chain H env healthy db = Ok n" "0 < n"
    and "db_sink s = Some (False, conn)" "lock_fault conn = None"
    and "stmt_fault conn 0 = Some e" "stmt_fault conn 1 = None"
    and "event_to_json H (ar_event rec) = Ok json"
    and "ar_audit_id rec \<notin> au_audit_id ` set (security_audit_log db)"
  shows "\<exists>db'. write_db_sink H env solo rec (s, db) = (s, db') \<and>
    (\<forall>m. verify_audit_chain H env healthy db' \<noteq> Ok m)"
proof -
  let ?row = "next_audit_row H (audit_hmac_key env) None rec json"
  have head: "chain_head_raw conn 0 db = None"
    using assms(5) by (simp add: chain_head_raw_def)
  have "au_audit_id ?row = ar_audit_id rec"
    using records_next_audit_row records_def by blast
  then have fresh: "\<not> audit_taken False ?row db"
    using assms(8) by (force simp: audit_taken_def)
  have "[0..<AUDIT_CHAIN_APPEND_ATTEMPTS] = [0, 1, 2, 3]"
    by (simp add: AUDIT_CHAIN_APPEND_ATTEMPTS_def upt_rec)
  then have "write_db_sink H env solo rec (s, db) = (s, audit_insert ?row db)"
    using assms(3-7) fresh by (simp add: write_db_sink_def head solo_def run_stmt_def)
  moreover obtain r rs where rows: "audit_rows db = r # rs" "seq_of r = 1"
    using assms(1,2) by (cases "audit_rows db") (auto simp: verify_audit_chain_Ok_iff)
  then have "verify_audit_chain H env healthy (audit_insert ?row db) \<noteq> Ok m" for m
    by (intro chain_with_two_firsts_fails [of r]) (simp_all add: next_audit_row_simps)
  ultimately show ?thesis
    by blast
qed

theorem failed_head_read_breaks_audit_chain_witness:
  "\<exists>conn db'. write_db_sink demo_audit_tools (\<lambda>v. None) solo (demo_record\<lparr>ar_audit_id := ''id2''\<rparr>)
       (demo_sinks False conn, demo_audit_db) = (demo_sinks False conn, db') \<and>
     (\<forall>m. verify_audit_chain demo_audit_tools (\<lambda>v. None) healthy db' \<noteq> Ok m)"
proof -
  let ?conn = "healthy\<lparr>stmt_fault := (\<lambda>k. if k = 0 then Some ''disk I/O error'' else None)\<rparr>"
  have "verify_audit_chain demo_audit_tools (\<lambda>v. None) healthy demo_audit_db = Ok 1"
    using demo_audit_chained by (simp add: verify_audit_chain_Ok_iff healthy_def demo_audit_rows)
  then show ?thesis
    using failed_head_read_breaks_audit_chain [of demo_audit_tools "\<lambda>v. None" demo_audit_db 1
        "demo_sinks False ?conn" ?conn "''disk I/O error''" "demo_record\<lparr>ar_audit_id := ''id2''\<rparr>"]
    by (intro exI [of _ ?conn])
      (simp add: demo_sinks_def healthy_def demo_audit_tools_def demo_audit_db_def audit_insert_def
        empty_database_def demo_audit_row_def next_audit_row_def demo_record_def Let_def)
qed

end
