(* ===== verification/Policy_Gate.thy ===== *)
theory Policy_Gate
  imports Policy_Store Audit_Log
begin

text \<open>
  The enforcement of bound policies: the remaining handlers of \<open>policy/handlers.rs\<close>.  An
  action of an agent is evaluated under the policy bound to the agent, with the spend total of
  the ledger, the wall clock in the zone of the policy, and the recent actions, the spend of the day and the
  open capabilities of the agent read from the database; the gate turns the outcome into a
  response according to the enforcement mode.

  Time zones (\<open>chrono\<close>, \<open>chrono_tz\<close>) and the summation of the database are third-party
  functions in the record \<open>clocks\<close>; the two reads of the system clock are arguments.
\<close>

section \<open>Wall clocks\<close>

datatype local_result = Single i64 | Ambiguous i64 i64 | NoLocalTime

record local_time =
  lt_hhmm :: string
  lt_weekday :: u8
  lt_date :: string
  lt_midnight :: local_result

record clocks =
  utc_representable :: "i64 \<Rightarrow> bool"
  tz_local :: "string \<Rightarrow> i64 \<Rightarrow> local_time"
  sql_sum :: "f64 list \<Rightarrow> f64"

definition policy_tz :: "externs \<Rightarrow> policy \<Rightarrow> string" where
  "policy_tz X p =
     (let name = (case time_window (binding p) of Some tw \<Rightarrow> tw_timezone tw | None \<Rightarrow> ''UTC'')
      in if is_ok (tz_from_str X name) then name else ''UTC'')"

record policy_wall_clock =
  wc_hhmm :: string
  wc_weekday :: u8
  wc_date :: string
  wc_day_start_epoch :: i64

definition policy_wall_clock_at :: "externs \<Rightarrow> clocks \<Rightarrow> policy \<Rightarrow> i64 \<Rightarrow> policy_wall_clock" where
  "policy_wall_clock_at X C p now =
     (if \<not> utc_representable C now
      then \<lparr>wc_hhmm = ''00:00'', wc_weekday = 7, wc_date = [], wc_day_start_epoch = now\<rparr>
      else
        let local = tz_local C (policy_tz X p) now
        in \<lparr>wc_hhmm = lt_hhmm local, wc_weekday = lt_weekday local, wc_date = lt_date local,
            wc_day_start_epoch =
              (case lt_midnight local of Single t \<Rightarrow> t | Ambiguous _ later \<Rightarrow> later | NoLocalTime \<Rightarrow> now)\<rparr>)"

definition compute_tz_hhmm :: "externs \<Rightarrow> clocks \<Rightarrow> policy \<Rightarrow> i64 \<Rightarrow> string" where
  "compute_tz_hhmm X C p now = wc_hhmm (policy_wall_clock_at X C p now)"

section \<open>Spend\<close>

definition MAX_SPEND_RECORD_USD :: f64 where
  "MAX_SPEND_RECORD_USD = f64_of_int 1000000"

fun map_repo_err :: "repo_error \<Rightarrow> app_error" where
  "map_repo_err (Backend s) = Internal (Fmt ''ledger backend: {s}'' [AStr s])"
| "map_repo_err (Replay s) = Conflict (Fmt ''ledger replay: {s}'' [AStr s])"

record record_spend_body =
  rs_policy_id :: string
  rs_action_id :: "string option"
  rs_amount_usd :: f64

definition record_spend_inner_tenant ::
  "repo \<Rightarrow> i64 \<Rightarrow> string \<Rightarrow> string \<Rightarrow> string \<Rightarrow> record_spend_body \<Rightarrow> database \<Rightarrow>
   (app_error, string \<times> f64) result \<times> database" where
  "record_spend_inner_tenant repo now hex tenant agent_id body db =
     (if agent_id = [] then (Err (BadRequest (Msg ''agent_id required'')), db)
      else if rs_policy_id body = [] then (Err (BadRequest (Msg ''policy_id required'')), db)
      else if \<not> f64_is_finite (rs_amount_usd body)
      then (Err (BadRequest (Msg ''amount_usd must be a finite number'')), db)
      else if f64_lt (rs_amount_usd body) f64_zero
      then (Err (BadRequest (Msg ''amount_usd must be non-negative'')), db)
      else if f64_gt (rs_amount_usd body) MAX_SPEND_RECORD_USD
      then (Err (BadRequest (Fmt ''amount_usd exceeds sanity cap of {MAX_SPEND_RECORD_USD}''
              [AF64 MAX_SPEND_RECORD_USD])), db)
      else
        case record_spend_tenant repo hex
               \<lparr>sc_tenant_id = tenant, sc_policy_id = rs_policy_id body, sc_agent_id = agent_id,
                sc_action_id = rs_action_id body, sc_amount_usd = rs_amount_usd body,
                sc_source = ''sdk_flush'', sc_period_start = 0, sc_now = now\<rparr> db of
          (Err e, db') \<Rightarrow> (Err (map_repo_err e), db')
        | (Ok log_id, db') \<Rightarrow>
            (case get_spend_total_tenant repo tenant (rs_policy_id body) agent_id 0 db' of
               Err e \<Rightarrow> (Err (map_repo_err e), db')
             | Ok new_total \<Rightarrow> (Ok (log_id, new_total), db')))"

record spend_summary =
  ss_policy_id :: string
  ss_agent_id :: string
  ss_period_start :: i64
  ss_total_usd :: f64
  ss_last_updated :: i64
  ss_log_count :: i64

definition get_spend_inner_tenant ::
  "repo \<Rightarrow> string \<Rightarrow> string \<Rightarrow> string \<Rightarrow> i64 option \<Rightarrow> database \<Rightarrow> (app_error, spend_summary) result" where
  "get_spend_inner_tenant repo tenant agent_id pid period db =
     (if agent_id = [] then Err (BadRequest (Msg ''agent_id required''))
      else if pid = [] then Err (BadRequest (Msg ''policy_id required''))
      else
        let period_start = (case period of Some t \<Rightarrow> t | None \<Rightarrow> 0) in
        and_then (map_err map_repo_err (get_spend_total_tenant repo tenant pid agent_id period_start db)) (\<lambda>sum.
        and_then (map_err map_repo_err (get_spend_meta_tenant repo tenant pid agent_id period_start db)) (\<lambda>(upd, n).
        Ok \<lparr>ss_policy_id = pid, ss_agent_id = agent_id, ss_period_start = period_start, ss_total_usd = sum,
            ss_last_updated = upd, ss_log_count = n\<rparr>)))"

definition list_spend_log_inner_tenant ::
  "repo \<Rightarrow> string \<Rightarrow> string \<Rightarrow> string \<Rightarrow> i64 option \<Rightarrow> database \<Rightarrow> (app_error, spend_log_row list) result" where
  "list_spend_log_inner_tenant repo tenant agent_id pid limit db =
     (if agent_id = [] then Err (BadRequest (Msg ''agent_id required''))
      else if pid = [] then Err (BadRequest (Msg ''policy_id required''))
      else map_err map_repo_err (list_spend_log_tenant repo tenant pid agent_id
        (clamp_between 1 1000 (case limit of Some n \<Rightarrow> n | None \<Rightarrow> 100)) db))"

definition resolve_spend_for_evaluation_tenant ::
  "repo \<Rightarrow> string \<Rightarrow> string \<Rightarrow> string option \<Rightarrow> f64 option \<Rightarrow> database \<Rightarrow>
   (repo_error, f64 \<times> bool \<times> string option) result" where
  "resolve_spend_for_evaluation_tenant repo tenant pid agent_id override_spend db =
     (if agent_id \<noteq> None \<and> agent_id \<noteq> Some []
      then and_then (get_spend_total_tenant repo tenant pid (the agent_id) 0 db) (\<lambda>authoritative.
           Ok (authoritative, False, None))
      else Ok (case override_spend of Some x \<Rightarrow> x | None \<Rightarrow> f64_zero, True,
             Some (''agent_id omitted; client-supplied spend_total_usd accepted as-is. '' @
                   ''Ledger NOT consulted.'')))"

definition resolve_spend_for_evaluation ::
  "repo \<Rightarrow> string \<Rightarrow> string option \<Rightarrow> f64 option \<Rightarrow> database \<Rightarrow>
   (repo_error, f64 \<times> bool \<times> string option) result" where
  "resolve_spend_for_evaluation repo pid agent_id override_spend db =
     resolve_spend_for_evaluation_tenant repo DEFAULT_TENANT pid agent_id override_spend db"

section \<open>The evaluation endpoint\<close>

record context_overrides =
  co_spend_total_usd :: "f64 option"
  co_recent_call_timestamps :: "i64 list option"
  co_now_tz_hhmm :: "string option"
  co_now_epoch :: "i64 option"

record evaluate_body =
  eb_policy_id :: string
  eb_agent_id :: "string option"
  eb_action :: action
  eb_context_overrides :: "context_overrides option"

record evaluate_response =
  er_verdict :: verdict
  er_trace :: "(string \<times> verdict) list"
  er_spend_total_usd :: f64
  er_simulator :: bool
  er_simulator_warning :: "string option"

definition evaluate_action ::
  "externs \<Rightarrow> clocks \<Rightarrow> repo \<Rightarrow> store_index \<Rightarrow> i64 \<Rightarrow> string option \<Rightarrow> evaluate_body \<Rightarrow> database \<Rightarrow>
   (app_error, evaluate_response) result" where
  "evaluate_action X C repo idx clock tenant payload db =
     (let tenant_id = tenant_or_default tenant;
          overrides = (case eb_context_overrides payload of Some o' \<Rightarrow> o'
            | None \<Rightarrow> \<lparr>co_spend_total_usd = None, co_recent_call_timestamps = None, co_now_tz_hhmm = None,
                       co_now_epoch = None\<rparr>)
      in and_then (ok_or (get_by_id_tenant idx tenant_id (eb_policy_id payload))
           (NotFound (Fmt ''policy {} not found'' [AStr (eb_policy_id payload)]))) (\<lambda>compiled.
         let now = (case co_now_epoch overrides of Some t \<Rightarrow> t | None \<Rightarrow> clock);
             recent = (case co_recent_call_timestamps overrides of Some ts \<Rightarrow> ts | None \<Rightarrow> []);
             hhmm = (case co_now_tz_hhmm overrides of Some h \<Rightarrow> h | None \<Rightarrow> compute_tz_hhmm X C (raw compiled) now)
         in and_then (map_err map_repo_err (resolve_spend_for_evaluation_tenant repo tenant_id
              (eb_policy_id payload) (eb_agent_id payload) (co_spend_total_usd overrides) db)) (\<lambda>(spend, simulator, warning).
            let ctx = (with_defaults (eb_action payload))
                  \<lparr>spend_total_usd := spend, recent_call_timestamps := recent, now_epoch := now, now_tz_hhmm := hhmm\<rparr>;
                (verdict, trace) = evaluate_with_trace X compiled ctx
            in Ok \<lparr>er_verdict = verdict, er_trace = trace, er_spend_total_usd = spend, er_simulator = simulator,
                  er_simulator_warning = warning\<rparr>)))"

section \<open>The facts about the agent\<close>

definition MAX_RATE_WINDOW_ROWS :: nat where
  "MAX_RATE_WINDOW_ROWS = 20000"

record agent_runtime_facts =
  rf_recent_call_timestamps :: "i64 list"
  rf_weekly_call_timestamps :: "i64 list"
  rf_daily_spend_usd :: f64
  rf_in_flight_actions :: u32
  rf_last_action_at :: "i64 option"

definition weekly_timestamps :: "string \<Rightarrow> string \<Rightarrow> i64 \<Rightarrow> database \<Rightarrow> i64 list" where
  "weekly_timestamps tenant agent_id now db =
     take MAX_RATE_WINDOW_ROWS (rev (sort (map row_created_at (filter (\<lambda>r. row_tenant_id r = tenant \<and>
       row_agent_id r = agent_id \<and> row_created_at r > i64_saturating_sub now (7 * 24 * 60 * 60))
       (agent_action_receipts db)))))"

definition daily_spend :: "clocks \<Rightarrow> string \<Rightarrow> string \<Rightarrow> string \<Rightarrow> i64 \<Rightarrow> database \<Rightarrow> f64" where
  "daily_spend C tenant agent_id pid day_start db =
     sql_sum C (map sl_amount_usd (filter (\<lambda>r. sl_tenant_id r = tenant \<and> sl_policy_id r = pid \<and>
       sl_agent_id r = agent_id \<and> sl_recorded_at r \<ge> day_start) (spend_log db)))"

definition open_capabilities :: "string \<Rightarrow> string \<Rightarrow> i64 \<Rightarrow> database \<Rightarrow> nat" where
  "open_capabilities tenant agent_id now db =
     length (filter (\<lambda>r. cap_tenant_id r = tenant \<and> cap_agent_id r = agent_id \<and> cap_used_at r = None \<and>
       cap_expires_at r \<ge> now) (agent_egress_capabilities db))"

definition load_agent_runtime_facts ::
  "clocks \<Rightarrow> any_env \<Rightarrow> string \<Rightarrow> string \<Rightarrow> string \<Rightarrow> i64 \<Rightarrow> i64 \<Rightarrow> database \<Rightarrow>
   (app_error, agent_runtime_facts) result" where
  "load_agent_runtime_facts C conn tenant agent_id pid now day_start db =
     (case lock_fault conn of
        Some e \<Rightarrow> Err (Internal (Msg e))
      | None \<Rightarrow>
          and_then (map_err (\<lambda>e. Internal (Msg e)) (run_stmt conn 1 False (weekly_timestamps tenant agent_id now db)))
            (\<lambda>weekly.
          Ok \<lparr>rf_recent_call_timestamps = filter (\<lambda>t. t > i64_saturating_sub now 60) weekly,
              rf_weekly_call_timestamps = weekly,
              rf_daily_spend_usd = scalar_or conn 2 (daily_spend C tenant agent_id pid day_start db) f64_zero,
              rf_in_flight_actions = of_int (clamp_between 0 (2 ^ 32 - 1)
                (scalar_or conn 3 (int (open_capabilities tenant agent_id now db)) 0)),
              rf_last_action_at = (case weekly of [] \<Rightarrow> None | t # _ \<Rightarrow> Some t)\<rparr>))"

section \<open>The bound policy\<close>

datatype bound_policy_outcome =
    NoBinding
  | PolicyUnavailable string
  | BoundAllow string
  | BoundDeny string string msg

definition enforcement_context ::
  "externs \<Rightarrow> clocks \<Rightarrow> policy \<Rightarrow> f64 \<Rightarrow> i64 \<Rightarrow> agent_runtime_facts \<Rightarrow> action \<Rightarrow> evaluation_context" where
  "enforcement_context X C p spend now rf action =
     (let clock = policy_wall_clock_at X C p now in
      (with_defaults action)
        \<lparr>spend_total_usd := spend, now_epoch := now, now_tz_hhmm := wc_hhmm clock, now_weekday := wc_weekday clock,
         now_date_yyyy_mm_dd := wc_date clock, recent_call_timestamps := rf_recent_call_timestamps rf,
         weekly_call_timestamps := rf_weekly_call_timestamps rf, daily_spend_usd := rf_daily_spend_usd rf,
         in_flight_actions := rf_in_flight_actions rf, last_action_at := rf_last_action_at rf\<rparr>)"

definition enforce_bound_policy_with_handles ::
  "externs \<Rightarrow> clocks \<Rightarrow> any_env \<Rightarrow> store_index \<Rightarrow> repo \<Rightarrow> i64 \<Rightarrow> string \<Rightarrow> string \<Rightarrow> action \<Rightarrow> database \<Rightarrow>
   (app_error, bound_policy_outcome) result" where
  "enforce_bound_policy_with_handles X C conn idx repo now tenant agent_id action db =
     and_then (lookup_bound_policy_id conn tenant agent_id db) (\<lambda>bound.
     case bound of
       None \<Rightarrow> Ok NoBinding
     | Some pid \<Rightarrow>
         (case get_by_id_tenant idx tenant pid of
            None \<Rightarrow> Ok (PolicyUnavailable pid)
          | Some compiled \<Rightarrow>
              and_then (map_err map_repo_err
                (resolve_spend_for_evaluation_tenant repo tenant pid (Some agent_id) None db)) (\<lambda>(spend, _, _).
              and_then (load_agent_runtime_facts C conn tenant agent_id pid now
                (wc_day_start_epoch (policy_wall_clock_at X C (raw compiled) now)) db) (\<lambda>rf.
              case evaluate X compiled (enforcement_context X C (raw compiled) spend now rf action) of
                Allow \<Rightarrow> Ok (BoundAllow pid)
              | Deny check reason \<Rightarrow> Ok (BoundDeny pid check reason)))))"

text \<open>What the process offers to the gate.\<close>

record gate_env =
  ge_env :: env
  ge_externs :: externs
  ge_clocks :: clocks
  ge_audit :: audit_tools
  ge_rivals :: "nat \<Rightarrow> database \<Rightarrow> database"
  ge_conn :: any_env
  ge_repo :: repo
  ge_store :: store_index
  ge_now :: i64
  ge_audit_id :: string

definition enforce_bound_policy_for_action ::
  "gate_env \<Rightarrow> string \<Rightarrow> string \<Rightarrow> action \<Rightarrow> database \<Rightarrow> (app_error, bound_policy_outcome) result" where
  "enforce_bound_policy_for_action G tenant agent_id action db =
     enforce_bound_policy_with_handles (ge_externs G) (ge_clocks G) (ge_conn G) (ge_store G) (ge_repo G)
       (ge_now G) tenant agent_id action db"

definition gate_action_on_bound_policy ::
  "gate_env \<Rightarrow> string \<Rightarrow> string \<Rightarrow> action \<Rightarrow> audit_sinks \<times> database \<Rightarrow>
   (app_error, unit) result \<times> audit_sinks \<times> database" where
  "gate_action_on_bound_policy G tenant agent_id action st =
     (let mode = policy_enforcement_mode_of (ge_env G); enforce = (mode = Enforce);
          refuse = (\<lambda>s m. if enforce then fail s m else Ok ())
      in if mode = Off then (Ok (), st)
         else
           case enforce_bound_policy_for_action G tenant agent_id action (snd st) of
             Ok (BoundAllow _) \<Rightarrow> (Ok (), st)
           | Ok (BoundDeny pid check reason) \<Rightarrow>
               (refuse 403 (Fmt ''policy {policy_id} denied {check}: {reason}'' [AStr pid, AStr check, AMsg reason]),
                record_event (ge_audit G) (ge_env G) (ge_rivals G) (ge_audit_id G) (ge_now G)
                  (PolicyViolation tenant agent_id pid check reason) st)
           | Ok (PolicyUnavailable pid) \<Rightarrow>
               (refuse 503 (Fmt ''bound policy {policy_id} is unavailable (failing closed)'' [AStr pid]), st)
           | Ok NoBinding \<Rightarrow>
               (if enforce \<and> policy_require_binding (ge_env G)
                then fail 403 (Msg ''no bound policy for agent (SAURON_POLICY_REQUIRE_BINDING)'') else Ok (), st)
           | Err e \<Rightarrow>
               (refuse 503 (Fmt ''policy enforcement unavailable (failing closed): {e}'' [AMsg (app_error_display e)]), st))"

section \<open>The gate enforces the bound policy\<close>

abbreviation policy_permits :: "externs \<Rightarrow> policy \<Rightarrow> evaluation_context \<Rightarrow> bool" where
  "policy_permits X p ctx \<equiv> binding_permits X (binding p) ctx \<and>
     (\<forall>src \<in> set (invariants p).
        \<exists>e. parse src = Ret e \<and> eval_predicate e (env_of (binding p) ctx) = Ok True)"

text \<open>The outcome \<open>BoundAllow\<close>, written out over what the handlers read.\<close>

lemma bound_allow_iff:
  "enforce_bound_policy_with_handles X C conn idx repo now t a action db = Ok (BoundAllow pid) \<longleftrightarrow>
   lookup_bound_policy_id conn t a db = Ok (Some pid) \<and>
   (\<exists>cp spend rf. get_by_id_tenant idx t pid = Some cp \<and>
      get_spend_total_tenant repo t pid a 0 db = Ok spend \<and>
      load_agent_runtime_facts C conn t a pid now (wc_day_start_epoch (policy_wall_clock_at X C (raw cp) now)) db = Ok rf \<and>
      evaluate X cp (enforcement_context X C (raw cp) spend now rf action) = Allow)"
proof -
  have resolve: "resolve_spend_for_evaluation_tenant repo t p (Some a) None db =
      and_then (get_spend_total_tenant repo t p a 0 db) (\<lambda>x. Ok (x, False, None))" if "a \<noteq> []" for p
    using that by (simp add: resolve_spend_for_evaluation_tenant_def)
  have outcome: "(case v of Allow \<Rightarrow> Ok (BoundAllow p) | Deny c r \<Rightarrow> Ok (BoundDeny p c r)) =
      (Ok (BoundAllow pid) :: (app_error, bound_policy_outcome) result) \<longleftrightarrow> v = Allow \<and> p = pid" for v p
    by (cases v) auto
  note unfold = enforce_bound_policy_with_handles_def
  show ?thesis
  proof (cases "lookup_bound_policy_id conn t a db")
    case (Inr b)
    then have a: "a \<noteq> []"
      by (auto simp: lookup_bound_policy_id_def)
    show ?thesis
    proof (cases "\<exists>p cp. b = Some p \<and> get_by_id_tenant idx t p = Some cp")
      case True
      then obtain p cp where "b = Some p" "get_by_id_tenant idx t p = Some cp"
        by blast
      then show ?thesis
        using Inr
        by (cases "get_spend_total_tenant repo t p a 0 db")
          (auto simp: unfold resolve [OF a] and_then_eq_Ok_iff outcome)
    next
      case False
      then show ?thesis
        using Inr by (auto simp: unfold split: option.splits)
    qed
  qed (simp add: unfold)
qed

lemma enforcing_gate_Ok_iff:
  assumes "policy_enforcement_mode_of (ge_env G) = Enforce" "policy_require_binding (ge_env G)"
  shows "fst (gate_action_on_bound_policy G t a action st) = Ok () \<longleftrightarrow>
    (\<exists>pid. enforce_bound_policy_for_action G t a action (snd st) = Ok (BoundAllow pid))"
  using assms
  by (auto simp: gate_action_on_bound_policy_def Let_def split: sum.splits bound_policy_outcome.splits)


text \<open>A process in which one policy was uploaded and bound.\<close>

definition demo_clocks :: clocks where
  "demo_clocks =
     \<lparr>utc_representable = (\<lambda>t. True),
      tz_local = (\<lambda>z t. \<lparr>lt_hhmm = ''12:30'', lt_weekday = 1, lt_date = ''2026-01-05'', lt_midnight = Single 0\<rparr>),
      sql_sum = (\<lambda>xs. foldr f64_add xs f64_zero)\<rparr>"

definition demo_compiled :: compiled_policy where
  "demo_compiled =
     (case compile demo_externs demo_hashers (demo_policy []) of Ok cp \<Rightarrow> cp | Err _ \<Rightarrow> undefined)"

definition demo_store :: store_index where
  "demo_store = index_insert ''acme'' (policy_id demo_compiled) demo_compiled 1 new_store"

definition demo_gate_db :: database where
  "demo_gate_db = empty_database\<lparr>agent_policy_bindings :=
     [(''acme'', ''agt'') \<mapsto> \<lparr>pb_policy_id = policy_id demo_compiled, pb_bound_at = 1\<rparr>]\<rparr>"

definition demo_gate :: "any_env \<Rightarrow> gate_env" where
  "demo_gate conn =
     \<lparr>ge_env = (\<lambda>v. None), ge_externs = demo_externs, ge_clocks = demo_clocks, ge_audit = demo_audit_tools,
      ge_rivals = solo, ge_conn = conn, ge_repo = sqlite_healthy, ge_store = demo_store,
      ge_now = 1000, ge_audit_id = ''a1''\<rparr>"

lemma demo_compiled: "compile demo_externs demo_hashers (demo_policy []) = Ok demo_compiled"
proof -
  have "\<exists>cp. compile demo_externs demo_hashers (demo_policy []) = Ok cp"
    by (simp add: compile_def compile_scope_def compile_time_window_def time_from_window_def
        compile_business_hours_def validate_hhmm_def Let_def demo_defs hhmm_ok_demo)
  then show ?thesis
    by (auto simp: demo_compiled_def)
qed

lemma demo_store_reachable: "store_reachable demo_tools demo_store"
proof -
  let ?req = "\<lparr>rq_method = ''POST'', rq_path = ''/v1/policy/upload'', rq_path_and_query = None,
    rq_headers = [(''content-type'', ''text/yaml'')], rq_body = ''version: 1'', rq_tenant = Some ''acme''\<rparr>"
  have "header_str ?req ''content-type'' = Some ''text/yaml''"
    by code_simp
  then have "\<exists>u db'. upload demo_tools healthy 1 ?req (empty_database, new_store) = (u, db', demo_store)"
    using demo_policy_validates demo_compiled trim_start_version
    by (simp add: upload_def read_upload_def parse_or_yaml_def parse_yaml_def demo_tools_def upsert_tenant_def
        healthy_def run_stmt_def new_store_def tenant_or_default_def demo_store_def)
  then show ?thesis
    by (blast intro: store_reachable.intros)
qed

lemma demo_env: "policy_enforcement_mode_of (\<lambda>v. None) = Enforce" "policy_require_binding (\<lambda>v. None)"
  by code_simp+

lemma demo_facts:
  "load_agent_runtime_facts demo_clocks healthy ''acme'' ''agt'' pid 1000 d demo_gate_db =
     Ok \<lparr>rf_recent_call_timestamps = [], rf_weekly_call_timestamps = [], rf_daily_spend_usd = f64_zero,
         rf_in_flight_actions = 0, rf_last_action_at = None\<rparr>"
  by (simp add: load_agent_runtime_facts_def healthy_def run_stmt_def weekly_timestamps_def demo_gate_db_def
      empty_database_def scalar_or_def daily_spend_def open_capabilities_def demo_clocks_def clamp_between_def)


section \<open>What the facts can hide\<close>

text \<open>
  Two of the reads behind the gate do not fail closed.  When the sum of the day's spend or
  the count of open capabilities cannot be read, the gate decides as if the agent had spent
  nothing and held no capability: its decision is the one of a healthy connection to a database with an
  empty spend log and no capabilities.\<close>

theorem unreadable_spend_counts_as_none:
  assumes "stmt_fault conn 2 = Some e" "stmt_fault conn 3 = Some e'"
    and "stmt_fault conn 0 = None" "stmt_fault conn 1 = None"
    and "lock_fault conn = None" "sql_sum C [] = f64_zero"
  shows "enforce_bound_policy_with_handles X C conn idx repo now t a action db =
    enforce_bound_policy_with_handles X C healthy idx repo now t a action
      (db\<lparr>spend_log := [], agent_egress_capabilities := []\<rparr>)"
proof -
  let ?db = "db\<lparr>spend_log := [], agent_egress_capabilities := []\<rparr>"
  have facts: "load_agent_runtime_facts C conn t a pid now d db = load_agent_runtime_facts C healthy t a pid now d ?db" for pid d
    using assms
    by (simp add: load_agent_runtime_facts_def run_stmt_def healthy_def scalar_or_def daily_spend_def
        open_capabilities_def weekly_timestamps_def clamp_between_def)
  have lookup: "lookup_bound_policy_id conn t a db = lookup_bound_policy_id healthy t a ?db"
    using assms by (simp add: lookup_bound_policy_id_def run_stmt_def healthy_def)
  have spend: "resolve_spend_for_evaluation_tenant repo t pid (Some a) None db =
      resolve_spend_for_evaluation_tenant repo t pid (Some a) None ?db" for pid
    by (simp add: resolve_spend_for_evaluation_tenant_def get_spend_total_tenant_def)
  show ?thesis
    by (simp only: enforce_bound_policy_with_handles_def facts lookup spend)
qed

theorem unreadable_spend_counts_as_none_witness:
  "let conn = healthy\<lparr>stmt_fault := (\<lambda>k. if k = 2 \<or> k = 3 then Some ''disk I/O error'' else None)\<rparr>;
       row = \<lparr>sl_log_id = ''l'', sl_policy_id = policy_id demo_compiled, sl_agent_id = ''agt'', sl_action_id = None,
              sl_amount_usd = f64_of_int 500, sl_recorded_at = 900, sl_source = ''sdk_flush'', sl_tenant_id = ''acme''\<rparr>;
       outcome = (\<lambda>conn db. enforce_bound_policy_with_handles demo_externs demo_clocks conn demo_store sqlite_healthy
         1000 ''acme'' ''agt'' demo_action db)
   in outcome conn (demo_gate_db\<lparr>spend_log := [row]\<rparr>) = outcome healthy demo_gate_db"
proof -
  have "demo_gate_db\<lparr>spend_log := [], agent_egress_capabilities := []\<rparr> = demo_gate_db"
    by (simp add: demo_gate_db_def empty_database_def)
  then show ?thesis
    unfolding Let_def
    by (subst unreadable_spend_counts_as_none [of _ "''disk I/O error''" "''disk I/O error''"])
      (simp_all add: healthy_def demo_clocks_def)
qed

lemma weekly_timestamps_length:
  "length (weekly_timestamps t a now db) = min MAX_RATE_WINDOW_ROWS
     (length (filter (\<lambda>r. row_tenant_id r = t \<and> row_agent_id r = a \<and>
        row_created_at r > i64_saturating_sub now (7 * 24 * 60 * 60)) (agent_action_receipts db)))"
  by (simp add: weekly_timestamps_def)

lemma set_weekly_timestamps:
  "set (weekly_timestamps t a now db) \<subseteq> {x. i64_saturating_sub now (7 * 24 * 60 * 60) < x \<and>
     (\<exists>r \<in> set (agent_action_receipts db). x = row_created_at r)}"
  by (auto simp: weekly_timestamps_def dest!: in_set_takeD)

text \<open>
  The weekly limit as the gate enforces it.  When no receipt is dated in the future, the
  weekly check allows an action exactly when the number of the agent's receipts of the last
  seven days, cut off at 20000, is below the limit.  So limits up to 20000 are exact, and a
  larger limit never denies anything.\<close>

theorem weekly_limit_is_exact_up_to_the_window:
  assumes "load_agent_runtime_facts C conn t a pid now d db = Ok rf"
    and "\<forall>r \<in> set (agent_action_receipts db). row_created_at r \<le> now"
  shows "weekly_rate_evaluate limit (enforcement_context X C p spend now rf action) = Allow \<longleftrightarrow>
    min 20000 (length (filter (\<lambda>r. row_tenant_id r = t \<and> row_agent_id r = a \<and>
      row_created_at r > i64_saturating_sub now WEEKLY_WINDOW_SECS) (agent_action_receipts db))) < unat limit"
proof -
  let ?ts = "weekly_timestamps t a now db"
  have rf: "rf_weekly_call_timestamps rf = ?ts"
    using assms(1) by (auto simp: load_agent_runtime_facts_def and_then_eq_Ok_iff split: option.splits)
  have "\<forall>x \<in> set ?ts. i64_saturating_sub now WEEKLY_WINDOW_SECS < x \<and> x \<le> now"
    using set_weekly_timestamps [of t a now db] assms(2) by (force simp: WEEKLY_WINDOW_SECS_def)
  then have "window_count WEEKLY_WINDOW_SECS now ?ts = of_nat (length ?ts)"
    by (simp add: window_count_def Let_def)
  moreover have "length ?ts \<le> 20000"
    by (simp add: weekly_timestamps_length MAX_RATE_WINDOW_ROWS_def)
  then have "unat (of_nat (length ?ts) :: u32) = length ?ts"
    by (simp add: unat_of_nat take_bit_nat_eq_self)
  ultimately have "weekly_rate_evaluate limit (enforcement_context X C p spend now rf action) = Allow \<longleftrightarrow>
      length ?ts < unat limit"
    by (simp add: weekly_rate_evaluate_def enforcement_context_def with_defaults_def rf Let_def word_le_nat_alt not_le)
  then show ?thesis
    by (simp only: weekly_timestamps_length MAX_RATE_WINDOW_ROWS_def WEEKLY_WINDOW_SECS_def)
qed

theorem weekly_limit_is_exact_up_to_the_window_witness:
  "\<exists>rf. load_agent_runtime_facts demo_clocks healthy ''acme'' ''agt'' [] 1000 0 demo_gate_db = Ok rf \<and>
     weekly_rate_evaluate 1 (enforcement_context demo_externs demo_clocks (demo_policy []) f64_zero 1000 rf demo_action) = Allow"
proof -
  have "agent_action_receipts demo_gate_db = []"
    by (simp add: demo_gate_db_def empty_database_def)
  then show ?thesis
    using weekly_limit_is_exact_up_to_the_window [OF demo_facts, of 1 demo_externs "demo_policy []" f64_zero demo_action]
    by (simp add: demo_facts)
qed

end
