(* ===== verification/Agent_Action.thy ===== *)
theory Agent_Action
  imports Usage Policy_Gate
begin

text \<open>
  The action path (\<open>agent_action/validate.rs\<close>, \<open>agent_action/anon.rs\<close>,
  \<open>agent_action/handlers.rs\<close> and the ring of a tenant from
  \<open>agent_action/canonical.rs\<close>): a challenge is issued for an action the bound policy permits, a
  signed action is validated and leaves a receipt in the chain of its tenant, and an anonymous action
  is validated under the rules of the rings it names.

  Every statement commits on its own: the handlers open no transaction.  The clock reads and the random ids are
  arguments.
\<close>

section \<open>The ring of a tenant\<close>

definition decode_key :: "('s, 'p, 'z) curve_scheme \<Rightarrow> string \<Rightarrow> 'p option" where
  "decode_key G hex_key =
     (case unhex G hex_key of
        Ok bytes \<Rightarrow> if length bytes = 32 then decompress G bytes else None
      | Err _ \<Rightarrow> None)"

definition active_tenant_ring ::
  "('s, 'p, 'z) curve_scheme \<Rightarrow> any_env \<Rightarrow> nat \<Rightarrow> string \<Rightarrow> i64 \<Rightarrow> database \<Rightarrow> (string, (string \<times> 'p) list) result" where
  "active_tenant_ring G conn k tenant_id now db =
     run_stmt conn k False
       (List.map_filter (\<lambda>hex_key. map_option (Pair hex_key) (decode_key G hex_key))
         (map ag_public_key_hex (sort_key ag_agent_id
           (filter (\<lambda>a. ag_tenant_id a = tenant_id \<and> ag_revoked a = 0 \<and> ag_expires_at a > now \<and>
              ag_public_key_hex a \<noteq> []) (agents db)))))"

section \<open>Receipts\<close>

text \<open>
  The position in the chain of the tenant that the next receipt gets: one statement reads the head, and a second one
  loads the receipt at the head when there is a chain.
\<close>

definition has_chain_head :: "receipts_table \<Rightarrow> string \<Rightarrow> bool" where
  "has_chain_head table tenant_id =
     (case sort_key (\<lambda>r. - ifnull (row_seq r) 0) (filter (\<lambda>r. row_tenant_id r = tenant_id) table) of
        [] \<Rightarrow> False
      | head # _ \<Rightarrow> ifnull (row_seq head) 0 \<noteq> 0)"

definition reserve_position ::
  "('y) crypto_scheme \<Rightarrow> any_env \<Rightarrow> nat \<Rightarrow> string \<Rightarrow> database \<Rightarrow> (app_error, i64 \<times> string) result" where
  "reserve_position H conn k tenant_id db =
     (let table = agent_action_receipts db in
      and_then (map_err (\<lambda>e. app_error_from 500 (Msg e)) (run_stmt conn k False ())) (\<lambda>_.
      and_then (if has_chain_head table tenant_id
          then map_err (\<lambda>e. app_error_from 500 (Msg e)) (run_stmt conn (k + 1) False ()) else Ok ()) (\<lambda>_.
      map_err (\<lambda>e. case e of None \<Rightarrow> Panicked | Some m \<Rightarrow> app_error_from 500 m)
        (next_chain_position H table tenant_id))))"

definition row_of_receipt :: "action_receipt \<Rightarrow> receipt_row" where
  "row_of_receipt r =
     \<lparr>row_receipt_id = rc_receipt_id r, row_action_hash = rc_action_hash r, row_agent_id = rc_agent_id r,
      row_ring_key_image_hex = rc_ring_key_image_hex r, row_policy_version = rc_policy_version r,
      row_ajwt_jti = rc_ajwt_jti r, row_pop_jkt = rc_pop_jkt r, row_status = rc_status r,
      row_signature = rc_signature r, row_created_at = rc_timestamp r, row_ring_id = None,
      row_config_digest = None, row_tenant_id = rc_tenant_id r, row_seq = Some (rc_seq r),
      row_prev_hash = Some (rc_prev_hash r), row_owner_mandate_hash = Some (rc_owner_mandate_hash r)\<rparr>"

text \<open>The columns an upsert of the two paths leaves as they were.\<close>

definition merge_identity :: "receipt_row \<Rightarrow> receipt_row \<Rightarrow> receipt_row" where
  "merge_identity old new = new\<lparr>row_ring_id := row_ring_id old, row_config_digest := row_config_digest old\<rparr>"

definition merge_anon :: "receipt_row \<Rightarrow> receipt_row \<Rightarrow> receipt_row" where
  "merge_anon old new = new\<lparr>row_owner_mandate_hash := row_owner_mandate_hash old\<rparr>"

definition store_receipt ::
  "any_env \<Rightarrow> nat \<Rightarrow> (receipt_row \<Rightarrow> receipt_row \<Rightarrow> receipt_row) \<Rightarrow> receipt_row \<Rightarrow> database \<Rightarrow> (app_error, database) result" where
  "store_receipt conn k merge row db =
     map_err (\<lambda>e. app_error_from 500 (Msg e)) (run_stmt conn k False
       (db\<lparr>agent_action_receipts := upsert_receipt merge row (agent_action_receipts db)\<rparr>))"

section \<open>Single use of nonces\<close>

definition action_nonce_error :: "string \<Rightarrow> string \<Rightarrow> app_error" where
  "action_nonce_error replay e =
     (let m = to_ascii_lowercase e in
      if str_contains m ''unique'' \<or> str_contains m ''duplicate key'' then app_error_from 401 (Msg replay)
      else app_error_from 500 (Msg e))"

definition consume_action_nonce ::
  "any_env \<Rightarrow> nat \<Rightarrow> string \<Rightarrow> i64 \<Rightarrow> string \<Rightarrow> action_nonce_row \<Rightarrow> database \<Rightarrow> (app_error, unit) result \<times> database" where
  "consume_action_nonce conn k replay now nonce row db =
     (case run_stmt conn k False
             (db\<lparr>agent_action_nonces := purge an_expires_at now (agent_action_nonces db)\<rparr>) of
        Err e \<Rightarrow> (fail 500 (Msg e), db)
      | Ok db \<Rightarrow>
          (case insert_action_nonce conn (k + 1) nonce row db of
             Err e \<Rightarrow> (Err (action_nonce_error replay e), db)
           | Ok db \<Rightarrow> (Ok (), db)))"

section \<open>The identity path\<close>

record ('s, 'p) agent_action_proof =
  pf_envelope :: agent_action_envelope
  pf_ring_signature :: "('s, 'p) ring_signature"

record agent_action_validation =
  av_action_hash :: string
  av_ring_key_image_hex :: string
  av_receipt :: action_receipt

record validate_agent_action_options =
  op_tenant_id :: string
  op_agent_id :: string
  op_human_key_image :: string
  op_ajwt_jti :: string
  op_intent :: "json option"
  op_expected_action :: string
  op_expected_resource :: "string option"
  op_expected_merchant_id :: "string option"
  op_expected_amount_minor :: "i64 option"
  op_expected_currency :: "string option"
  op_pop_jkt :: "string option"
  op_status :: string

definition scope_strings :: "json option \<Rightarrow> string list" where
  "scope_strings v =
     (case Option.bind v as_array of
        Some arr \<Rightarrow> map (\<lambda>s. to_ascii_lowercase (trim s)) (List.map_filter as_str arr)
      | None \<Rightarrow> [])"

definition action_allowed_by_intent :: "json option \<Rightarrow> string \<Rightarrow> bool" where
  "action_allowed_by_intent intent expected_action =
     (case intent of
        None \<Rightarrow> False
      | Some intent \<Rightarrow>
          (let expected = to_ascii_lowercase (trim expected_action) in
           expected \<noteq> [] \<and>
           expected \<in> set (scope_strings (jget intent ''scope'') @
             scope_strings (Option.bind (jget intent ''constraints'') (\<lambda>c. jget c ''scope'')) @
             (case Option.bind (jget intent ''action'') as_str of
                Some a \<Rightarrow> [to_ascii_lowercase (trim a)] | None \<Rightarrow> []))))"

definition require_eq_str :: "string \<Rightarrow> string \<Rightarrow> string \<Rightarrow> (app_error, unit) result" where
  "require_eq_str label got expected =
     require (got = expected) 401 (Fmt ''agent_action envelope {label} mismatch'' [AStr label])"

definition require_opt :: "string \<Rightarrow> string \<Rightarrow> string option \<Rightarrow> (app_error, unit) result" where
  "require_opt label got expected =
     (case expected of Some e \<Rightarrow> require_eq_str label got e | None \<Rightarrow> Ok ())"

definition check_envelope ::
  "('y) crypto_scheme \<Rightarrow> i64 \<Rightarrow> agent_action_envelope \<Rightarrow> validate_agent_action_options \<Rightarrow> (app_error, unit) result" where
  "check_envelope H now env opts =
     and_then (require_eq_str ''agent_id'' (ev_agent_id env) (op_agent_id opts)) (\<lambda>_.
     and_then (require_eq_str ''human_key_image'' (ev_human_key_image env) (op_human_key_image opts)) (\<lambda>_.
     and_then (require_eq_str ''action'' (ev_action env) (op_expected_action opts)) (\<lambda>_.
     and_then (require_eq_str ''ajwt_jti'' (ev_ajwt_jti env) (op_ajwt_jti opts)) (\<lambda>_.
     and_then (require_opt ''resource'' (ev_resource env) (op_expected_resource opts)) (\<lambda>_.
     and_then (require_opt ''merchant_id'' (ev_merchant_id env) (op_expected_merchant_id opts)) (\<lambda>_.
     and_then (require (op_expected_amount_minor opts \<in> {None, Some (ev_amount_minor env)}) 401
       (Msg ''agent_action envelope amount_minor mismatch'')) (\<lambda>_.
     and_then (require_opt ''currency'' (ev_currency env) (op_expected_currency opts)) (\<lambda>_.
     and_then (require (ev_policy_hash env = expected_policy_hash H (op_expected_action opts)) 401
       (Msg ''agent_action policy_hash mismatch'')) (\<lambda>_.
     and_then (require (\<not> ev_expires_at env < now) 401 (Msg ''agent_action envelope expired'')) (\<lambda>_.
     and_then (require (16 \<le> length (trim (ev_nonce env)) \<and> length (ev_nonce env) \<le> 128) 400
       (Msg ''agent_action nonce must be 16..128 chars'')) (\<lambda>_.
     require (action_allowed_by_intent (op_intent opts) (op_expected_action opts)) 403
       (Msg ''A-JWT intent does not allow agent_action action''))))))))))))"

definition find_agent :: "string \<Rightarrow> string \<Rightarrow> database \<Rightarrow> agent_row option" where
  "find_agent tenant_id agent_id db =
     find (\<lambda>a. ag_agent_id a = agent_id \<and> ag_tenant_id a = tenant_id) (agents db)"

text \<open>The checks of the signer against the registered agent; the result is the ring of the tenant.\<close>

definition signer_ring ::
  "('s, 'p, 'z) curve_scheme \<Rightarrow> any_env \<Rightarrow> string \<Rightarrow> i64 \<Rightarrow> validate_agent_action_options \<Rightarrow> database \<Rightarrow>
   (app_error, 'p list) result" where
  "signer_ring G conn ring_key_image_hex now opts db =
     and_then (require_row conn 0 (find_agent (op_tenant_id opts) (op_agent_id opts) db)
       (app_error_from 404 (Msg ''Agent not found''))) (\<lambda>a.
     and_then (require (ag_human_key_image a = op_human_key_image opts \<and> ag_revoked a = 0 \<and> \<not> ag_expires_at a < now) 401
       (Msg ''Agent revoked, expired, or owner mismatch'')) (\<lambda>_.
     and_then (require (ag_public_key_hex a \<noteq> []) 401 (Msg ''Agent missing ring public key'')) (\<lambda>_.
     and_then (require (ag_ring_key_image_hex a \<noteq> []) 401 (Msg ''Agent missing registered ring key image'')) (\<lambda>_.
     and_then (require (ag_ring_key_image_hex a = ring_key_image_hex) 401
       (Msg ''agent_action ring key image does not match registered agent'')) (\<lambda>_.
     and_then (require (case op_pop_jkt opts of
         Some p \<Rightarrow> p = [] \<or> ag_pop_jkt a = [] \<or> p = ag_pop_jkt a | None \<Rightarrow> True) 401
       (Msg ''agent_action PoP thumbprint mismatch'')) (\<lambda>_.
     and_then (map_err (\<lambda>_. app_error_from 401 (Msg ''Agent public key encoding invalid'')) (unhex G (ag_public_key_hex a))) (\<lambda>pk.
     and_then (require (length pk = 32) 401 (Msg ''Agent public key length invalid'')) (\<lambda>_.
     and_then (ok_or (decompress G pk) (app_error_from 401 (Msg ''Agent public key point invalid''))) (\<lambda>pt.
     and_then (map_err (\<lambda>e. app_error_from 500 (Msg e)) (active_tenant_ring G conn 1 (op_tenant_id opts) now db)) (\<lambda>ring.
     and_then (require (pt \<in> set (map snd ring)) 401
       (Msg ''Agent public key is not in authenticated tenant ring'')) (\<lambda>_.
     Ok (map snd ring))))))))))))"

definition identity_receipt ::
  "('y) crypto_scheme \<Rightarrow> string \<Rightarrow> string \<Rightarrow> string \<Rightarrow> i64 \<Rightarrow> agent_action_envelope \<Rightarrow> validate_agent_action_options \<Rightarrow>
   i64 \<times> string \<Rightarrow> string \<Rightarrow> action_receipt option" where
  "identity_receipt H jwt_secret hex ring_key_image_hex now env opts pos mandate =
     (let receipt = \<lparr>rc_tenant_id = op_tenant_id opts, rc_receipt_id = ''ar_'' @ hex, rc_action_hash = action_hash H env,
            rc_agent_id = op_agent_id opts, rc_ring_key_image_hex = ring_key_image_hex,
            rc_policy_version = KYA_POLICY_MATRIX_VERSION, rc_ajwt_jti = op_ajwt_jti opts,
            rc_pop_jkt = (case op_pop_jkt opts of Some p \<Rightarrow> p | None \<Rightarrow> []), rc_timestamp = now,
            rc_status = op_status opts, rc_signature = [], rc_seq = fst pos, rc_prev_hash = snd pos,
            rc_owner_mandate_hash = mandate\<rparr>
      in map_option (\<lambda>sig. receipt\<lparr>rc_signature := sig\<rparr>) (sign_receipt H jwt_secret receipt))"

definition identity_nonce :: "('y) crypto_scheme \<Rightarrow> i64 \<Rightarrow> agent_action_envelope \<Rightarrow> validate_agent_action_options \<Rightarrow> action_nonce_row" where
  "identity_nonce H now env opts =
     \<lparr>an_agent_id = op_agent_id opts, an_action_hash = action_hash H env, an_expires_at = ev_expires_at env, an_used_at = now\<rparr>"

definition make_receipt ::
  "('y) crypto_scheme \<Rightarrow> any_env \<Rightarrow> string \<Rightarrow> string \<Rightarrow> string \<Rightarrow> i64 \<Rightarrow> agent_action_envelope \<Rightarrow>
   validate_agent_action_options \<Rightarrow> database \<Rightarrow> (app_error, action_receipt) result" where
  "make_receipt H conn jwt_secret hex ki_hex now env opts db =
     and_then (reserve_position H conn 4 (op_tenant_id opts) db) (\<lambda>pos.
     ok_or (identity_receipt H jwt_secret hex ki_hex now env opts pos
       (scalar_or conn 6 (case find_agent (op_tenant_id opts) (op_agent_id opts) db of
          Some a \<Rightarrow> ag_owner_mandate_hash a | None \<Rightarrow> []) [])) Panicked)"

text \<open>The receipt is made and signed whether or not the ring signature is valid, and stored only if it is.\<close>

definition issue_receipt ::
  "('y) crypto_scheme \<Rightarrow> any_env \<Rightarrow> string \<Rightarrow> string \<Rightarrow> string \<Rightarrow> i64 \<Rightarrow> agent_action_envelope \<Rightarrow>
   validate_agent_action_options \<Rightarrow> bool \<Rightarrow> database \<Rightarrow> (app_error, action_receipt) result \<times> database" where
  "issue_receipt H conn jwt_secret hex ki_hex now env opts ring_ok db =
     (case make_receipt H conn jwt_secret hex ki_hex now env opts db of
        Err e \<Rightarrow> (Err e, db)
      | Ok receipt \<Rightarrow>
          if \<not> ring_ok then (fail 401 (Msg ''agent_action ring signature verification failed''), db)
          else
            case store_receipt conn 7 merge_identity (row_of_receipt receipt) db of
              Err e \<Rightarrow> (Err e, db)
            | Ok db \<Rightarrow> (Ok receipt, db))"

definition validate_agent_action ::
  "('y) crypto_scheme \<Rightarrow> ('s, 'p, 'z) curve_scheme \<Rightarrow> any_env \<Rightarrow> string \<Rightarrow> string \<Rightarrow> i64 \<Rightarrow> i64 \<Rightarrow>
   ('s, 'p) agent_action_proof \<Rightarrow> validate_agent_action_options \<Rightarrow> database \<Rightarrow>
   (app_error, agent_action_validation) result \<times> database" where
  "validate_agent_action H G conn jwt_secret hex now0 now pf opts db =
     (let env = pf_envelope pf; ki_hex = tohex G (compress G (key_image (pf_ring_signature pf)))
      in case and_then (check_envelope H now0 env opts) (\<lambda>_.
               and_then (if lock_fault conn = None then Ok () else Err Panicked) (\<lambda>_. signer_ring G conn ki_hex now opts db)) of
           Err e \<Rightarrow> (Err e, db)
         | Ok tenant_ring \<Rightarrow>
             (let ring_ok = verify G (canonical_envelope_json H env) tenant_ring (pf_ring_signature pf)
              in case (if ring_ok
                       then consume_action_nonce conn 2 ''agent_action nonce replay'' now (ev_nonce env)
                         (identity_nonce H now env opts) db
                       else (Ok (), db)) of
                   (Err e, db) \<Rightarrow> (Err e, db)
                 | (Ok _, db) \<Rightarrow>
                     (case issue_receipt H conn jwt_secret hex ki_hex now env opts ring_ok db of
                        (Err e, db) \<Rightarrow> (Err e, db)
                      | (Ok receipt, db) \<Rightarrow>
                          (Ok \<lparr>av_action_hash = action_hash H env, av_ring_key_image_hex = ki_hex, av_receipt = receipt\<rparr>, db))))"

section \<open>The anonymous path\<close>

record anon_action_envelope =
  ae_tenant_id :: string
  ae_ring_id :: string
  ae_also_ring_ids :: "string list"
  ae_action :: string
  ae_resource :: string
  ae_merchant_id :: string
  ae_amount_minor :: i64
  ae_currency :: string
  ae_config_digest :: string
  ae_nonce :: string
  ae_expires_at :: i64

record ('s, 'p) anon_action_proof =
  ap_envelope :: anon_action_envelope
  ap_ring_signature :: "('s, 'p) ring_signature"
  ap_also_ring_signatures :: "('s, 'p) ring_signature list"

fun comma_join :: "string list \<Rightarrow> string" where
  "comma_join [] = []"
| "comma_join [s] = s"
| "comma_join (s # ss) = s @ '','' @ comma_join ss"

definition canonical_anon_envelope_json :: "('y) crypto_scheme \<Rightarrow> anon_action_envelope \<Rightarrow> string" where
  "canonical_anon_envelope_json H e =
     ''{'' @ quoted ''tenant_id'' @ '':'' @ json_str H (ae_tenant_id e) @
     '','' @ quoted ''ring_id'' @ '':'' @ json_str H (ae_ring_id e) @
     '','' @ quoted ''also_ring_ids'' @ '':['' @ comma_join (map (json_str H) (ae_also_ring_ids e)) @ '']'' @
     '','' @ quoted ''action'' @ '':'' @ json_str H (ae_action e) @
     '','' @ quoted ''resource'' @ '':'' @ json_str H (ae_resource e) @
     '','' @ quoted ''merchant_id'' @ '':'' @ json_str H (ae_merchant_id e) @
     '','' @ quoted ''amount_minor'' @ '':'' @ int_to_string (ae_amount_minor e) @
     '','' @ quoted ''currency'' @ '':'' @ json_str H (ae_currency e) @
     '','' @ quoted ''config_digest'' @ '':'' @ json_str H (ae_config_digest e) @
     '','' @ quoted ''nonce'' @ '':'' @ json_str H (ae_nonce e) @
     '','' @ quoted ''expires_at'' @ '':'' @ int_to_string (ae_expires_at e) @ ''}''"

definition anon_action_hash :: "('y) crypto_scheme \<Rightarrow> anon_action_envelope \<Rightarrow> string" where
  "anon_action_hash H e = hex_encode H (sha256 H (canonical_anon_envelope_json H e))"

fun check_also_rings :: "string list \<Rightarrow> string list \<Rightarrow> (app_error, unit) result" where
  "check_also_rings seen [] = Ok ()"
| "check_also_rings seen (r # rs) =
     and_then (require (trim r \<noteq> []) 400 (Msg ''empty also_ring_ids entry'')) (\<lambda>_.
     and_then (require (r \<notin> set seen) 400 (Fmt ''duplicate ring '{r}' in also_ring_ids'' [AStr r])) (\<lambda>_.
     check_also_rings (seen @ [r]) rs))"

text \<open>
  One named ring: its rule admits the action and a member signed the envelope.  The result is the rule and the
  version label; the primary ring and the others differ only in the texts of their errors.
\<close>

definition admit_ring ::
  "('s, 'p, 'z) curve_scheme \<Rightarrow> any_env \<Rightarrow> nat \<Rightarrow> bool \<Rightarrow> string \<Rightarrow> anon_action_envelope \<Rightarrow> string \<Rightarrow>
   ('s, 'p) ring_signature \<Rightarrow> database \<Rightarrow> (app_error, ring_rule \<times> string) result" where
  "admit_ring G conn k primary canonical env ring_id sig db =
     (let m = (\<lambda>a b. if primary then Msg a else Fmt b [AStr ring_id]) in
      and_then (map_err (\<lambda>e. app_error_from 500 (Msg e)) (get_ring G conn k (ae_tenant_id env) ring_id db)) (\<lambda>found.
      and_then (ok_or found (app_error_from 404 (m ''ring not found'' ''ring '{ring_id}' not found''))) (\<lambda>(rule, v).
      and_then (case evaluate_rule rule (ae_action env) (ae_config_digest env) of
          RuleDeny why \<Rightarrow> fail 403 (if primary then Fmt ''ring rule denied: {why}'' [AMsg why]
            else Fmt ''ring '{ring_id}' rule denied: {why}'' [AStr ring_id, AMsg why])
        | RuleAllow \<Rightarrow> Ok ()) (\<lambda>_.
      and_then (map_err (\<lambda>e. app_error_from 500 (Msg e))
        (list_member_points G conn (k + 1) (ae_tenant_id env) ring_id db)) (\<lambda>members.
      and_then (require (members \<noteq> []) 401 (m ''ring has no members'' ''ring '{ring_id}' has no members'')) (\<lambda>_.
      and_then (require (verify G canonical members sig) 401
        (m ''anon ring signature verification failed'' ''ring '{ring_id}' signature verification failed'')) (\<lambda>_.
      Ok (rule, ''ring:'' @ ring_id @ '':v'' @ int_to_string v))))))))"

fun admit_also_rings ::
  "('s, 'p, 'z) curve_scheme \<Rightarrow> any_env \<Rightarrow> nat \<Rightarrow> string \<Rightarrow> anon_action_envelope \<Rightarrow>
   (string \<times> ('s, 'p) ring_signature) list \<Rightarrow> database \<Rightarrow> (app_error, string list) result" where
  "admit_also_rings G conn k canonical env [] db = Ok []"
| "admit_also_rings G conn k canonical env ((ring_id, sig) # rest) db =
     and_then (admit_ring G conn k False canonical env ring_id sig db) (\<lambda>(rule, label).
     and_then (admit_also_rings G conn (k + 2) canonical env rest db) (\<lambda>labels. Ok (label # labels)))"

fun plus_join :: "string list \<Rightarrow> string" where
  "plus_join [] = []"
| "plus_join [s] = s"
| "plus_join (s # ss) = s @ ''+'' @ plus_join ss"

definition check_anon :: "i64 \<Rightarrow> ('s, 'p) anon_action_proof \<Rightarrow> (app_error, unit) result" where
  "check_anon now pf =
     (let env = ap_envelope pf in
      and_then (require (trim (ae_ring_id env) \<noteq> []) 400 (Msg ''ring_id is required'')) (\<lambda>_.
      and_then (require (16 \<le> length (trim (ae_nonce env)) \<and> length (ae_nonce env) \<le> 128) 400
        (Msg ''nonce must be 16..128 chars'')) (\<lambda>_.
      and_then (require (\<not> ae_expires_at env < now) 401 (Msg ''anon action envelope expired'')) (\<lambda>_.
      and_then (require (length (ap_also_ring_signatures pf) = length (ae_also_ring_ids env)) 400
        (Msg ''also_ring_signatures must have one signature per also_ring_ids entry'')) (\<lambda>_.
      check_also_rings [ae_ring_id env] (ae_also_ring_ids env))))))"

text \<open>The rules, the signatures and the budget; the result is the policy version of the receipt.\<close>

definition admit_anon ::
  "('y) crypto_scheme \<Rightarrow> ('s, 'p, 'z) curve_scheme \<Rightarrow> any_env \<Rightarrow> ('s, 'p) anon_action_proof \<Rightarrow> database \<Rightarrow>
   (app_error, string) result" where
  "admit_anon H G conn pf db =
     (let env = ap_envelope pf; canonical = canonical_anon_envelope_json H env;
          ki_hex = tohex G (compress G (key_image (ap_ring_signature pf)))
      in and_then (admit_ring G conn 0 True canonical env (ae_ring_id env) (ap_ring_signature pf) db) (\<lambda>(rule, label).
         and_then (admit_also_rings G conn 10 canonical env
           (zip (ae_also_ring_ids env) (ap_also_ring_signatures pf)) db) (\<lambda>labels.
         and_then (map_err (\<lambda>e. app_error_from 500 (Msg e))
           (get_usage conn 2 (ae_tenant_id env) (ae_ring_id env) ki_hex db)) (\<lambda>totals.
         case budget_exceeded totals (budgets rule) of
           Some why \<Rightarrow> fail 402 (Fmt ''ring budget exceeded: {why}'' [AMsg why])
         | None \<Rightarrow> Ok (plus_join (label # labels))))))"

definition anon_receipt ::
  "('y) crypto_scheme \<Rightarrow> string \<Rightarrow> string \<Rightarrow> string \<Rightarrow> i64 \<Rightarrow> anon_action_envelope \<Rightarrow> string \<Rightarrow> i64 \<times> string \<Rightarrow>
   action_receipt option" where
  "anon_receipt H jwt_secret hex ki_hex now env label pos =
     (let receipt = \<lparr>rc_tenant_id = ae_tenant_id env, rc_receipt_id = ''ar_'' @ hex, rc_action_hash = anon_action_hash H env,
            rc_agent_id = [], rc_ring_key_image_hex = ki_hex, rc_policy_version = label, rc_ajwt_jti = [],
            rc_pop_jkt = [], rc_timestamp = now, rc_status = ''verified'', rc_signature = [], rc_seq = fst pos,
            rc_prev_hash = snd pos, rc_owner_mandate_hash = []\<rparr>
      in map_option (\<lambda>sig. receipt\<lparr>rc_signature := sig\<rparr>) (sign_receipt H jwt_secret receipt))"

definition anon_row :: "anon_action_envelope \<Rightarrow> action_receipt \<Rightarrow> receipt_row" where
  "anon_row env r =
     (row_of_receipt r)\<lparr>row_ring_id := Some (ae_ring_id env), row_config_digest := Some (ae_config_digest env),
        row_owner_mandate_hash := None\<rparr>"

definition anon_nonce :: "('y) crypto_scheme \<Rightarrow> i64 \<Rightarrow> anon_action_envelope \<Rightarrow> action_nonce_row" where
  "anon_nonce H now env =
     \<lparr>an_agent_id = [], an_action_hash = anon_action_hash H env, an_expires_at = ae_expires_at env, an_used_at = now\<rparr>"

definition make_anon_receipt ::
  "('y) crypto_scheme \<Rightarrow> any_env \<Rightarrow> string \<Rightarrow> string \<Rightarrow> string \<Rightarrow> i64 \<Rightarrow> anon_action_envelope \<Rightarrow> string \<Rightarrow>
   database \<Rightarrow> (app_error, action_receipt) result" where
  "make_anon_receipt H conn jwt_secret hex ki_hex now env label db =
     and_then (reserve_position H conn 5 (ae_tenant_id env) db) (\<lambda>pos.
     ok_or (anon_receipt H jwt_secret hex ki_hex now env label pos) Panicked)"

definition validate_anon_action ::
  "('y) crypto_scheme \<Rightarrow> ('s, 'p, 'z) curve_scheme \<Rightarrow> any_env \<Rightarrow> string \<Rightarrow> string \<Rightarrow> ('s, 'p) anon_action_proof \<Rightarrow> i64 \<Rightarrow>
   database \<Rightarrow> (app_error, action_receipt) result \<times> database" where
  "validate_anon_action H G conn jwt_secret hex pf now db =
     (let env = ap_envelope pf; ki_hex = tohex G (compress G (key_image (ap_ring_signature pf)))
      in case and_then (check_anon now pf) (\<lambda>_. admit_anon H G conn pf db) of
           Err e \<Rightarrow> (Err e, db)
         | Ok label \<Rightarrow>
             (case consume_action_nonce conn 3 ''anon action nonce replay'' now (ki_hex @ ''|'' @ ae_nonce env)
                     (anon_nonce H now env) db of
                (Err e, db) \<Rightarrow> (Err e, db)
              | (Ok _, db) \<Rightarrow>
                  (case make_anon_receipt H conn jwt_secret hex ki_hex now env label db of
                     Err e \<Rightarrow> (Err e, db)
                   | Ok receipt \<Rightarrow>
                       (case store_receipt conn 7 merge_anon (anon_row env receipt) db of
                          Err e \<Rightarrow> (Err e, db)
                        | Ok db \<Rightarrow> (Ok receipt, db)))))"

section \<open>Handlers\<close>

definition submit_anon_action ::
  "('y) crypto_scheme \<Rightarrow> ('s, 'p, 'z) curve_scheme \<Rightarrow> env \<Rightarrow> any_env \<Rightarrow> string \<Rightarrow> string \<Rightarrow> i64 \<Rightarrow> string \<Rightarrow>
   ('s, 'p) anon_action_proof \<Rightarrow> database \<Rightarrow> (app_error, action_receipt) result \<times> database" where
  "submit_anon_action H G env conn jwt_secret hex now tenant pf db =
     (case and_then (require_enabled env) (\<lambda>_.
           require (ae_tenant_id (ap_envelope pf) = tenant) 403
             (Fmt (''envelope tenant '{}' does not match the request tenant '{}' '' @ [CHR 0xE2, CHR 0x80, CHR 0x94] @
                 '' send x-sauron-tenant-id matching the signed envelope'')
               [AStr (ae_tenant_id (ap_envelope pf)), AStr tenant])) of
        Err e \<Rightarrow> (Err e, db)
      | Ok _ \<Rightarrow> with_db conn (validate_anon_action H G conn jwt_secret hex pf now db) db)"

record challenge_body =
  cb_agent_id :: string
  cb_human_key_image :: string
  cb_action :: string
  cb_resource :: string
  cb_merchant_id :: string
  cb_amount_minor :: i64
  cb_currency :: string
  cb_ajwt_jti :: string
  cb_ttl_secs :: i64

record challenge_response =
  ch_envelope :: agent_action_envelope
  ch_canonical :: string
  ch_action_hash :: string
  ch_agent_ring_public_keys_hex :: "string list"
  ch_signer_index :: nat
  ch_signing_public_key_hex :: string

definition challenge_ring ::
  "('s, 'p, 'z) curve_scheme \<Rightarrow> any_env \<Rightarrow> i64 \<Rightarrow> string \<Rightarrow> challenge_body \<Rightarrow> database \<Rightarrow>
   (app_error, string list \<times> nat \<times> string) result" where
  "challenge_ring G conn now tenant body db =
     and_then (require_row conn 20 (find (\<lambda>a. ag_tenant_id a = tenant \<and> ag_agent_id a = cb_agent_id body \<and>
         ag_human_key_image a = cb_human_key_image body \<and> ag_revoked a = 0 \<and> ag_expires_at a > now) (agents db))
       (app_error_from 401 (Msg ''Agent not active for requested human''))) (\<lambda>a.
     and_then (require (ag_public_key_hex a \<noteq> []) 401 (Msg ''Agent missing ring public key'')) (\<lambda>_.
     and_then (map_err (\<lambda>_. app_error_from 401 (Msg ''Agent public key encoding invalid'')) (unhex G (ag_public_key_hex a))) (\<lambda>pk.
     and_then (require (length pk = 32) 401 (Msg ''Agent public key length invalid'')) (\<lambda>_.
     and_then (ok_or (decompress G pk) (app_error_from 401 (Msg ''Agent public key point invalid''))) (\<lambda>_.
     and_then (map_err (\<lambda>e. app_error_from 500 (Msg e)) (active_tenant_ring G conn 21 tenant now db)) (\<lambda>ring.
     and_then (ok_or (position (\<lambda>h. h = ag_public_key_hex a) (map fst ring))
       (app_error_from 401 (Msg ''Agent public key is not in authenticated tenant ring''))) (\<lambda>i.
     Ok (map fst ring, i, ag_public_key_hex a))))))))"

definition bound_action :: "i64 \<Rightarrow> challenge_body \<Rightarrow> action" where
  "bound_action now body =
     action_default\<lparr>action_id := ''challenge-'' @ cb_ajwt_jti body, tool := trim (cb_action body),
       amount_usd := (if cb_amount_minor body > 0
         then Some (f64_div_int (f64_of_int (cb_amount_minor body)) 100) else None),
       timestamp := now,
       metadata := [''currency'' \<mapsto> JStr (to_ascii_uppercase (trim (cb_currency body))),
                    ''merchant_id'' \<mapsto> JStr (cb_merchant_id body)]\<rparr>"

definition challenge_envelope :: "('y) crypto_scheme \<Rightarrow> string \<Rightarrow> i64 \<Rightarrow> challenge_body \<Rightarrow> agent_action_envelope" where
  "challenge_envelope H hex now body =
     \<lparr>ev_agent_id = cb_agent_id body, ev_human_key_image = cb_human_key_image body, ev_action = trim (cb_action body),
      ev_resource = cb_resource body, ev_merchant_id = cb_merchant_id body, ev_amount_minor = cb_amount_minor body,
      ev_currency = to_ascii_uppercase (trim (cb_currency body)), ev_nonce = ''aan_'' @ hex,
      ev_expires_at = i64_wrap (now + clamp_between 15 300 (cb_ttl_secs body)),
      ev_policy_hash = expected_policy_hash H (trim (cb_action body)), ev_ajwt_jti = cb_ajwt_jti body\<rparr>"

definition action_challenge ::
  "('y) crypto_scheme \<Rightarrow> ('s, 'p, 'z) curve_scheme \<Rightarrow> gate_env \<Rightarrow> string \<Rightarrow> i64 \<Rightarrow> string \<Rightarrow> challenge_body \<Rightarrow>
   audit_sinks \<times> database \<Rightarrow> (app_error, challenge_response) result \<times> audit_sinks \<times> database" where
  "action_challenge H G W hex now tenant body st =
     (case and_then (require (\<not> (trim (cb_agent_id body) = [] \<or> trim (cb_human_key_image body) = [] \<or>
               trim (cb_action body) = [] \<or> trim (cb_ajwt_jti body) = [])) 400
             (Msg ''agent_id, human_key_image, action and ajwt_jti are required'')) (\<lambda>_.
           if lock_fault (ge_conn W) = None then challenge_ring G (ge_conn W) now tenant body (snd st) else Err Panicked) of
        Err e \<Rightarrow> (Err e, st)
      | Ok (ring, i, key) \<Rightarrow>
          (case gate_action_on_bound_policy W tenant (cb_agent_id body) (bound_action now body) st of
             (Err e, st') \<Rightarrow> (Err e, st')
           | (Ok _, st') \<Rightarrow>
               (let env = challenge_envelope H hex now body
                in (Ok \<lparr>ch_envelope = env, ch_canonical = canonical_envelope_json H env, ch_action_hash = action_hash H env,
                       ch_agent_ring_public_keys_hex = ring, ch_signer_index = i, ch_signing_public_key_hex = key\<rparr>, st'))))"

record receipt_verification =
  rv_valid :: bool
  rv_signature_valid :: bool
  rv_stored :: bool
  rv_action_hash :: string
  rv_agent_id :: string
  rv_policy_version :: string
  rv_status :: string

text \<open>\<open>None\<close> is the panic of an oversized field or of a failed connection.\<close>

definition receipt_verify ::
  "('y) crypto_scheme \<Rightarrow> any_env \<Rightarrow> string \<Rightarrow> action_receipt \<Rightarrow> database \<Rightarrow> receipt_verification option" where
  "receipt_verify H conn jwt_secret receipt db =
     Option.bind (verify_receipt_signature H jwt_secret receipt) (\<lambda>valid_sig.
     if lock_fault conn \<noteq> None then None
     else
       let db_seen = 0 < scalar_or conn 0 (length (filter (\<lambda>r. row_receipt_id r = rc_receipt_id receipt \<and>
             row_action_hash r = rc_action_hash receipt \<and> row_signature r = rc_signature receipt)
             (agent_action_receipts db))) 0
       in Some \<lparr>rv_valid = (valid_sig \<and> db_seen), rv_signature_valid = valid_sig, rv_stored = db_seen,
                rv_action_hash = rc_action_hash receipt, rv_agent_id = rc_agent_id receipt,
                rv_policy_version = rc_policy_version receipt, rv_status = rc_status receipt\<rparr>)"

section \<open>What the two paths do\<close>

abbreviation purged :: "i64 \<Rightarrow> database \<Rightarrow> database" where
  "purged now db \<equiv> db\<lparr>agent_action_nonces := purge an_expires_at now (agent_action_nonces db)\<rparr>"

abbreviation with_nonce :: "string \<Rightarrow> action_nonce_row \<Rightarrow> database \<Rightarrow> database" where
  "with_nonce nonce row db \<equiv> db\<lparr>agent_action_nonces := (agent_action_nonces db)(nonce \<mapsto> row)\<rparr>"

lemma consume_action_nonce_cases:
  assumes "consume_action_nonce conn k replay now nonce row db = (r, db')"
  obtains "\<not> is_ok r" "db' = db" | "\<not> is_ok r" "db' = purged now db"
  | "r = Ok ()" "agent_action_nonces (purged now db) nonce = None" "db' = with_nonce nonce row (purged now db)"
proof (cases "stmt_fault conn k")
  case (Some e)
  with assms have "r = fail 500 (Msg e)" "db' = db"
    by (simp_all add: consume_action_nonce_def run_stmt_def)
  then show ?thesis
    using that(1) by simp
next
  case None
  note run = assms [unfolded consume_action_nonce_def run_stmt_def None option.case if_False sum.case]
  show ?thesis
  proof (cases "insert_action_nonce conn (k + 1) nonce row (purged now db)")
    case (Inl e)
    with run have "\<not> is_ok r" "db' = purged now db"
      by auto
    then show ?thesis
      by (rule that(2))
  next
    case (Inr db2)
    then have "agent_action_nonces (purged now db) nonce = None" "db2 = with_nonce nonce row (purged now db)"
      unfolding insert_action_nonce_def run_stmt_Ok_iff by simp_all
    moreover from run Inr have "r = Ok ()" "db' = db2"
      by simp_all
    ultimately show ?thesis
      using that(3) by simp
  qed
qed

lemma issue_receipt_cases:
  assumes "issue_receipt H conn jwt hex ki now env opts ring_ok db = (r, db')"
  obtains (refused) "\<not> is_ok r" "db' = db"
  | (issued) receipt where "r = Ok receipt" "ring_ok" "make_receipt H conn jwt hex ki now env opts db = Ok receipt"
      "store_receipt conn 7 merge_identity (row_of_receipt receipt) db = Ok db'"
proof (cases "make_receipt H conn jwt hex ki now env opts db")
  case (Inl e)
  with assms have "r = Err e" "db' = db"
    by (simp_all add: issue_receipt_def)
  then show ?thesis
    by (intro refused) simp_all
next
  case (Inr receipt)
  with assms have "\<not> is_ok r \<and> db' = db \<or>
      r = Ok receipt \<and> ring_ok \<and> store_receipt conn 7 merge_identity (row_of_receipt receipt) db = Ok db'"
    by (auto simp: issue_receipt_def split: sum.splits if_splits)
  then show ?thesis
    using Inr refused issued by blast
qed

lemma validate_agent_action_cases:
  assumes "validate_agent_action H G conn jwt hex now0 now pf opts db = (r, db')"
  obtains (refused) x where "\<not> is_ok r"
      "db' = db \<or> consume_action_nonce conn 2 ''agent_action nonce replay'' now (ev_nonce (pf_envelope pf))
         (identity_nonce H now (pf_envelope pf) opts) db = (x, db')"
  | (accepted) v ring db1 where "r = Ok v" "check_envelope H now0 (pf_envelope pf) opts = Ok ()" "lock_fault conn = None"
      "signer_ring G conn (av_ring_key_image_hex v) now opts db = Ok ring"
      "verify G (canonical_envelope_json H (pf_envelope pf)) ring (pf_ring_signature pf)"
      "consume_action_nonce conn 2 ''agent_action nonce replay'' now (ev_nonce (pf_envelope pf))
         (identity_nonce H now (pf_envelope pf) opts) db = (Ok (), db1)"
      "issue_receipt H conn jwt hex (av_ring_key_image_hex v) now (pf_envelope pf) opts True db1 = (Ok (av_receipt v), db')"
      "av_ring_key_image_hex v = tohex G (compress G (key_image (pf_ring_signature pf)))"
      "av_action_hash v = action_hash H (pf_envelope pf)"
proof -
  let ?env = "pf_envelope pf" and ?ki = "tohex G (compress G (key_image (pf_ring_signature pf)))"
  let ?pre = "and_then (check_envelope H now0 ?env opts) (\<lambda>_.
      and_then (if lock_fault conn = None then Ok () else Err Panicked) (\<lambda>_. signer_ring G conn ?ki now opts db))"
  show ?thesis
  proof (cases ?pre)
    case (Inl e)
    with assms show ?thesis
      by (intro refused) (auto simp: validate_agent_action_def Let_def)
  next
    case (Inr ring)
    then have pre: "check_envelope H now0 ?env opts = Ok ()" "lock_fault conn = None" "signer_ring G conn ?ki now opts db = Ok ring"
      by (simp_all add: and_then_eq_Ok_iff split: if_splits)
    let ?ok = "verify G (canonical_envelope_json H ?env) ring (pf_ring_signature pf)"
    obtain x db1 where c: "(if ?ok then consume_action_nonce conn 2 ''agent_action nonce replay'' now (ev_nonce ?env)
        (identity_nonce H now ?env opts) db else (Ok (), db)) = (x, db1)"
      by fastforce
    obtain y db2 where i: "issue_receipt H conn jwt hex ?ki now ?env opts ?ok db1 = (y, db2)"
      by fastforce
    note run = assms [unfolded validate_agent_action_def Let_def Inr sum.case c prod.case i]
    show ?thesis
    proof (cases "x = Ok () \<and> is_ok y")
      case False
      moreover have "\<not> is_ok y \<Longrightarrow> db2 = db1"
        using i by (elim issue_receipt_cases) simp_all
      ultimately have "\<not> is_ok r" "db' = db1"
        using run by (cases x; cases y; force)+
      then show ?thesis
        using c by (intro refused [of x]) (auto split: if_splits)
    next
      case True
      moreover from True i have ok: ?ok
        by (elim issue_receipt_cases) simp_all
      moreover from True obtain receipt where "y = Ok receipt"
        by (auto simp: is_ok_iff)
      ultimately show ?thesis
        using run c i pre
        by (intro accepted [of "\<lparr>av_action_hash = action_hash H ?env, av_ring_key_image_hex = ?ki, av_receipt = receipt\<rparr>"
              ring db1]) simp_all
    qed
  qed
qed

lemma validate_anon_action_cases:
  assumes "validate_anon_action H G conn jwt hex pf now db = (r, db')"
  obtains (refused) x where "\<not> is_ok r"
      "db' = db \<or> consume_action_nonce conn 3 ''anon action nonce replay'' now
         (tohex G (compress G (key_image (ap_ring_signature pf))) @ ''|'' @ ae_nonce (ap_envelope pf))
         (anon_nonce H now (ap_envelope pf)) db = (x, db')"
  | (accepted) receipt label db1 where "r = Ok receipt" "check_anon now pf = Ok ()" "admit_anon H G conn pf db = Ok label"
      "consume_action_nonce conn 3 ''anon action nonce replay'' now
         (tohex G (compress G (key_image (ap_ring_signature pf))) @ ''|'' @ ae_nonce (ap_envelope pf))
         (anon_nonce H now (ap_envelope pf)) db = (Ok (), db1)"
      "make_anon_receipt H conn jwt hex (tohex G (compress G (key_image (ap_ring_signature pf)))) now (ap_envelope pf) label db1 =
         Ok receipt"
      "store_receipt conn 7 merge_anon (anon_row (ap_envelope pf) receipt) db1 = Ok db'"
proof (cases "and_then (check_anon now pf) (\<lambda>_. admit_anon H G conn pf db)")
  case (Inl e)
  with assms show ?thesis
    by (intro refused) (auto simp: validate_anon_action_def Let_def)
next
  case (Inr label)
  then have pre: "check_anon now pf = Ok ()" "admit_anon H G conn pf db = Ok label"
    by (simp_all add: and_then_eq_Ok_iff)
  let ?ki = "tohex G (compress G (key_image (ap_ring_signature pf)))" and ?env = "ap_envelope pf"
  obtain x db1 where c: "consume_action_nonce conn 3 ''anon action nonce replay'' now (?ki @ ''|'' @ ae_nonce ?env)
      (anon_nonce H now ?env) db = (x, db1)"
    by fastforce
  obtain m where m: "make_anon_receipt H conn jwt hex ?ki now ?env label db1 = m"
    by blast
  note run = assms [unfolded validate_anon_action_def Let_def Inr sum.case c prod.case m]
  show ?thesis
  proof (cases "is_ok r")
    case False
    then have "db' = db1"
      using run by (cases x; cases m) (auto split: sum.splits)
    with False c show ?thesis
      by (intro refused [of x]) simp_all
  next
    case True
    then obtain receipt where "r = Ok receipt" "x = Ok ()" "m = Ok receipt"
        "store_receipt conn 7 merge_anon (anon_row ?env receipt) db1 = Ok db'"
      using run by (cases x; cases m) (auto split: sum.splits)
    then show ?thesis
      using c pre m by (intro accepted) simp_all
  qed
qed

section \<open>Every action is accepted once\<close>

text \<open>
  A presented action: the identity path, with one reading of the clock for the whole call, or the
  anonymous path.  Its key is the nonce it consumes with the expiry of its envelope.
\<close>

datatype ('s, 'p) action_event =
    Identified any_env string string i64 "('s, 'p) agent_action_proof" validate_agent_action_options
  | Anonymous any_env string string i64 "('s, 'p) anon_action_proof"

fun event_now :: "('s, 'p) action_event \<Rightarrow> i64" where
  "event_now (Identified conn jwt hex now pf opts) = now"
| "event_now (Anonymous conn jwt hex now pf) = now"

fun action_key :: "('s, 'p, 'z) curve_scheme \<Rightarrow> ('s, 'p) action_event \<Rightarrow> string \<times> i64" where
  "action_key G (Identified conn jwt hex now pf opts) = (ev_nonce (pf_envelope pf), ev_expires_at (pf_envelope pf))"
| "action_key G (Anonymous conn jwt hex now pf) =
     (tohex G (compress G (key_image (ap_ring_signature pf))) @ ''|'' @ ae_nonce (ap_envelope pf),
      ae_expires_at (ap_envelope pf))"

fun present_action ::
  "('y) crypto_scheme \<Rightarrow> ('s, 'p, 'z) curve_scheme \<Rightarrow> ('s, 'p) action_event \<Rightarrow> database \<times> i64 \<Rightarrow> bool \<times> database \<times> i64" where
  "present_action H G (Identified conn jwt hex now pf opts) (db, clk) =
     (case validate_agent_action H G conn jwt hex now now pf opts db of (r, db') \<Rightarrow> (is_ok r, db', now))"
| "present_action H G (Anonymous conn jwt hex now pf) (db, clk) =
     (case validate_anon_action H G conn jwt hex pf now db of (r, db') \<Rightarrow> (is_ok r, db', now))"

definition action_spent :: "database \<times> i64 \<Rightarrow> string \<times> i64 \<Rightarrow> bool" where
  "action_spent s k \<longleftrightarrow> snd k < snd s \<or>
     (\<exists>row. agent_action_nonces (fst s) (fst k) = Some row \<and> snd k \<le> an_expires_at row)"

definition action_timely :: "database \<times> i64 \<Rightarrow> ('s, 'p) action_event \<Rightarrow> bool" where
  "action_timely s e \<longleftrightarrow> snd s \<le> event_now e"

lemma store_receipt_nonces:
  "store_receipt conn k merge row db = Ok db' \<Longrightarrow> agent_action_nonces db' = agent_action_nonces db"
  by (cases "run_stmt conn k False (db\<lparr>agent_action_receipts := upsert_receipt merge row (agent_action_receipts db)\<rparr>)")
     (auto simp: store_receipt_def)

lemma check_envelope_expiry: "check_envelope H now env opts = Ok () \<Longrightarrow> now \<le> ev_expires_at env"
  by (simp add: check_envelope_def and_then_eq_Ok_iff)

lemma check_anon_expiry: "check_anon now pf = Ok () \<Longrightarrow> now \<le> ae_expires_at (ap_envelope pf)"
  by (simp add: check_anon_def Let_def and_then_eq_Ok_iff)

text \<open>The effect of an event on the nonces.\<close>

lemma present_action_cases:
  assumes "present_action H G e (db, clk) = (ok, db', clk')"
  obtains (refused) row where "\<not> ok" "clk' = event_now e"
      "agent_action_nonces db' \<in> {agent_action_nonces db, agent_action_nonces (purged (event_now e) db)} \<or>
       agent_action_nonces (purged (event_now e) db) (fst (action_key G e)) = None \<and>
       agent_action_nonces db' = (agent_action_nonces (purged (event_now e) db))(fst (action_key G e) \<mapsto> row)"
  | (accepted) row where "ok" "clk' = event_now e" "event_now e \<le> snd (action_key G e)"
      "agent_action_nonces (purged (event_now e) db) (fst (action_key G e)) = None"
      "agent_action_nonces db' = (agent_action_nonces (purged (event_now e) db))(fst (action_key G e) \<mapsto> row)"
      "an_expires_at row = snd (action_key G e)"
proof (cases e)
  case (Identified conn jwt hex now pf opts)
  obtain r where r: "validate_agent_action H G conn jwt hex now now pf opts db = (r, db')" "ok = is_ok r" "clk' = now"
    using assms Identified by (auto split: prod.splits)
  from r(1) show ?thesis
  proof (cases rule: validate_agent_action_cases)
    case (refused x)
    then show ?thesis
      using r(2,3) Identified
      by (intro that(1) [of "identity_nonce H now (pf_envelope pf) opts"]) (auto elim!: consume_action_nonce_cases)
  next
    case (accepted v ring db1)
    from accepted(7) have "agent_action_nonces db' = agent_action_nonces db1"
      by (cases rule: issue_receipt_cases) (auto dest: store_receipt_nonces)
    with accepted(6) show ?thesis
      using r(2,3) Identified accepted(1) check_envelope_expiry [OF accepted(2)]
      by (intro that(2) [of "identity_nonce H now (pf_envelope pf) opts"])
         (auto simp: identity_nonce_def elim!: consume_action_nonce_cases)
  qed
next
  case (Anonymous conn jwt hex now pf)
  obtain r where r: "validate_anon_action H G conn jwt hex pf now db = (r, db')" "ok = is_ok r" "clk' = now"
    using assms Anonymous by (auto split: prod.splits)
  from r(1) show ?thesis
  proof (cases rule: validate_anon_action_cases)
    case (refused x)
    then show ?thesis
      using r(2,3) Anonymous
      by (intro that(1) [of "anon_nonce H now (ap_envelope pf)"]) (auto elim!: consume_action_nonce_cases)
  next
    case (accepted receipt label db1)
    with store_receipt_nonces [OF accepted(6)] show ?thesis
      using r(2,3) Anonymous check_anon_expiry [OF accepted(2)]
      by (intro that(2) [of "anon_nonce H now (ap_envelope pf)"])
         (auto simp: anon_nonce_def elim!: consume_action_nonce_cases)
  qed
qed

lemma purge_live: "m k = Some v \<Longrightarrow> now \<le> e v \<Longrightarrow> purge e now m k = Some v"
  by (simp add: purge_Some_iff)

lemma action_spent_step:
  assumes spent: "action_spent (db, clk) k" and le: "clk \<le> now"
    and nonces: "nonces \<in> {agent_action_nonces db, agent_action_nonces (purged now db)} \<or>
      agent_action_nonces (purged now db) n = None \<and> nonces = (agent_action_nonces (purged now db))(n \<mapsto> row)"
    and db': "agent_action_nonces db' = nonces"
  shows "action_spent (db', now) k"
proof (cases "snd k < now")
  case True
  then show ?thesis
    by (simp add: action_spent_def)
next
  case False
  then obtain r where r: "agent_action_nonces db (fst k) = Some r" "snd k \<le> an_expires_at r"
    using spent le by (auto simp: action_spent_def)
  then have "agent_action_nonces (purged now db) (fst k) = Some r"
    using False by (simp add: purge_live)
  then have "nonces (fst k) = Some r"
    using nonces r(1) by auto
  then show ?thesis
    using r(2) db' by (auto simp: action_spent_def)
qed

interpretation actions: single_use action_spent "present_action H G" "action_key G" action_timely
  for H :: "('y) crypto_scheme" and G :: "('s, 'p, 'z) curve_scheme"
proof (unfold_locales, goal_cases)
  case (1 s e s')
  obtain db clk db' clk' where s: "s = (db, clk)" "s' = (db', clk')"
    by fastforce
  from 1(2) [unfolded s] show ?case
    by (cases rule: present_action_cases) (auto simp: action_spent_def s)
next
  case (2 s e)
  obtain db clk ok db' clk' where s: "s = (db, clk)" and run: "present_action H G e (db, clk) = (ok, db', clk')"
    by (metis surj_pair)
  from run show ?case
  proof (cases rule: present_action_cases)
    case (accepted row)
    then show ?thesis
      using 2 by (auto simp: s action_spent_def action_timely_def purge_live)
  qed (simp add: s run)
next
  case (3 s e k)
  obtain db clk ok db' clk' where s: "s = (db, clk)" and run: "present_action H G e (db, clk) = (ok, db', clk')"
    by (metis surj_pair)
  have pre: "action_spent (db, clk) k" "clk \<le> event_now e"
    using 3 by (simp_all add: s action_timely_def)
  from run show ?case
  proof (cases rule: present_action_cases)
    case (refused row)
    with action_spent_step [OF pre refused(3) refl] show ?thesis
      by (simp add: s run)
  next
    case (accepted row)
    with action_spent_step [OF pre, of "agent_action_nonces db'" "fst (action_key G e)" row db'] show ?thesis
      by (simp add: s run)
  qed
qed

section \<open>The receipts of accepted actions\<close>

lemma signed_has_chain_hash:
  assumes "sign_receipt H k r = Some sig" "0 < rc_seq r"
  shows "receipt_chain_hash H r \<noteq> None"
proof -
  have fields: "\<forall>(n, v) \<in> set (signing_fields r @ [(''seq'', int_to_string (rc_seq r)), (''prev_hash'', rc_prev_hash r)]). fits n \<and> fits v"
    and mandate: "rc_owner_mandate_hash r \<noteq> [] \<Longrightarrow> fits (rc_owner_mandate_hash r)"
    using assms
    by (auto simp: sign_receipt_def receipt_signing_payload_def canonical_fields_Some_iff Let_def split: if_splits)
  have "\<exists>x. canonical_fields ''sauron.agent-action-receipt-chain.v1'' (chain_fields r) = Some x"
    using fields by (intro canonical_fields_total) (auto simp: chain_fields_def signing_fields_def fits_simps)
  moreover have "\<exists>x. canonical_fields ''sauron.agent-action-receipt-chain.v2''
      (chain_fields r @ [(''owner_mandate_hash'', rc_owner_mandate_hash r)]) = Some x" if "rc_owner_mandate_hash r \<noteq> []"
    using fields mandate [OF that]
    by (intro canonical_fields_total) (auto simp: chain_fields_def signing_fields_def fits_simps)
  ultimately show ?thesis
    by (auto simp: receipt_chain_hash_def receipt_chain_payload_def)
qed

lemma receipt_of_row_of_receipt [simp]: "receipt_of_row (row_of_receipt r) = r"
  by (simp add: receipt_of_row_def row_of_receipt_def)

lemma reserve_position_next:
  "reserve_position H conn k t db = Ok pos \<Longrightarrow> next_chain_position H (agent_action_receipts db) t = Ok pos"
  by (auto simp: reserve_position_def Let_def and_then_eq_Ok_iff map_err_eq_Ok_iff split: if_splits)

lemma store_receipt_fresh:
  assumes "store_receipt conn k merge row db = Ok db'"
    and "row_receipt_id row \<notin> row_receipt_id ` set (agent_action_receipts db)"
  shows "db' = db\<lparr>agent_action_receipts := agent_action_receipts db @ [row]\<rparr>"
  using assms unfolding store_receipt_def
  by (auto simp: upsert_receipt_def map_err_eq_Ok_iff run_stmt_Ok_iff image_iff split: if_splits)

definition signed_by :: "('y) crypto_scheme \<Rightarrow> string \<Rightarrow> action_receipt \<Rightarrow> bool" where
  "signed_by H jwt r \<longleftrightarrow> sign_receipt H jwt r = Some (rc_signature r)"

lemma sign_receipt_signature [simp]: "sign_receipt H jwt (r\<lparr>rc_signature := sig\<rparr>) = sign_receipt H jwt r"
  by (simp add: sign_receipt_def)

lemma signed_by_verifies: "signed_by H jwt r \<Longrightarrow> verify_receipt_signature H jwt r = Some True"
  by (simp add: signed_by_def verify_receipt_signature_def)

lemma signed_receipt_Some:
  assumes "map_option (\<lambda>sig. x\<lparr>rc_signature := sig\<rparr>) (sign_receipt H jwt x) = Some r"
  obtains sig where "signed_by H jwt r" "r = x\<lparr>rc_signature := sig\<rparr>"
  using assms by (auto simp: signed_by_def)

lemma identity_receipt_Some:
  assumes "identity_receipt H jwt hex ki now env opts pos mandate = Some r"
  shows "signed_by H jwt r" "rc_receipt_id r = ''ar_'' @ hex" "rc_tenant_id r = op_tenant_id opts"
    "(rc_seq r, rc_prev_hash r) = pos" "rc_action_hash r = action_hash H env" "rc_agent_id r = op_agent_id opts"
    "rc_owner_mandate_hash r = mandate" "rc_ring_key_image_hex r = ki"
  by (rule signed_receipt_Some [OF assms [unfolded identity_receipt_def Let_def]], simp)+

lemma anon_receipt_Some:
  assumes "anon_receipt H jwt hex ki now env label pos = Some r"
  shows "signed_by H jwt r" "rc_receipt_id r = ''ar_'' @ hex" "rc_tenant_id r = ae_tenant_id env"
    "(rc_seq r, rc_prev_hash r) = pos" "rc_action_hash r = anon_action_hash H env" "rc_agent_id r = []"
    "rc_ajwt_jti r = []" "rc_pop_jkt r = []" "rc_owner_mandate_hash r = []" "rc_policy_version r = label"
  by (rule signed_receipt_Some [OF assms [unfolded anon_receipt_def Let_def]], simp)+

lemma receipt_of_anon_row: "rc_owner_mandate_hash r = [] \<Longrightarrow> receipt_of_row (anon_row env r) = r"
  by (simp add: receipt_of_row_def anon_row_def row_of_receipt_def)

text \<open>A signed receipt at the reserved position extends the chain of its tenant.\<close>

lemma appended_receipt_verifies:
  assumes ok: "table_ok rs" "int (length rs) + 1 < i64_MAX" and chain: "verify_receipt_chain H rs t = Ok n"
    and pos: "next_chain_position H rs t = Ok (rc_seq r, rc_prev_hash r)"
    and r: "signed_by H jwt r" "rc_tenant_id r = t" "rc_receipt_id r \<notin> row_receipt_id ` set rs"
    and row: "receipt_of_row row = r" "row_seq row = Some (rc_seq r)" "row_prev_hash row = Some (rc_prev_hash r)"
  shows "verify_receipt_chain H (rs @ [row]) t = Ok (n + 1)"
proof -
  have "chained rc_seq rc_prev_hash (receipt_chain_hash H) 1 [] (receipt_chain rs t)"
    using chain by (simp add: verify_receipt_chain_Ok_iff [OF ok(1)])
  with next_chain_position_eq [OF ok(1)] pos have seq: "0 < rc_seq r"
    by fastforce
  have ids: "row_tenant_id row = t" "row_receipt_id row = rc_receipt_id r"
    using row(1) r(2) by (metis receipt_of_row_simps(1), metis receipt_of_row_simps(2))
  have "table_ok (rs @ [row])"
    using ok r(3) ids seq row(2) by (auto simp: table_ok_def)
  moreover have "next_row H rs row"
    using pos row ids r signed_has_chain_hash [of H jwt r] seq
    by (auto simp: next_row_def signed_by_def)
  ultimately show ?thesis
    using append_verifies chain ids(1) by blast
qed

end
