(* ===== verification/Action_Guarantees.thy ===== *)
theory Action_Guarantees
  imports Agent_Action
begin

text \<open>
  What an accepted action guarantees: the properties of \<open>validate_agent_action\<close> and
  \<open>validate_anon_action\<close> over the operations of \<open>Agent_Action\<close>, the receipt chain of
  \<open>Receipts\<close> and the ring signatures of \<open>Ring\<close>.
\<close>

section \<open>Acceptance\<close>

lemma row_of_receipt_simps [simp]:
  "row_receipt_id (row_of_receipt r) = rc_receipt_id r" "row_tenant_id (row_of_receipt r) = rc_tenant_id r"
  "row_seq (row_of_receipt r) = Some (rc_seq r)" "row_prev_hash (row_of_receipt r) = Some (rc_prev_hash r)"
  by (simp_all add: row_of_receipt_def)

lemma anon_row_simps [simp]:
  "row_receipt_id (anon_row env r) = rc_receipt_id r" "row_tenant_id (anon_row env r) = rc_tenant_id r"
  "row_seq (anon_row env r) = Some (rc_seq r)" "row_prev_hash (anon_row env r) = Some (rc_prev_hash r)"
  by (simp_all add: anon_row_def)

lemma signer_ring_Ok:
  assumes "signer_ring G conn ki now opts db = Ok ring"
  obtains a keys p where "find_agent (op_tenant_id opts) (op_agent_id opts) db = Some a"
    "ag_human_key_image a = op_human_key_image opts" "ag_revoked a = 0" "now \<le> ag_expires_at a"
    "ag_ring_key_image_hex a = ki" "active_tenant_ring G conn 1 (op_tenant_id opts) now db = Ok keys" "ring = map snd keys"
    "decode_key G (ag_public_key_hex a) = Some p" "p \<in> set ring"
  using assms unfolding signer_ring_def
  apply (elim and_then_OkE)
  subgoal for a u1 u2 u3 u4 u5 pk u6 p keys
    by (rule that [of a keys p]) (force simp: require_row_def scalar_or_def decode_key_def split: if_splits)+
  done

lemma find_agent_Some:
  "find_agent t i db = Some a \<Longrightarrow> a \<in> set (agents db) \<and> ag_agent_id a = i \<and> ag_tenant_id a = t"
  by (auto simp: find_agent_def find_Some_iff)

lemma check_envelope_Ok:
  assumes "check_envelope H now env opts = Ok ()"
  shows "ev_agent_id env = op_agent_id opts" "ev_human_key_image env = op_human_key_image opts"
    "ev_action env = op_expected_action opts" "ev_ajwt_jti env = op_ajwt_jti opts"
    "action_allowed_by_intent (op_intent opts) (ev_action env)"
    "op_expected_amount_minor opts \<in> {None, Some (ev_amount_minor env)}"
  using assms by (simp_all add: check_envelope_def and_then_eq_Ok_iff require_eq_str_def)

lemma validate_agent_action_Ok:
  assumes "validate_agent_action H G conn jwt hex now0 now pf opts db = (Ok v, db')"
  obtains ring db1 mandate pos where
    "check_envelope H now0 (pf_envelope pf) opts = Ok ()"
    "signer_ring G conn (tohex G (compress G (key_image (pf_ring_signature pf)))) now opts db = Ok ring"
    "verify G (canonical_envelope_json H (pf_envelope pf)) ring (pf_ring_signature pf)"
    "agent_action_nonces (purged now db) (ev_nonce (pf_envelope pf)) = None"
    "db1 = with_nonce (ev_nonce (pf_envelope pf)) (identity_nonce H now (pf_envelope pf) opts) (purged now db)"
    "next_chain_position H (agent_action_receipts db) (op_tenant_id opts) = Ok pos"
    "identity_receipt H jwt hex (tohex G (compress G (key_image (pf_ring_signature pf)))) now (pf_envelope pf) opts pos mandate =
       Some (av_receipt v)"
    "store_receipt conn 7 merge_identity (row_of_receipt (av_receipt v)) db1 = Ok db'"
  using assms
proof (cases rule: validate_agent_action_cases)
  case (accepted v' ring db1)
  have v: "v' = v"
    using accepted(1) by simp
  from accepted(6) have nonce: "agent_action_nonces (purged now db) (ev_nonce (pf_envelope pf)) = None"
      "db1 = with_nonce (ev_nonce (pf_envelope pf)) (identity_nonce H now (pf_envelope pf) opts) (purged now db)"
    by (cases rule: consume_action_nonce_cases, simp_all)+
  from accepted(7) [unfolded v] obtain "make_receipt H conn jwt hex (av_ring_key_image_hex v) now (pf_envelope pf) opts db1 = Ok (av_receipt v)"
      "store_receipt conn 7 merge_identity (row_of_receipt (av_receipt v)) db1 = Ok db'"
    by (cases rule: issue_receipt_cases) auto
  then obtain pos mandate where "reserve_position H conn 4 (op_tenant_id opts) db1 = Ok pos"
      "identity_receipt H jwt hex (av_ring_key_image_hex v) now (pf_envelope pf) opts pos mandate = Some (av_receipt v)"
    by (auto simp: make_receipt_def and_then_eq_Ok_iff)
  with \<open>store_receipt conn 7 merge_identity (row_of_receipt (av_receipt v)) db1 = Ok db'\<close> show ?thesis
    using accepted(2,4,5,8) nonce reserve_position_next [of H conn 4 "op_tenant_id opts" db1 pos]
    unfolding v by (intro that [of ring db1 pos mandate]) simp_all
qed simp

text \<open>Conversely, what suffices for a presented action to be accepted when no statement fails.\<close>

lemma consume_action_nonce_accepts:
  assumes "stmt_fault conn = (\<lambda>_. None)" "agent_action_nonces (purged now db) nonce = None"
  shows "consume_action_nonce conn k replay now nonce row db = (Ok (), with_nonce nonce row (purged now db))"
proof -
  have "insert_action_nonce conn (k + 1) nonce row (purged now db) = Ok (with_nonce nonce row (purged now db))"
    using assms unfolding insert_action_nonce_def run_stmt_Ok_iff by simp
  then show ?thesis
    using assms(1) unfolding consume_action_nonce_def by (simp add: run_stmt_def)
qed

lemma reserve_position_accepts:
  assumes "stmt_fault conn = (\<lambda>_. None)" "next_chain_position H (agent_action_receipts db) t = Ok pos"
  shows "reserve_position H conn k t db = Ok pos"
  using assms by (simp add: reserve_position_def Let_def run_stmt_def)

lemma validate_agent_action_accepts:
  fixes conn jwt hex now pf opts H G
  defines "env \<equiv> pf_envelope pf" and "ki \<equiv> tohex G (compress G (key_image (pf_ring_signature pf)))"
  assumes conn: "lock_fault conn = None" "stmt_fault conn = (\<lambda>_. None)"
    and checks: "check_envelope H now0 env opts = Ok ()" "signer_ring G conn ki now opts db = Ok ring"
      "verify G (canonical_envelope_json H env) ring (pf_ring_signature pf)"
    and nonce: "agent_action_nonces (purged now db) (ev_nonce env) = None"
    and receipt: "next_chain_position H (agent_action_receipts db) (op_tenant_id opts) = Ok pos"
      "identity_receipt H jwt hex ki now env opts pos
         (case find_agent (op_tenant_id opts) (op_agent_id opts) db of Some a \<Rightarrow> ag_owner_mandate_hash a | None \<Rightarrow> []) = Some r"
  shows "validate_agent_action H G conn jwt hex now0 now pf opts db =
    (Ok \<lparr>av_action_hash = action_hash H env, av_ring_key_image_hex = ki, av_receipt = r\<rparr>,
     (with_nonce (ev_nonce env) (identity_nonce H now env opts) (purged now db))
       \<lparr>agent_action_receipts := upsert_receipt merge_identity (row_of_receipt r) (agent_action_receipts db)\<rparr>)"
proof -
  let ?db1 = "with_nonce (ev_nonce env) (identity_nonce H now env opts) (purged now db)"
  have pre: "and_then (check_envelope H now0 env opts) (\<lambda>_.
      and_then (if lock_fault conn = None then Ok () else Err Panicked) (\<lambda>_. signer_ring G conn ki now opts db)) = Ok ring"
    by (simp add: checks(1,2) conn(1))
  have "make_receipt H conn jwt hex ki now env opts ?db1 = Ok r"
    using reserve_position_accepts [OF conn(2), of H ?db1 "op_tenant_id opts" pos 4] receipt conn(2)
    by (simp add: make_receipt_def scalar_or_def find_agent_def)
  moreover have "store_receipt conn 7 merge_identity (row_of_receipt r) ?db1 =
      Ok (?db1\<lparr>agent_action_receipts := upsert_receipt merge_identity (row_of_receipt r) (agent_action_receipts db)\<rparr>)"
    by (simp add: store_receipt_def run_stmt_def conn(2))
  ultimately have "issue_receipt H conn jwt hex ki now env opts True ?db1 =
      (Ok r, ?db1\<lparr>agent_action_receipts := upsert_receipt merge_identity (row_of_receipt r) (agent_action_receipts db)\<rparr>)"
    by (simp only: issue_receipt_def sum.case not_True_eq_False if_False)
  then show ?thesis
    unfolding validate_agent_action_def Let_def env_def [symmetric] ki_def [symmetric] pre sum.case
      if_P [OF checks(3)] consume_action_nonce_accepts [OF conn(2) nonce] prod.case
    by (simp only: checks(3) sum.case prod.case)
qed

subsection \<open>An example\<close>

text \<open>A group with one element satisfies the laws; every ring signature of the right length verifies in it.\<close>

definition demo_key :: string where
  "demo_key = replicate 32 (CHR ''k'')"

definition demo_curve :: "(unit, unit) curve" where
  "demo_curve = \<lparr> s_zero = (), s_one = (), s_add = (\<lambda>_ _. ()), s_sub = (\<lambda>_ _. ()), s_mul = (\<lambda>_ _. ()), s_invert = (\<lambda>_. ()),
     p_add = (\<lambda>_ _. ()), smul = (\<lambda>_ _. ()), BASEPOINT = (), compress = (\<lambda>_. demo_key), sha512 = (\<lambda>s. s),
     hash_from_bytes = (\<lambda>_. ()), scalar_from_hash = (\<lambda>_. ()), decompress = (\<lambda>_. Some ()),
     from_canonical_bytes = (\<lambda>_. Some ()), unhex = Ok, tohex = (\<lambda>s. s), rule_to_json = (\<lambda>_. Ok []),
     rule_from_json = (\<lambda>_. Ok \<lparr>allowed_actions = [''pay''], allowed_config_digests = [],
        budgets = \<lparr>bu_usd = None, bu_input_tokens = None, bu_output_tokens = None\<rparr>\<rparr>) \<rparr>"

definition demo_signer :: agent_row where
  "demo_signer = \<lparr>ag_agent_id = ''agt_1'', ag_tenant_id = ''acme'', ag_human_key_image = ''h'', ag_agent_checksum = [],
     ag_intent_json = [], ag_assurance_level = [], ag_public_key_hex = demo_key, ag_ring_key_image_hex = demo_key,
     ag_issued_at = 0, ag_expires_at = 100, ag_revoked = 0, ag_parent_agent_id = None, ag_delegation_depth = 0,
     ag_pop_jkt = [], ag_pop_public_key_b64u = [], ag_owner_mandate_hash = [],
     ag_owner_mandate_sig_b64u = [], ag_attestation_blob = None, ag_attestation_kind = [],
     ag_attestation_pubkey_b64u = None, ag_attestation_pcr_set = None\<rparr>"

definition demo_action_db :: database where
  "demo_action_db = empty_database\<lparr>agents := [demo_signer]\<rparr>"

definition demo_envelope :: agent_action_envelope where
  "demo_envelope = \<lparr>ev_agent_id = ''agt_1'', ev_human_key_image = ''h'', ev_action = ''pay'', ev_resource = [],
     ev_merchant_id = [], ev_amount_minor = 5, ev_currency = ''EUR'', ev_nonce = ''nonce-0123456789'', ev_expires_at = 8,
     ev_policy_hash = expected_policy_hash demo_crypto ''pay'', ev_ajwt_jti = ''j''\<rparr>"

definition demo_proof :: "(unit, unit) agent_action_proof" where
  "demo_proof = \<lparr>pf_envelope = demo_envelope, pf_ring_signature = \<lparr>c0 = (), responses = [()], key_image = ()\<rparr>\<rparr>"

definition demo_opts :: validate_agent_action_options where
  "demo_opts = \<lparr>op_tenant_id = ''acme'', op_agent_id = ''agt_1'', op_human_key_image = ''h'', op_ajwt_jti = ''j'',
     op_intent = Some (JObj [(''action'', JStr ''pay'')]), op_expected_action = ''pay'', op_expected_resource = None,
     op_expected_merchant_id = None, op_expected_amount_minor = Some 5, op_expected_currency = None, op_pop_jkt = None,
     op_status = ''verified''\<rparr>"

lemma demo_trims: "trim ''pay'' = ''pay''" "trim ''nonce-0123456789'' = ''nonce-0123456789''"
  by (simp_all add: trim_graphic is_graphic_def byte_def)

lemma demo_action_check:
  assumes "now \<le> 8"
  shows "check_envelope demo_crypto now demo_envelope demo_opts = Ok ()"
  using assms demo_trims
  by (simp add: check_envelope_def demo_envelope_def demo_opts_def require_eq_str_def require_opt_def
      action_allowed_by_intent_def Let_def scope_strings_def to_ascii_lowercase_def)

lemma demo_ring:
  assumes "now < 100" "agents db = [demo_signer]"
  shows "signer_ring demo_curve healthy demo_key now demo_opts db = Ok [()]"
  using assms
  by (simp add: signer_ring_def require_row_def scalar_or_def find_agent_def demo_opts_def demo_signer_def healthy_def
      active_tenant_ring_def run_stmt_def decode_key_def demo_curve_def demo_key_def List.map_filter_def)

lemma demo_verify: "verify demo_curve m [()] (pf_ring_signature demo_proof)"
  by (simp add: verify_def demo_proof_def)

lemma demo_action_hash_length: "length (action_hash demo_crypto demo_envelope) < 1000"
  by (simp add: action_hash_def demo_crypto_def canonical_envelope_json_def demo_envelope_def quoted_def
      int_to_string_digit expected_policy_hash_def KYA_POLICY_MATRIX_VERSION_def demo_trims)

lemma demo_ids: "op_tenant_id demo_opts = ''acme''" "op_agent_id demo_opts = ''agt_1''"
  by (simp_all add: demo_opts_def)

lemma demo_receipt:
  assumes "length hex < 100" "0 \<le> now" "now < 10" "0 < seq" "seq < 10" "length prev < 10000"
  shows "\<exists>r. identity_receipt demo_crypto jwt hex demo_key now demo_envelope demo_opts (seq, prev) [] = Some r \<and>
    length (the (receipt_chain_hash demo_crypto r)) < 9000 + length prev"
proof -
  define x where "x = \<lparr>rc_tenant_id = op_tenant_id demo_opts, rc_receipt_id = ''ar_'' @ hex,
      rc_action_hash = action_hash demo_crypto demo_envelope, rc_agent_id = op_agent_id demo_opts,
      rc_ring_key_image_hex = demo_key, rc_policy_version = KYA_POLICY_MATRIX_VERSION, rc_ajwt_jti = op_ajwt_jti demo_opts,
      rc_pop_jkt = [], rc_timestamp = now, rc_status = op_status demo_opts, rc_signature = [], rc_seq = seq,
      rc_prev_hash = prev, rc_owner_mandate_hash = []\<rparr>"
  note simps = x_def demo_opts_def demo_key_def KYA_POLICY_MATRIX_VERSION_def int_to_string_digit fits_simps
  obtain p where "canonical_fields ''sauron.agent-action-receipt.v3''
      (signing_fields x @ [(''seq'', int_to_string (rc_seq x)), (''prev_hash'', rc_prev_hash x)]) = Some p"
    using canonical_fields_total [of "''sauron.agent-action-receipt.v3''"
        "signing_fields x @ [(''seq'', int_to_string (rc_seq x)), (''prev_hash'', rc_prev_hash x)]"]
      demo_action_hash_length assms
    by (auto simp: signing_fields_def simps)
  then obtain sig where sig: "sign_receipt demo_crypto jwt x = Some sig"
    using assms by (auto simp: sign_receipt_def receipt_signing_payload_def Let_def simps)
  then have "receipt_chain_hash demo_crypto x \<noteq> None"
    using assms by (intro signed_has_chain_hash) (simp_all add: x_def)
  then obtain h where h: "receipt_chain_hash demo_crypto x = Some h"
    by blast
  then have "length h < 9000 + length prev"
    using assms demo_action_hash_length
    by (auto simp: receipt_chain_hash_def receipt_chain_payload_def demo_crypto_def canonical_fields_Some_iff
        chain_fields_def encoded_def bind_eq_Some_conv simps)
  moreover have "identity_receipt demo_crypto jwt hex demo_key now demo_envelope demo_opts (seq, prev) [] = Some (x\<lparr>rc_signature := sig\<rparr>)"
    using sig by (simp add: identity_receipt_def Let_def x_def demo_opts_def)
  ultimately show ?thesis
    using h by simp
qed

lemma demo_step:
  assumes db: "agents db = [demo_signer]" "agent_action_nonces (purged now db) ''nonce-0123456789'' = None"
      "next_chain_position demo_crypto (agent_action_receipts db) ''acme'' = Ok (seq, prev)"
    and bounds: "now0 \<le> 8" "0 \<le> now" "now < 10" "0 < seq" "seq < 10" "length prev < 10000" "length hex < 100"
  obtains r where "identity_receipt demo_crypto jwt hex demo_key now demo_envelope demo_opts (seq, prev) [] = Some r"
    "length (the (receipt_chain_hash demo_crypto r)) < 9000 + length prev"
    "validate_agent_action demo_crypto demo_curve healthy jwt hex now0 now demo_proof demo_opts db =
       (Ok \<lparr>av_action_hash = action_hash demo_crypto demo_envelope, av_ring_key_image_hex = demo_key, av_receipt = r\<rparr>,
        (with_nonce ''nonce-0123456789'' (identity_nonce demo_crypto now demo_envelope demo_opts) (purged now db))
          \<lparr>agent_action_receipts := upsert_receipt merge_identity (row_of_receipt r) (agent_action_receipts db)\<rparr>)"
proof -
  obtain r where r: "identity_receipt demo_crypto jwt hex demo_key now demo_envelope demo_opts (seq, prev) [] = Some r"
      "length (the (receipt_chain_hash demo_crypto r)) < 9000 + length prev"
    using demo_receipt bounds by blast
  have ki: "tohex demo_curve (compress demo_curve (key_image (pf_ring_signature demo_proof))) = demo_key"
    and env: "pf_envelope demo_proof = demo_envelope" "ev_nonce demo_envelope = ''nonce-0123456789''"
    and t: "op_tenant_id demo_opts = ''acme''"
    by (simp_all add: demo_curve_def demo_proof_def demo_envelope_def demo_opts_def)
  have mandate: "(case find_agent ''acme'' (op_agent_id demo_opts) db of Some a \<Rightarrow> ag_owner_mandate_hash a | None \<Rightarrow> []) = []"
    using db(1) by (simp add: find_agent_def demo_opts_def demo_signer_def)
  have "signer_ring demo_curve healthy demo_key now demo_opts db = Ok [()]"
    using bounds db(1) by (intro demo_ring) simp_all
  then have "validate_agent_action demo_crypto demo_curve healthy jwt hex now0 now demo_proof demo_opts db =
       (Ok \<lparr>av_action_hash = action_hash demo_crypto demo_envelope, av_ring_key_image_hex = demo_key, av_receipt = r\<rparr>,
        (with_nonce ''nonce-0123456789'' (identity_nonce demo_crypto now demo_envelope demo_opts) (purged now db))
          \<lparr>agent_action_receipts := upsert_receipt merge_identity (row_of_receipt r) (agent_action_receipts db)\<rparr>)"
    by (intro validate_agent_action_accepts [where pf = demo_proof and G = demo_curve and opts = demo_opts and
          ring = "[()]" and pos = "(seq, prev)", unfolded ki env t mandate])
       (simp_all only: demo_verify db r(1) mandate demo_action_check [OF bounds(1)], simp_all add: healthy_def)
  with r show ?thesis
    by (rule that)
qed

lemma demo_action_db_simps:
  "agents demo_action_db = [demo_signer]" "agent_action_receipts demo_action_db = []"
  "agent_action_nonces demo_action_db = Map.empty"
  by (simp_all add: demo_action_db_def empty_database_def)

lemma demo_first:
  obtains r where "identity_receipt demo_crypto ''s'' ''1'' demo_key 7 demo_envelope demo_opts (1, []) [] = Some r"
    "length (the (receipt_chain_hash demo_crypto r)) < 9000"
    "validate_agent_action demo_crypto demo_curve healthy ''s'' ''1'' 7 7 demo_proof demo_opts demo_action_db =
       (Ok \<lparr>av_action_hash = action_hash demo_crypto demo_envelope, av_ring_key_image_hex = demo_key, av_receipt = r\<rparr>,
        demo_action_db\<lparr>agent_action_nonces := [''nonce-0123456789'' \<mapsto> identity_nonce demo_crypto 7 demo_envelope demo_opts],
          agent_action_receipts := [row_of_receipt r]\<rparr>)"
proof -
  have pos: "next_chain_position demo_crypto (agent_action_receipts demo_action_db) ''acme'' = Ok (1, [])"
    by (simp add: demo_action_db_simps next_chain_position_def)
  have purge: "purge an_expires_at 7 (agent_action_nonces demo_action_db) = Map.empty"
    by (simp add: purge_def demo_action_db_simps)
  then have nonce: "agent_action_nonces (purged 7 demo_action_db) ''nonce-0123456789'' = None"
    by simp
  obtain r where r: "identity_receipt demo_crypto ''s'' ''1'' demo_key 7 demo_envelope demo_opts (1, []) [] = Some r"
      "length (the (receipt_chain_hash demo_crypto r)) < 9000 + length ([] :: string)"
      "validate_agent_action demo_crypto demo_curve healthy ''s'' ''1'' 7 7 demo_proof demo_opts demo_action_db =
       (Ok \<lparr>av_action_hash = action_hash demo_crypto demo_envelope, av_ring_key_image_hex = demo_key, av_receipt = r\<rparr>,
        (with_nonce ''nonce-0123456789'' (identity_nonce demo_crypto 7 demo_envelope demo_opts) (purged 7 demo_action_db))
          \<lparr>agent_action_receipts := upsert_receipt merge_identity (row_of_receipt r) (agent_action_receipts demo_action_db)\<rparr>)"
    by (rule demo_step [OF demo_action_db_simps(1) nonce pos, of 7 "''1''" "''s''"]) (rule that, assumption+ | simp)+
  have "length (the (receipt_chain_hash demo_crypto r)) < 9000"
    using r(2) by simp
  moreover have "upsert_receipt merge_identity (row_of_receipt r) (agent_action_receipts demo_action_db) = [row_of_receipt r]"
    by (simp add: upsert_receipt_def demo_action_db_simps)
  moreover have "(with_nonce ''nonce-0123456789'' n (purged 7 demo_action_db))\<lparr>agent_action_receipts := rs\<rparr> =
      demo_action_db\<lparr>agent_action_nonces := [''nonce-0123456789'' \<mapsto> n], agent_action_receipts := rs\<rparr>" for n rs
    by (simp add: purge)
  ultimately show ?thesis
    using r(3) by (intro that [OF r(1)]) (simp_all only:)
qed

section \<open>Accepted actions are authorised, recorded and chained\<close>

text \<open>
  C22. An accepted action is authorised and recorded.  The agent is registered with the tenant
  for the presented human, is not revoked and has not expired; the signature's key image is the
  registered one, the agent's key is in the ring of live agents of the tenant and the ring signature over
  the canonical envelope verifies for that ring; the intent of the token allows the action and the
  envelope had not expired; the nonce was not in use and is now recorded.  Exactly one
  receipt is added.  It carries the hash of the envelope, verifies under the server's key, and takes a
  verified receipt chain of the tenant to a verified chain that is one longer.\<close>

theorem accepted_action_is_authorised:
  assumes acc: "validate_agent_action H G conn jwt hex now0 now pf opts db = (Ok v, db')"
    and fresh: "''ar_'' @ hex \<notin> row_receipt_id ` set (agent_action_receipts db)"
    and table: "table_ok (agent_action_receipts db)" "int (length (agent_action_receipts db)) + 1 < i64_MAX"
    and chain: "verify_receipt_chain H (agent_action_receipts db) (op_tenant_id opts) = Ok n"
  shows "(\<exists>a keys p. a \<in> set (agents db) \<and> ag_agent_id a = op_agent_id opts \<and> ag_tenant_id a = op_tenant_id opts \<and>
        ag_human_key_image a = op_human_key_image opts \<and> ag_revoked a = 0 \<and> now \<le> ag_expires_at a \<and>
        ag_ring_key_image_hex a = tohex G (compress G (key_image (pf_ring_signature pf))) \<and>
        active_tenant_ring G conn 1 (op_tenant_id opts) now db = Ok keys \<and>
        decode_key G (ag_public_key_hex a) = Some p \<and> p \<in> snd ` set keys \<and>
        verify G (canonical_envelope_json H (pf_envelope pf)) (map snd keys) (pf_ring_signature pf)) \<and>
    ev_agent_id (pf_envelope pf) = op_agent_id opts \<and>
    action_allowed_by_intent (op_intent opts) (ev_action (pf_envelope pf)) \<and> now0 \<le> ev_expires_at (pf_envelope pf) \<and>
    agent_action_nonces (purged now db) (ev_nonce (pf_envelope pf)) = None \<and>
    agent_action_nonces db' = (agent_action_nonces (purged now db))
      (ev_nonce (pf_envelope pf) \<mapsto> identity_nonce H now (pf_envelope pf) opts) \<and>
    agent_action_receipts db' = agent_action_receipts db @ [row_of_receipt (av_receipt v)] \<and>
    rc_action_hash (av_receipt v) = action_hash H (pf_envelope pf) \<and>
    verify_receipt_signature H jwt (av_receipt v) = Some True \<and>
    verify_receipt_chain H (agent_action_receipts db') (op_tenant_id opts) = Ok (n + 1)"
proof -
  let ?env = "pf_envelope pf" and ?ki = "tohex G (compress G (key_image (pf_ring_signature pf)))"
  from acc obtain ring db1 mandate pos where s: "check_envelope H now0 ?env opts = Ok ()"
      "signer_ring G conn ?ki now opts db = Ok ring" "verify G (canonical_envelope_json H ?env) ring (pf_ring_signature pf)"
    and nonce: "agent_action_nonces (purged now db) (ev_nonce ?env) = None"
    and db1: "db1 = with_nonce (ev_nonce ?env) (identity_nonce H now ?env opts) (purged now db)"
    and pos: "next_chain_position H (agent_action_receipts db) (op_tenant_id opts) = Ok pos"
    and made: "identity_receipt H jwt hex ?ki now ?env opts pos mandate = Some (av_receipt v)"
    and stored: "store_receipt conn 7 merge_identity (row_of_receipt (av_receipt v)) db1 = Ok db'"
    by (rule validate_agent_action_Ok)
  note r = identity_receipt_Some [OF made]
  have "row_receipt_id (row_of_receipt (av_receipt v)) \<notin> row_receipt_id ` set (agent_action_receipts db1)"
    using fresh r(2) by (simp add: db1)
  from store_receipt_fresh [OF stored this] have db': "agent_action_nonces db' = (agent_action_nonces (purged now db))
        (ev_nonce ?env \<mapsto> identity_nonce H now ?env opts)"
      "agent_action_receipts db' = agent_action_receipts db @ [row_of_receipt (av_receipt v)]"
    by (simp_all add: db1)
  have "verify_receipt_chain H (agent_action_receipts db @ [row_of_receipt (av_receipt v)]) (op_tenant_id opts) = Ok (n + 1)"
    using pos r fresh
    by (intro appended_receipt_verifies [OF table chain, where r = "av_receipt v"]) simp_all
  moreover from s(2) obtain a keys p where a: "find_agent (op_tenant_id opts) (op_agent_id opts) db = Some a"
      "ag_human_key_image a = op_human_key_image opts" "ag_revoked a = 0" "now \<le> ag_expires_at a"
      "ag_ring_key_image_hex a = ?ki" "active_tenant_ring G conn 1 (op_tenant_id opts) now db = Ok keys" "ring = map snd keys"
      "decode_key G (ag_public_key_hex a) = Some p" "p \<in> set ring"
    by (rule signer_ring_Ok)
  ultimately show ?thesis
    using s(3) find_agent_Some [OF a(1)]
    by (intro conjI exI [of _ a] exI [of _ keys] exI [of _ p])
       (simp_all only: db' nonce r(5) check_envelope_Ok(1,5) [OF s(1)] check_envelope_expiry [OF s(1)]
          signed_by_verifies [OF r(1)] set_map)
qed

theorem accepted_action_is_authorised_witness:
  "\<exists>v db'. validate_agent_action demo_crypto demo_curve healthy ''s'' ''1'' 7 7 demo_proof demo_opts demo_action_db = (Ok v, db') \<and>
    verify_receipt_signature demo_crypto ''s'' (av_receipt v) = Some True \<and>
    verify_receipt_chain demo_crypto (agent_action_receipts db') ''acme'' = Ok 1"
proof -
  obtain v db' where run: "validate_agent_action demo_crypto demo_curve healthy ''s'' ''1'' 7 7 demo_proof demo_opts demo_action_db = (Ok v, db')"
    by (rule demo_first)
  have "op_tenant_id demo_opts = ''acme''"
    by (simp add: demo_opts_def)
  with accepted_action_is_authorised [OF run, of 0] run show ?thesis
    by (auto simp: demo_action_db_simps table_ok_def i64_MAX_def verify_receipt_chain_def)
qed

text \<open>
  C23. An action is accepted at most once.  In any sequence of presented actions of the
  identity and the anonymous path, whatever the connections and the clients do and as long as the clock
  does not run backwards and does not change within one call, no two accepted actions carry the same nonce (for anonymous actions the key
  image with the nonce) and expiry, so no signed envelope is accepted twice.\<close>

theorem action_accepted_once:
  assumes "timely_run action_timely (present_action H G) es (db, clk)"
  shows "distinct (map (action_key G) (accepted (present_action H G) es (db, clk)))"
  using assms by (rule actions.accepted_once)

definition demo_event :: "(unit, unit) action_event" where
  "demo_event = Identified healthy ''s'' ''1'' 7 demo_proof demo_opts"

theorem action_accepted_once_witness:
  "accepted (present_action demo_crypto demo_curve) [demo_event, demo_event] (demo_action_db, 0) = [demo_event]"
proof -
  obtain v db' where run: "validate_agent_action demo_crypto demo_curve healthy ''s'' ''1'' 7 7 demo_proof demo_opts demo_action_db = (Ok v, db')"
    by (rule demo_first)
  have "timely_run action_timely (present_action demo_crypto demo_curve) [demo_event, demo_event] (demo_action_db, 0)"
    by (simp add: demo_event_def action_timely_def run split: prod.splits)
  from action_accepted_once [OF this] show ?thesis
    by (auto simp: demo_event_def run split: prod.splits if_splits)
qed

section \<open>Two readings of the clock\<close>

text \<open>No agent of the tenant expires between two times, and the agents are the same.\<close>

definition same_ring_until :: "string \<Rightarrow> i64 \<Rightarrow> i64 \<Rightarrow> database \<Rightarrow> bool" where
  "same_ring_until t now later db \<longleftrightarrow>
     (\<forall>a \<in> set (agents db). ag_tenant_id a = t \<longrightarrow> later < ag_expires_at a \<or> ag_expires_at a < now)"

lemma signer_ring_later:
  assumes ring: "signer_ring G conn ki now opts db = Ok ring"
    and same: "same_ring_until (op_tenant_id opts) now later db" "now \<le> later" "agents db' = agents db"
  shows "signer_ring G conn ki later opts db' = Ok ring"
proof -
  have live: "(later < ag_expires_at a) = (now < ag_expires_at a)" "ag_expires_at a < later \<longleftrightarrow> ag_expires_at a < now"
    if "a \<in> set (agents db)" "ag_tenant_id a = op_tenant_id opts" for a
    using same that by (auto simp: same_ring_until_def)
  have "filter (\<lambda>a. ag_tenant_id a = op_tenant_id opts \<and> ag_revoked a = 0 \<and> ag_expires_at a > later \<and> ag_public_key_hex a \<noteq> []) (agents db) =
      filter (\<lambda>a. ag_tenant_id a = op_tenant_id opts \<and> ag_revoked a = 0 \<and> ag_expires_at a > now \<and> ag_public_key_hex a \<noteq> []) (agents db)"
    using live(1) by (intro filter_cong) auto
  then have "active_tenant_ring G conn 1 (op_tenant_id opts) later db' = active_tenant_ring G conn 1 (op_tenant_id opts) now db"
    by (simp only: active_tenant_ring_def same(3))
  moreover have find: "find_agent (op_tenant_id opts) (op_agent_id opts) db' = find_agent (op_tenant_id opts) (op_agent_id opts) db"
    by (simp add: find_agent_def same(3))
  moreover obtain a where a: "find_agent (op_tenant_id opts) (op_agent_id opts) db = Some a"
    using ring by (rule signer_ring_Ok)
  then have "(ag_expires_at a < later) = (ag_expires_at a < now)"
    using find_agent_Some live(2) by blast
  ultimately show ?thesis
    using ring a by (cases "stmt_fault conn 0") (simp_all add: signer_ring_def require_row_def scalar_or_def)
qed

text \<open>
  C27. The guarantee that an envelope is accepted once needs a clock that stands still during a call: the code
  tests the expiry of the envelope with one reading of the clock and removes expired nonces with
  a later one.  An envelope accepted before is accepted again when the first reading is its last valid second
  and the clock ticks before the second reading, provided the agents of the tenant are still
  the same and the receipt can be made.\<close>

theorem clock_tick_reopens_replay:
  assumes first: "validate_agent_action H G conn jwt hex now0 now pf opts db = (Ok v, db1)"
    and conn: "lock_fault conn = None" "stmt_fault conn = (\<lambda>_. None)"
    and now: "now \<le> ev_expires_at (pf_envelope pf)"
    and same: "same_ring_until (op_tenant_id opts) now (ev_expires_at (pf_envelope pf) + 1) db"
    and made: "make_receipt H conn jwt hex' (tohex G (compress G (key_image (pf_ring_signature pf))))
      (ev_expires_at (pf_envelope pf) + 1) (pf_envelope pf) opts db1 = Ok r"
  shows "\<exists>v' db2. validate_agent_action H G conn jwt hex' (ev_expires_at (pf_envelope pf))
    (ev_expires_at (pf_envelope pf) + 1) pf opts db1 = (Ok v', db2)"
proof -
  let ?env = "pf_envelope pf" and ?ki = "tohex G (compress G (key_image (pf_ring_signature pf)))"
  let ?later = "ev_expires_at (pf_envelope pf) + 1"
  from first obtain ring dbn mandate pos where s: "check_envelope H now0 ?env opts = Ok ()"
      "signer_ring G conn ?ki now opts db = Ok ring" "verify G (canonical_envelope_json H ?env) ring (pf_ring_signature pf)"
    and dbn: "dbn = with_nonce (ev_nonce ?env) (identity_nonce H now ?env opts) (purged now db)"
    and stored: "store_receipt conn 7 merge_identity (row_of_receipt (av_receipt v)) dbn = Ok db1"
    by (rule validate_agent_action_Ok)
  have agents: "agents db1 = agents db"
    using stored unfolding store_receipt_def map_err_eq_Ok_iff run_stmt_Ok_iff by (simp add: dbn)
  have ring: "signer_ring G conn ?ki ?later opts db1 = Ok ring"
    using signer_ring_later [OF s(2) same _ agents] now by simp
  have "agent_action_nonces db1 (ev_nonce ?env) = Some (identity_nonce H now ?env opts)"
    using store_receipt_nonces [OF stored] by (simp add: dbn)
  then have nonce: "agent_action_nonces (purged ?later db1) (ev_nonce ?env) = None"
    by (simp add: purge_def identity_nonce_def)
  have check: "check_envelope H (ev_expires_at ?env) ?env opts = Ok ()"
    using s(1) by (simp add: check_envelope_def and_then_eq_Ok_iff)
  from made obtain pos' where "reserve_position H conn 4 (op_tenant_id opts) db1 = Ok pos'"
      "identity_receipt H jwt hex' ?ki ?later ?env opts pos'
        (case find_agent (op_tenant_id opts) (op_agent_id opts) db1 of Some a \<Rightarrow> ag_owner_mandate_hash a | None \<Rightarrow> []) = Some r"
    by (auto simp: make_receipt_def and_then_eq_Ok_iff scalar_or_def conn(2))
  from validate_agent_action_accepts [OF conn check ring s(3) nonce reserve_position_next [OF this(1)] this(2)]
  show ?thesis
    by blast
qed

lemma demo_second_position:
  assumes "identity_receipt demo_crypto ''s'' ''1'' demo_key 7 demo_envelope demo_opts (1, []) [] = Some r"
  shows "next_chain_position demo_crypto [row_of_receipt r] ''acme'' = Ok (2, the (receipt_chain_hash demo_crypto r))"
proof -
  note r = identity_receipt_Some [OF assms]
  have "receipt_chain_hash demo_crypto r \<noteq> None"
    using r(1,4) signed_has_chain_hash [of demo_crypto "''s''" r] by (simp add: signed_by_def)
  then show ?thesis
    using r(3,4)
    by (auto simp: next_chain_position_def load_receipt_def demo_opts_def is_i64_def i64_MIN_def i64_MAX_def)
qed

theorem clock_tick_reopens_replay_witness:
  "\<exists>v db1 v' db2.
    validate_agent_action demo_crypto demo_curve healthy ''s'' ''1'' 7 7 demo_proof demo_opts demo_action_db = (Ok v, db1) \<and>
    validate_agent_action demo_crypto demo_curve healthy ''s'' ''2'' 8 9 demo_proof demo_opts db1 = (Ok v', db2)"
proof -
  obtain r where r: "identity_receipt demo_crypto ''s'' ''1'' demo_key 7 demo_envelope demo_opts (1, []) [] = Some r"
      "length (the (receipt_chain_hash demo_crypto r)) < 9000"
    and run: "validate_agent_action demo_crypto demo_curve healthy ''s'' ''1'' 7 7 demo_proof demo_opts demo_action_db =
       (Ok \<lparr>av_action_hash = action_hash demo_crypto demo_envelope, av_ring_key_image_hex = demo_key, av_receipt = r\<rparr>,
        demo_action_db\<lparr>agent_action_nonces := [''nonce-0123456789'' \<mapsto> identity_nonce demo_crypto 7 demo_envelope demo_opts],
          agent_action_receipts := [row_of_receipt r]\<rparr>)" (is "_ = (Ok _, ?db1)")
    by (rule demo_first)
  have simps: "tohex demo_curve (compress demo_curve (key_image (pf_ring_signature demo_proof))) = demo_key"
      "pf_envelope demo_proof = demo_envelope" "ev_expires_at demo_envelope = 8" "op_tenant_id demo_opts = ''acme''"
      "(8 :: int) + 1 = 9"
    by (simp_all add: demo_curve_def demo_proof_def demo_envelope_def demo_opts_def)
  let ?h = "the (receipt_chain_hash demo_crypto r)"
  obtain r2 where r2: "identity_receipt demo_crypto ''s'' ''2'' demo_key 9 demo_envelope demo_opts (2, ?h) [] = Some r2"
    using demo_receipt [of "''2''" 9 2 ?h "''s''"] r(2) by auto
  have "reserve_position demo_crypto healthy 4 ''acme'' ?db1 = Ok (2, ?h)"
    using demo_second_position [OF r(1)] by (intro reserve_position_accepts) (simp_all add: healthy_def)
  then have made: "make_receipt demo_crypto healthy ''s'' ''2'' demo_key 9 demo_envelope demo_opts ?db1 = Ok r2"
    using r2 by (simp add: make_receipt_def simps(4) scalar_or_def healthy_def find_agent_def demo_action_db_simps demo_signer_def)
  have "same_ring_until ''acme'' 7 9 demo_action_db"
    by (simp add: same_ring_until_def demo_action_db_simps demo_signer_def)
  from clock_tick_reopens_replay [OF run, unfolded simps, of "''2''" r2, OF _ _ _ this made] run show ?thesis
    by (auto simp: healthy_def)
qed

section \<open>Anonymous actions\<close>

text \<open>A ring admits an action: its rule allows it and one of its members signed the canonical envelope.\<close>

definition admits ::
  "('y) crypto_scheme \<Rightarrow> ('s, 'p, 'z) curve_scheme \<Rightarrow> anon_action_envelope \<Rightarrow> string \<times> ('s, 'p) ring_signature \<Rightarrow> database \<Rightarrow> bool" where
  "admits H G env named db \<longleftrightarrow>
     (\<exists>row rule members. map_of (rings db) (ae_tenant_id env, fst named) = Some row \<and>
        rule_from_json G (ri_rule_json row) = Ok rule \<and>
        evaluate_rule rule (ae_action env) (ae_config_digest env) = RuleAllow \<and>
        parse_points G (member_hexes (ae_tenant_id env) (fst named) db) = Ok members \<and>
        members \<noteq> [] \<and> verify G (canonical_anon_envelope_json H env) members (snd named))"

lemma get_ring_Ok_Some:
  "get_ring G conn k t i db = Ok (Some (rule, v)) \<longleftrightarrow>
   stmt_fault conn k = None \<and>
   (\<exists>row. map_of (rings db) (t, i) = Some row \<and> rule_from_json G (ri_rule_json row) = Ok rule \<and> v = ri_version row)"
  by (auto simp: get_ring_def scalar_or_def and_then_eq_Ok_iff split: option.splits)

lemma list_member_points_Ok:
  "list_member_points G conn k t i db = Ok ps \<longleftrightarrow> stmt_fault conn k = None \<and> parse_points G (member_hexes t i db) = Ok ps"
  by (auto simp: list_member_points_def and_then_eq_Ok_iff)

lemma admit_ring_admits:
  assumes "admit_ring G conn k primary (canonical_anon_envelope_json H env) env i sig db = Ok x"
  shows "admits H G env (i, sig) db"
  using assms unfolding admit_ring_def Let_def
  by (elim and_then_OkE) (auto simp: admits_def get_ring_Ok_Some list_member_points_Ok and_then_eq_Ok_iff
      split: prod.splits rule_decision.splits)

lemma admit_also_rings_admits:
  "admit_also_rings G conn k (canonical_anon_envelope_json H env) env named db = Ok ls \<Longrightarrow> x \<in> set named \<Longrightarrow> admits H G env x db"
  by (induction named arbitrary: k ls) (auto simp: and_then_eq_Ok_iff dest: admit_ring_admits split: prod.splits)

lemma admit_anon_admits:
  assumes "admit_anon H G conn pf db = Ok label"
    and "x \<in> set ((ae_ring_id (ap_envelope pf), ap_ring_signature pf) #
      zip (ae_also_ring_ids (ap_envelope pf)) (ap_also_ring_signatures pf))"
  shows "admits H G (ap_envelope pf) x db"
  using assms unfolding admit_anon_def Let_def
  by (auto simp: and_then_eq_Ok_iff dest: admit_ring_admits admit_also_rings_admits split: prod.splits)

lemma check_also_rings_Ok:
  "check_also_rings seen rs = Ok () \<longleftrightarrow> (\<forall>r \<in> set rs. trim r \<noteq> []) \<and> distinct rs \<and> set rs \<inter> set seen = {}"
  by (induction rs arbitrary: seen) (auto simp: and_then_eq_Ok_iff)

text \<open>
  C24. The authority of an anonymous action is the intersection of the rings it names.  Every
  ring named by an accepted action, the primary one and each additional one, exists in the tenant, allows the action and the
  configuration, and has a member whose own signature over the same canonical envelope verifies; the named
  rings are all different and each has its signature.  The nonce was not in use for this pseudonym.  The receipt carries
  no agent id, no token id and no mandate, and extends the receipt chain of the tenant by one.\<close>

theorem anonymous_action_needs_every_ring:
  assumes acc: "validate_anon_action H G conn jwt hex pf now db = (Ok r, db')"
    and fresh: "''ar_'' @ hex \<notin> row_receipt_id ` set (agent_action_receipts db)"
    and table: "table_ok (agent_action_receipts db)" "int (length (agent_action_receipts db)) + 1 < i64_MAX"
    and chain: "verify_receipt_chain H (agent_action_receipts db) (ae_tenant_id (ap_envelope pf)) = Ok n"
  shows "(\<forall>x \<in> set ((ae_ring_id (ap_envelope pf), ap_ring_signature pf) #
        zip (ae_also_ring_ids (ap_envelope pf)) (ap_also_ring_signatures pf)). admits H G (ap_envelope pf) x db) \<and>
    distinct (ae_ring_id (ap_envelope pf) # ae_also_ring_ids (ap_envelope pf)) \<and>
    length (ap_also_ring_signatures pf) = length (ae_also_ring_ids (ap_envelope pf)) \<and>
    agent_action_nonces (purged now db)
      (tohex G (compress G (key_image (ap_ring_signature pf))) @ ''|'' @ ae_nonce (ap_envelope pf)) = None \<and>
    rc_agent_id r = [] \<and> rc_ajwt_jti r = [] \<and> rc_owner_mandate_hash r = [] \<and>
    agent_action_receipts db' = agent_action_receipts db @ [anon_row (ap_envelope pf) r] \<and>
    verify_receipt_signature H jwt r = Some True \<and>
    verify_receipt_chain H (agent_action_receipts db') (ae_tenant_id (ap_envelope pf)) = Ok (n + 1)"
  using acc
proof (cases rule: validate_anon_action_cases)
  case (accepted r' label db1)
  let ?env = "ap_envelope pf" and ?ki = "tohex G (compress G (key_image (ap_ring_signature pf)))"
  have r': "r' = r"
    using accepted(1) by simp
  from accepted(4) have nonce: "agent_action_nonces (purged now db) (?ki @ ''|'' @ ae_nonce ?env) = None"
    and db1: "db1 = with_nonce (?ki @ ''|'' @ ae_nonce ?env) (anon_nonce H now ?env) (purged now db)"
    by (cases rule: consume_action_nonce_cases, simp_all)+
  from accepted(5) obtain pos where "reserve_position H conn 5 (ae_tenant_id ?env) db1 = Ok pos"
      and made: "anon_receipt H jwt hex ?ki now ?env label pos = Some r"
    by (auto simp: make_anon_receipt_def and_then_eq_Ok_iff r')
  from reserve_position_next [OF this(1)] have pos: "next_chain_position H (agent_action_receipts db) (ae_tenant_id ?env) = Ok pos"
    by (simp add: db1)
  note r = anon_receipt_Some [OF made]
  have "row_receipt_id (anon_row ?env r) \<notin> row_receipt_id ` set (agent_action_receipts db1)"
    using fresh r(2) by (simp add: db1)
  from store_receipt_fresh [OF accepted(6) [unfolded r'] this]
  have db': "agent_action_receipts db' = agent_action_receipts db @ [anon_row ?env r]"
    by (simp add: db1)
  have "verify_receipt_chain H (agent_action_receipts db @ [anon_row ?env r]) (ae_tenant_id ?env) = Ok (n + 1)"
    using pos r fresh
    by (intro appended_receipt_verifies [OF table chain, where r = r]) (simp_all add: receipt_of_anon_row)
  moreover have "distinct (ae_ring_id ?env # ae_also_ring_ids ?env)"
      "length (ap_also_ring_signatures pf) = length (ae_also_ring_ids ?env)"
    using accepted(2) by (auto simp: check_anon_def Let_def and_then_eq_Ok_iff check_also_rings_Ok)
  ultimately show ?thesis
    using admit_anon_admits [OF accepted(3)] nonce db' r(6,7,9) signed_by_verifies [OF r(1)] by simp
qed simp

lemma validate_anon_action_accepts:
  fixes pf G
  defines "env \<equiv> ap_envelope pf" and "ki \<equiv> tohex G (compress G (key_image (ap_ring_signature pf)))"
  assumes conn: "stmt_fault conn = (\<lambda>_. None)"
    and checks: "check_anon now pf = Ok ()" "admit_anon H G conn pf db = Ok label"
    and nonce: "agent_action_nonces (purged now db) (ki @ ''|'' @ ae_nonce env) = None"
    and receipt: "next_chain_position H (agent_action_receipts db) (ae_tenant_id env) = Ok pos"
      "anon_receipt H jwt hex ki now env label pos = Some r"
  shows "\<exists>db'. validate_anon_action H G conn jwt hex pf now db = (Ok r, db')"
proof -
  let ?db1 = "with_nonce (ki @ ''|'' @ ae_nonce env) (anon_nonce H now env) (purged now db)"
  have pre: "and_then (check_anon now pf) (\<lambda>_. admit_anon H G conn pf db) = Ok label"
    by (simp add: checks)
  have made: "make_anon_receipt H conn jwt hex ki now env label ?db1 = Ok r"
    using reserve_position_accepts [OF conn, of H ?db1 "ae_tenant_id env" pos 5] receipt by (simp add: make_anon_receipt_def)
  have "store_receipt conn 7 merge_anon (anon_row env r) ?db1 =
      Ok (?db1\<lparr>agent_action_receipts := upsert_receipt merge_anon (anon_row env r) (agent_action_receipts db)\<rparr>)"
    by (simp add: store_receipt_def run_stmt_def conn)
  then show ?thesis
    unfolding validate_anon_action_def Let_def env_def [symmetric] ki_def [symmetric] pre sum.case
      consume_action_nonce_accepts [OF conn nonce] prod.case made by simp
qed

definition demo_anon :: "(unit, unit) anon_action_proof" where
  "demo_anon = \<lparr>ap_envelope = \<lparr>ae_tenant_id = ''acme'', ae_ring_id = ''r1'', ae_also_ring_ids = [''r2''], ae_action = ''pay'',
        ae_resource = [], ae_merchant_id = [], ae_amount_minor = 5, ae_currency = [], ae_config_digest = [],
        ae_nonce = ''nonce-0123456789'', ae_expires_at = 8\<rparr>,
     ap_ring_signature = \<lparr>c0 = (), responses = [()], key_image = ()\<rparr>,
     ap_also_ring_signatures = [\<lparr>c0 = (), responses = [()], key_image = ()\<rparr>]\<rparr>"

definition demo_rings_db :: database where
  "demo_rings_db = empty_database\<lparr>
     rings := [((''acme'', ''r1''), \<lparr>ri_rule_json = [], ri_version = 1, ri_created_at = 0, ri_updated_at = 0\<rparr>),
               ((''acme'', ''r2''), \<lparr>ri_rule_json = [], ri_version = 1, ri_created_at = 0, ri_updated_at = 0\<rparr>)],
     ring_members := [((''acme'', ''r1''), demo_key), ((''acme'', ''r2''), demo_key)]\<rparr>"

lemma demo_point: "parse_point_hex demo_curve demo_key = Ok ()"
proof -
  have "trim demo_key = demo_key"
    by (rule trim_graphic) (simp_all add: demo_key_def is_graphic_def byte_def)
  then show ?thesis
    by (simp add: parse_point_hex_def demo_curve_def) (simp add: demo_key_def)
qed

lemma demo_anon_checks:
  "check_anon 7 demo_anon = Ok ()"
  "admit_anon demo_crypto demo_curve healthy demo_anon demo_rings_db = Ok ''ring:r1:v1+ring:r2:v1''"
proof -
  have trims: "trim ''r1'' = ''r1''" "trim ''r2'' = ''r2''"
    by (simp_all add: trim_graphic is_graphic_def byte_def)
  then show "check_anon 7 demo_anon = Ok ()"
    by (simp add: check_anon_def demo_anon_def Let_def demo_trims)
  have one: "int_to_string 1 = ''1''"
    by code_simp
  show "admit_anon demo_crypto demo_curve healthy demo_anon demo_rings_db = Ok ''ring:r1:v1+ring:r2:v1''"
    by (simp add: admit_anon_def admit_ring_def get_ring_def Let_def demo_anon_def demo_rings_db_def empty_database_def
        scalar_or_def healthy_def list_member_points_def run_stmt_def member_hexes_def demo_point verify_def
        get_usage_def budget_exceeded_def evaluate_rule_def)
       (simp add: demo_curve_def demo_trims one)
qed

theorem anonymous_action_needs_every_ring_witness:
  "\<exists>r db'. validate_anon_action demo_crypto demo_curve healthy ''s'' ''1'' demo_anon 7 demo_rings_db = (Ok r, db') \<and>
    (\<forall>x \<in> {(''r1'', ap_ring_signature demo_anon), (''r2'', ap_ring_signature demo_anon)}.
      admits demo_crypto demo_curve (ap_envelope demo_anon) x demo_rings_db) \<and>
    verify_receipt_chain demo_crypto (agent_action_receipts db') ''acme'' = Ok 1"
proof -
  let ?env = "ap_envelope demo_anon"
  have empty: "agent_action_receipts demo_rings_db = []" "agent_action_nonces demo_rings_db = Map.empty"
    by (simp_all add: demo_rings_db_def empty_database_def)
  have ki: "tohex demo_curve (compress demo_curve (key_image (ap_ring_signature demo_anon))) = demo_key"
    and t: "ae_tenant_id ?env = ''acme''"
    by (simp_all add: demo_curve_def demo_anon_def)
  have hash: "length (anon_action_hash demo_crypto ?env) < 1000"
    by (simp add: anon_action_hash_def demo_crypto_def canonical_anon_envelope_json_def demo_anon_def quoted_def int_to_string_digit)
  obtain r where "anon_receipt demo_crypto ''s'' ''1'' demo_key 7 ?env ''ring:r1:v1+ring:r2:v1'' (1, []) = Some r"
    using hash canonical_fields_total
    by (auto simp: anon_receipt_def Let_def sign_receipt_def receipt_signing_payload_def signing_fields_def t fits_simps
        demo_key_def int_to_string_digit canonical_fields_Some_iff)
  then obtain db' where run: "validate_anon_action demo_crypto demo_curve healthy ''s'' ''1'' demo_anon 7 demo_rings_db = (Ok r, db')"
    using validate_anon_action_accepts [OF _ demo_anon_checks, unfolded ki t, of "(1, [])" "''s''" "''1''" r]
    by (auto simp: healthy_def purge_def empty next_chain_position_def)
  have "ap_also_ring_signatures demo_anon = [ap_ring_signature demo_anon]" "ae_ring_id ?env = ''r1''" "ae_also_ring_ids ?env = [''r2'']"
    by (simp_all add: demo_anon_def)
  moreover have "verify_receipt_chain demo_crypto [] ''acme'' = Ok 0"
    by (simp add: verify_receipt_chain_def)
  ultimately show ?thesis
    using anonymous_action_needs_every_ring [OF run, of 0] run by (auto simp: empty table_ok_def i64_MAX_def t)
qed

section \<open>Two receipts at once\<close>

lemma make_receipt_Ok:
  assumes "make_receipt H conn jwt hex ki now env opts db = Ok r"
  shows "next_chain_position H (agent_action_receipts db) (op_tenant_id opts) = Ok (rc_seq r, rc_prev_hash r)"
    "rc_receipt_id r = ''ar_'' @ hex" "rc_tenant_id r = op_tenant_id opts"
proof -
  from assms obtain pos mandate where "reserve_position H conn 4 (op_tenant_id opts) db = Ok pos"
      and r: "identity_receipt H jwt hex ki now env opts pos mandate = Some r"
    by (auto simp: make_receipt_def and_then_eq_Ok_iff)
  then show "next_chain_position H (agent_action_receipts db) (op_tenant_id opts) = Ok (rc_seq r, rc_prev_hash r)"
    using reserve_position_next identity_receipt_Some(4) [OF r] by metis
  show "rc_receipt_id r = ''ar_'' @ hex" "rc_tenant_id r = op_tenant_id opts"
    using identity_receipt_Some(2,3) [OF r] .
qed

text \<open>
  C26. Reserving a position and storing the receipt are separate statements on pooled
  connections, and nothing in the schema makes the position unique.  When two accepted actions of a
  tenant both read the head of a verified chain before either stores its receipt, both
  receipts are stored, they carry the same position, and the chain of the tenant no longer
  verifies.\<close>

theorem interleaved_receipts_break_the_chain:
  assumes table: "table_ok (agent_action_receipts db)" "int (length (agent_action_receipts db)) + 2 < i64_MAX"
    and chain: "verify_receipt_chain H (agent_action_receipts db) t = Ok n"
    and fresh: "''ar_'' @ hex1 \<notin> row_receipt_id ` set (agent_action_receipts db)"
      "''ar_'' @ hex2 \<notin> row_receipt_id ` set (agent_action_receipts db)" "hex1 \<noteq> hex2"
    and tenant: "op_tenant_id opts1 = t" "op_tenant_id opts2 = t"
    and read1: "make_receipt H conn1 jwt hex1 ki1 now1 env1 opts1 db = Ok r1"
    and read2: "make_receipt H conn2 jwt hex2 ki2 now2 env2 opts2 db = Ok r2"
    and store1: "store_receipt conn1 7 merge_identity (row_of_receipt r1) db = Ok db1"
    and store2: "store_receipt conn2 7 merge_identity (row_of_receipt r2) db1 = Ok db2"
  shows "agent_action_receipts db2 = agent_action_receipts db @ [row_of_receipt r1, row_of_receipt r2] \<and>
    rc_seq r1 = n + 1 \<and> rc_seq r2 = n + 1 \<and> (\<forall>m. verify_receipt_chain H (agent_action_receipts db2) t \<noteq> Ok m)"
proof -
  let ?rs = "agent_action_receipts db"
  have chained: "chained rc_seq rc_prev_hash (receipt_chain_hash H) 1 [] (receipt_chain ?rs t)" "n = int (length (receipt_chain ?rs t))"
    using chain by (simp_all add: verify_receipt_chain_Ok_iff [OF table(1)])
  have r: "rc_seq r = n + 1" "rc_receipt_id r = ''ar_'' @ hex" "rc_tenant_id r = t"
    if "make_receipt H conn jwt hex ki now env opts db = Ok r" "op_tenant_id opts = t" for conn hex ki now env opts r
    using make_receipt_Ok [OF that(1)] that(2) next_chain_position_eq [OF table(1) chained(1)] chained(2) by auto
  note r1 = r [OF read1 tenant(1)] and r2 = r [OF read2 tenant(2)]
  have "agent_action_receipts db1 = ?rs @ [row_of_receipt r1]"
    using store_receipt_fresh [OF store1] fresh(1) r1(2) by simp
  then have rows: "agent_action_receipts db2 = ?rs @ [row_of_receipt r1, row_of_receipt r2]"
    using store_receipt_fresh [OF store2] fresh(2,3) r1(2) r2(2) by simp
  have "table_ok (agent_action_receipts db2)"
    using table fresh r1(1,2) r2(1,2) chained(2) by (simp add: table_ok_def rows)
  moreover have "\<not> chained rc_seq rc_prev_hash (receipt_chain_hash H) 1 [] (receipt_chain (agent_action_receipts db2) t)"
  proof
    assume "chained rc_seq rc_prev_hash (receipt_chain_hash H) 1 [] (receipt_chain (agent_action_receipts db2) t)"
    from receipts.chained_distinct [OF this] have "inj_on (\<lambda>r. ifnull (row_seq r) 0) (set (chain_rows (agent_action_receipts db2) t))"
      by (simp add: receipt_chain_def comp_def distinct_map)
    moreover have "row_of_receipt r1 \<in> set (chain_rows (agent_action_receipts db2) t)"
        "row_of_receipt r2 \<in> set (chain_rows (agent_action_receipts db2) t)"
      using r1(1,3) r2(1,3) chained(2) by (simp_all add: rows)
    ultimately have "row_of_receipt r1 = row_of_receipt r2"
      unfolding inj_on_def using r1(1) r2(1) by (metis row_of_receipt_simps(3))
    then show False
      using r1(2) r2(2) fresh(3) by (metis row_of_receipt_simps(1) same_append_eq)
  qed
  ultimately show ?thesis
    using rows r1(1) r2(1) verify_receipt_chain_Ok_iff by blast
qed

theorem interleaved_receipts_break_the_chain_witness:
  "\<exists>r1 r2 db1 db2.
    make_receipt demo_crypto healthy ''s'' ''1'' demo_key 7 demo_envelope demo_opts demo_action_db = Ok r1 \<and>
    make_receipt demo_crypto healthy ''s'' ''2'' demo_key 7 demo_envelope demo_opts demo_action_db = Ok r2 \<and>
    store_receipt healthy 7 merge_identity (row_of_receipt r1) demo_action_db = Ok db1 \<and>
    store_receipt healthy 7 merge_identity (row_of_receipt r2) db1 = Ok db2 \<and>
    (\<forall>m. verify_receipt_chain demo_crypto (agent_action_receipts db2) ''acme'' \<noteq> Ok m)"
proof -
  have pos: "reserve_position demo_crypto healthy 4 ''acme'' demo_action_db = Ok (1, [])"
    by (intro reserve_position_accepts) (simp_all add: healthy_def demo_action_db_simps next_chain_position_def)
  have made: "\<exists>r. make_receipt demo_crypto healthy ''s'' hex demo_key 7 demo_envelope demo_opts demo_action_db = Ok r"
    if "length hex < 100" for hex
    using demo_receipt [of hex 7 1 "[]" "''s''"] that
    by (auto simp: make_receipt_def demo_ids pos scalar_or_def find_agent_def demo_action_db_simps demo_signer_def)
  obtain r1 r2 where r: "make_receipt demo_crypto healthy ''s'' ''1'' demo_key 7 demo_envelope demo_opts demo_action_db = Ok r1"
      "make_receipt demo_crypto healthy ''s'' ''2'' demo_key 7 demo_envelope demo_opts demo_action_db = Ok r2"
    using made [of "''1''"] made [of "''2''"] by auto
  have store: "\<exists>db'. store_receipt healthy 7 merge_identity row db = Ok db'" for row db
    by (simp add: store_receipt_def run_stmt_def healthy_def)
  obtain db1 db2 where s: "store_receipt healthy 7 merge_identity (row_of_receipt r1) demo_action_db = Ok db1"
      "store_receipt healthy 7 merge_identity (row_of_receipt r2) db1 = Ok db2"
    using store by blast
  have "verify_receipt_chain demo_crypto (agent_action_receipts demo_action_db) ''acme'' = Ok 0"
    by (simp add: verify_receipt_chain_def demo_action_db_simps)
  from interleaved_receipts_break_the_chain [OF _ _ this _ _ _ _ _ r s]
  have "\<forall>m. verify_receipt_chain demo_crypto (agent_action_receipts db2) ''acme'' \<noteq> Ok m"
    by (auto simp: demo_action_db_simps table_ok_def i64_MAX_def demo_opts_def)
  with r s show ?thesis
    by blast
qed

end
