(* ===== verification/Ring_Membership.thy ===== *)
theory Ring_Membership
  imports Action_Guarantees
begin

text \<open>
  Subscription and the ring signature together: the point that \<open>rings.rs\<close> stores for a
  subscribed agent is the public point of the pseudonym that the agent derives on its own, so
  the agent can sign for the ring and the server accepts the signature.
\<close>

section \<open>Membership\<close>

lemma set_member_hexes [simp]:
  "set (member_hexes t i db) = {h. ((t, i), h) \<in> set (ring_members db)}"
  by (force simp: member_hexes_def)

lemma insert_member_Ok:
  assumes "insert_member conn k t i h db = (Ok new, db')"
  shows "set (member_hexes t i db') = insert h (set (member_hexes t i db))"
    and "new \<longleftrightarrow> h \<notin> set (member_hexes t i db)"
    and "db' = db\<lparr>ring_members := ring_members db'\<rparr>"
  using assms by (auto simp: insert_member_def Let_def split: sum.splits if_splits)

lemma delete_member_Ok:
  assumes "delete_member conn k t i h db = (Ok gone, db')"
  shows "set (member_hexes t i db') = set (member_hexes t i db) - {h}"
    and "gone \<longleftrightarrow> h \<in> set (member_hexes t i db)"
    and "(t, i) \<noteq> (t', i') \<Longrightarrow> set (member_hexes t' i' db') = set (member_hexes t' i' db)"
  using assms by (auto simp: delete_member_def Let_def split: sum.splits)

lemma parse_points_member:
  "parse_points G hs = Ok ps \<Longrightarrow> h \<in> set hs \<Longrightarrow> \<exists>p \<in> set ps. parse_point_hex G h = Ok p"
  by (induction hs arbitrary: ps) (auto simp: and_then_eq_Ok_iff)

lemma subscribe_Ok:
  assumes "subscribe G conn k t trapdoor master i db = (Ok h, db')"
  obtains p where "parse_point_hex G master = Ok p" "h = derive_member_point_hex G trapdoor p i"
    "h \<in> set (member_hexes t i db')" "db' = db\<lparr>ring_members := ring_members db'\<rparr>"
proof -
  from assms obtain p where p: "parse_point_hex G master = Ok p"
    by (cases "parse_point_hex G master") (auto simp: subscribe_def)
  let ?h = "derive_member_point_hex G trapdoor p i"
  obtain x db1 where ins: "insert_member conn k t i ?h db = (x, db1)"
    by fastforce
  from assms have "(case x of Inl e \<Rightarrow> (Err e, db1) | Inr _ \<Rightarrow> (Ok ?h, db1)) = (Ok h, db')"
    by (simp add: subscribe_def p Let_def ins split: sum.splits)
  then obtain new where x: "x = Ok new" and h: "h = ?h" "db1 = db'"
    by (cases x) auto
  note member = insert_member_Ok [OF ins [unfolded x h(2)]]
  show ?thesis
    using member(3) by (intro that [OF p h(1)]) (simp_all only: member(1) h(1) insertI1)
qed

text \<open>The point stored for a subscribed agent is the public point of the identity the agent signs with.\<close>

lemma subscribed_point:
  assumes "group_laws G"
  shows "derive_member_point_hex G trapdoor (smul G a (BASEPOINT G)) i =
    tohex G (compress G (public (agent_ring_identity G a (shared_secret_agent G a (smul G trapdoor (BASEPOINT G))) i)))"
  by (simp add: derive_member_point_hex_def Let_def agent_ring_identity_public [OF assms] shared_secrets_agree [OF assms])

lemma agent_ring_identity_secret:
  "public (agent_ring_identity G a s i) = smul G (secret (agent_ring_identity G a s i)) (BASEPOINT G)"
  by (simp add: agent_ring_identity_def from_scalar_def)

section \<open>A subscribed agent can act\<close>

lemma admit_anon_single:
  assumes conn: "stmt_fault conn = (\<lambda>_. None)"
    and env: "ae_also_ring_ids (ap_envelope pf) = []" "ap_also_ring_signatures pf = []"
    and ring: "map_of (rings db) (ae_tenant_id (ap_envelope pf), ae_ring_id (ap_envelope pf)) = Some row"
      "rule_from_json G (ri_rule_json row) = Ok rule"
      "evaluate_rule rule (ae_action (ap_envelope pf)) (ae_config_digest (ap_envelope pf)) = RuleAllow"
    and ms: "parse_points G (member_hexes (ae_tenant_id (ap_envelope pf)) (ae_ring_id (ap_envelope pf)) db) = Ok ms" "ms \<noteq> []"
      "verify G (canonical_anon_envelope_json H (ap_envelope pf)) ms (ap_ring_signature pf)"
    and budget: "get_usage conn 2 (ae_tenant_id (ap_envelope pf)) (ae_ring_id (ap_envelope pf))
        (tohex G (compress G (key_image (ap_ring_signature pf)))) db = Ok spent"
      "budget_exceeded spent (budgets rule) = None"
  shows "admit_anon H G conn pf db = Ok (''ring:'' @ ae_ring_id (ap_envelope pf) @ '':v'' @ int_to_string (ri_version row))"
proof -
  have "get_ring G conn k (ae_tenant_id (ap_envelope pf)) (ae_ring_id (ap_envelope pf)) db = Ok (Some (rule, ri_version row))"
    and "list_member_points G conn k (ae_tenant_id (ap_envelope pf)) (ae_ring_id (ap_envelope pf)) db = Ok ms" for k
    using ring ms(1) conn by (simp_all add: get_ring_Ok_Some list_member_points_Ok)
  then show ?thesis
    using ring(3) ms(2,3) budget env by (simp add: admit_anon_def admit_ring_def Let_def)
qed

text \<open>
  C25. A subscribed agent can act in the ring.  After the operator has subscribed an agent,
  the agent computes from its own master secret and the operator's public trapdoor point a ring signature over
  its envelope, and the server accepts the action and returns its receipt: the two sides derive the
  same pseudonym and the signature verifies whatever the random scalars and the other
  members.  The hypotheses are the group laws, that a point survives its hexadecimal form, that the
  rule of the ring allows the action, that the budget is not exhausted, and that the nonce is unused and
  the receipt fits the format.\<close>

theorem subscribed_agent_can_act:
  assumes me_def: "me = agent_ring_identity G a (shared_secret_agent G a (smul G trapdoor (BASEPOINT G))) (ae_ring_id env)"
    and laws: "group_laws G" "\<And>p. parse_point_hex G (tohex G (compress G p)) = Ok p"
    and conn: "stmt_fault conn = (\<lambda>_. None)"
    and sub: "subscribe G conn k (ae_tenant_id env) trapdoor master (ae_ring_id env) db = (Ok h, db1)"
      "parse_point_hex G master = Ok (smul G a (BASEPOINT G))"
    and ring: "map_of (rings db) (ae_tenant_id env, ae_ring_id env) = Some row" "rule_from_json G (ri_rule_json row) = Ok rule"
      "evaluate_rule rule (ae_action env) (ae_config_digest env) = RuleAllow"
      "parse_points G (member_hexes (ae_tenant_id env) (ae_ring_id env) db1) = Ok ms"
    and env: "ae_also_ring_ids env = []" "trim (ae_ring_id env) \<noteq> []" "16 \<le> length (trim (ae_nonce env))"
      "length (ae_nonce env) \<le> 128" "now \<le> ae_expires_at env"
    and budget: "get_usage conn 2 (ae_tenant_id env) (ae_ring_id env) (tohex G (compress G (identity_key_image G me))) db1 = Ok spent"
      "budget_exceeded spent (budgets rule) = None"
    and nonce: "agent_action_nonces (purged now db1) (tohex G (compress G (identity_key_image G me)) @ ''|'' @ ae_nonce env) = None"
    and receipt: "next_chain_position H (agent_action_receipts db1) (ae_tenant_id env) = Ok pos"
      "anon_receipt H jwt hex (tohex G (compress G (identity_key_image G me))) now env
         (''ring:'' @ ae_ring_id env @ '':v'' @ int_to_string (ri_version row)) pos = Some r"
  shows "\<exists>sig db2. prove G random alpha \<lparr>members = ms\<rparr> me (canonical_anon_envelope_json H env) = Some sig \<and>
    validate_anon_action H G conn jwt hex
      \<lparr>ap_envelope = env, ap_ring_signature = sig, ap_also_ring_signatures = []\<rparr> now db1 = (Ok r, db2)"
proof -
  have me: "public me = smul G (secret me) (BASEPOINT G)"
    unfolding me_def by (rule agent_ring_identity_secret)
  from sub obtain p where p: "p = smul G a (BASEPOINT G)" "h = derive_member_point_hex G trapdoor p (ae_ring_id env)"
      "h \<in> set (member_hexes (ae_tenant_id env) (ae_ring_id env) db1)" and db1: "db1 = db\<lparr>ring_members := ring_members db1\<rparr>"
    by (auto elim: subscribe_Ok)
  then have "parse_point_hex G h = Ok (public me)"
    using laws by (simp add: me_def subscribed_point)
  with parse_points_member [OF ring(4) p(3)] have member: "public me \<in> set ms"
    by auto
  then obtain sig where sig: "prove G random alpha \<lparr>members = ms\<rparr> me (canonical_anon_envelope_json H env) = Some sig"
    using prove_total [where identity = me and g = "\<lparr>members = ms\<rparr>" and G = G and random = random and alpha = alpha and
        msg = "canonical_anon_envelope_json H env"] by auto
  have verifies: "verify G (canonical_anon_envelope_json H env) ms sig"
    using prove_verifies [OF laws(1) me sig] by (simp add: verify_proof_def)
  have ki: "key_image sig = identity_key_image G me"
    using sig by (auto simp: prove_def sign_def bind_eq_Some_conv identity_key_image_def Let_def split: if_splits)
  have nonempty: "ms \<noteq> []"
    using member by auto
  have rings: "rings db1 = rings db"
    by (subst db1) simp
  let ?pf = "\<lparr>ap_envelope = env, ap_ring_signature = sig, ap_also_ring_signatures = []\<rparr>"
  have "check_anon now ?pf = Ok ()"
    using env by (simp add: check_anon_def Let_def)
  moreover have "admit_anon H G conn ?pf db1 = Ok (''ring:'' @ ae_ring_id env @ '':v'' @ int_to_string (ri_version row))"
    using admit_anon_single [of conn ?pf db1 row G rule ms H spent] conn env(1) ring rings nonempty verifies budget ki by simp
  ultimately have "\<exists>db2. validate_anon_action H G conn jwt hex ?pf now db1 = (Ok r, db2)"
    using nonce receipt ki by (intro validate_anon_action_accepts [OF conn]) simp_all
  then show ?thesis
    using sig by blast
qed

theorem subscribed_agent_can_act_witness:
  "\<exists>h db1 r sig db2. subscribe demo_curve healthy 0 ''acme'' () demo_key ''r1'' demo_rings_db = (Ok h, db1) \<and>
    prove demo_curve (\<lambda>_. ()) () \<lparr>members = [()]\<rparr> (agent_ring_identity demo_curve () () ''r1'')
      (canonical_anon_envelope_json demo_crypto (ap_envelope demo_anon\<lparr>ae_also_ring_ids := []\<rparr>)) = Some sig \<and>
    validate_anon_action demo_crypto demo_curve healthy ''s'' ''1''
      \<lparr>ap_envelope = ap_envelope demo_anon\<lparr>ae_also_ring_ids := []\<rparr>, ap_ring_signature = sig, ap_also_ring_signatures = []\<rparr>
      7 db1 = (Ok r, db2)"
proof -
  let ?env = "ap_envelope demo_anon\<lparr>ae_also_ring_ids := []\<rparr>" and ?row = "\<lparr>ri_rule_json = [], ri_version = 1, ri_created_at = 0, ri_updated_at = 0\<rparr>"
  have env: "ae_tenant_id ?env = ''acme''" "ae_ring_id ?env = ''r1''" "ae_nonce ?env = ''nonce-0123456789''"
    by (simp_all add: demo_anon_def)
  have trim: "trim ''r1'' = ''r1''"
    by (simp add: trim_graphic is_graphic_def byte_def)
  have ki: "tohex demo_curve (compress demo_curve p) = demo_key" for p
    by (simp add: demo_curve_def)
  have sub: "subscribe demo_curve healthy 0 ''acme'' () demo_key ''r1'' demo_rings_db = (Ok demo_key, demo_rings_db)"
    using demo_point
    by (simp add: subscribe_def derive_member_point_hex_def Let_def ki insert_member_def run_stmt_def healthy_def)
       (simp add: demo_rings_db_def)
  have db: "agent_action_receipts demo_rings_db = []" "agent_action_nonces demo_rings_db = Map.empty"
      "map_of (rings demo_rings_db) (''acme'', ''r1'') = Some ?row" "usage_ledger demo_rings_db = []"
      "member_hexes ''acme'' ''r1'' demo_rings_db = [demo_key]"
    by (simp_all add: demo_rings_db_def empty_database_def member_hexes_def)
  obtain rule where rule: "rule_from_json demo_curve [] = Ok rule" "evaluate_rule rule (ae_action ?env) (ae_config_digest ?env) = RuleAllow"
      "budget_exceeded no_usage (budgets rule) = None"
    by (simp add: demo_curve_def demo_anon_def evaluate_rule_def budget_exceeded_def demo_trims)
  have hash: "length (anon_action_hash demo_crypto ?env) < 1000"
    by (simp add: anon_action_hash_def demo_crypto_def canonical_anon_envelope_json_def demo_anon_def quoted_def int_to_string_digit)
  obtain r where r: "anon_receipt demo_crypto ''s'' ''1'' demo_key 7 ?env (''ring:'' @ ''r1'' @ '':v'' @ int_to_string 1) (1, []) = Some r"
    using hash canonical_fields_total
    by (auto simp: anon_receipt_def Let_def sign_receipt_def receipt_signing_payload_def signing_fields_def env fits_simps
        demo_key_def int_to_string_digit canonical_fields_Some_iff)
  have usage: "get_usage healthy 2 ''acme'' ''r1'' demo_key demo_rings_db = Ok no_usage"
    by (simp add: get_usage_def totals_of_def scalar_or_def healthy_def db)
  have "\<exists>sig db2. prove demo_curve (\<lambda>_. ()) () \<lparr>members = [()]\<rparr> (agent_ring_identity demo_curve () () ''r1'')
        (canonical_anon_envelope_json demo_crypto ?env) = Some sig \<and>
      validate_anon_action demo_crypto demo_curve healthy ''s'' ''1''
        \<lparr>ap_envelope = ?env, ap_ring_signature = sig, ap_also_ring_signatures = []\<rparr> 7 demo_rings_db = (Ok r, db2)"
  proof (rule subscribed_agent_can_act [where a = "()" and trapdoor = "()" and env = ?env, unfolded env])
    show "subscribe demo_curve healthy 0 ''acme'' () demo_key ''r1'' demo_rings_db = (Ok demo_key, demo_rings_db)"
      by (rule sub)
    show "map_of (rings demo_rings_db) (''acme'', ''r1'') = Some ?row"
      by (rule db)
    show "rule_from_json demo_curve (ri_rule_json ?row) = Ok rule"
      using rule(1) by simp
    show "evaluate_rule rule (ae_action ?env) (ae_config_digest ?env) = RuleAllow" "budget_exceeded no_usage (budgets rule) = None"
      by (rule rule)+
    show "next_chain_position demo_crypto (agent_action_receipts demo_rings_db) ''acme'' = Ok (1, [])"
      by (simp add: db next_chain_position_def)
    show "7 \<le> ae_expires_at ?env"
      by (simp add: demo_anon_def)
  qed (use r usage in \<open>simp_all add: ki db demo_point trim demo_trims group_laws_def purge_def\<close>, simp_all add: healthy_def)
  then show ?thesis
    using sub by blast
qed

end
