(* ===== verification/Assurance.thy ===== *)
theory Assurance
  imports Values
begin

text \<open>
  The assurance levels of agents and the matrix of actions each level may take
  (\<open>policy/assurance.rs\<close>).
\<close>

datatype assurance_level = DelegatedBank | DelegatedNonBank | AutonomousWeb3

definition from_db :: "string \<Rightarrow> assurance_level" where
  "from_db value =
     (if value = ''delegated_bank'' then DelegatedBank
      else if value = ''autonomous_web3'' then AutonomousWeb3
      else DelegatedNonBank)"

fun as_db :: "assurance_level \<Rightarrow> string" where
  "as_db DelegatedBank = ''delegated_bank''"
| "as_db DelegatedNonBank = ''delegated_nonbank''"
| "as_db AutonomousWeb3 = ''autonomous_web3''"

definition MAX_DELEGATION_DEPTH :: u32 where
  "MAX_DELEGATION_DEPTH = 5"

definition DELEGATED_BANK_ACTIONS :: "string list" where
  "DELEGATED_BANK_ACTIONS =
     [''prove_age'', ''prove_nationality'', ''read_identity'', ''kyc_lookup'', ''kyc_consent'', ''zkp_login'',
      ''payment_initiation'', ''payment_consume'', ''web3_sign'']"

definition AUTONOMOUS_WEB3_ACTIONS :: "string list" where
  "AUTONOMOUS_WEB3_ACTIONS =
     [''read_identity'', ''prove_age'', ''prove_nationality'', ''kyc_lookup'', ''kyc_consent'', ''zkp_login'',
      ''web3_sign'', ''web3_trade_small'']"

record policy_decision =
  pd_allowed :: bool
  pd_reason :: msg

definition action_allowed_in_list :: "string \<Rightarrow> string list \<Rightarrow> bool" where
  "action_allowed_in_list action list =
     (let normalized = to_ascii_lowercase (trim action) in
      normalized \<noteq> [] \<and> normalized \<in> set list)"

definition authorize_action :: "assurance_level \<Rightarrow> string \<Rightarrow> policy_decision" where
  "authorize_action level action =
     (let normalized = to_ascii_lowercase (trim action) in
      if normalized = [] then \<lparr>pd_allowed = False, pd_reason = Msg ''empty action''\<rparr>
      else
        case level of
          DelegatedBank \<Rightarrow>
            if action_allowed_in_list normalized DELEGATED_BANK_ACTIONS
            then \<lparr>pd_allowed = True, pd_reason = Msg ''delegated_bank: action in KYA policy matrix''\<rparr>
            else \<lparr>pd_allowed = False,
              pd_reason = Fmt ''action '{}' not allowed for delegated_bank (see policy matrix)'' [AStr action]\<rparr>
        | DelegatedNonBank \<Rightarrow>
            \<lparr>pd_allowed = False,
              pd_reason = Fmt ''action '{}' blocked for delegated_nonbank; use delegated_bank or autonomous_web3''
                [AStr action]\<rparr>
        | AutonomousWeb3 \<Rightarrow>
            if action_allowed_in_list normalized AUTONOMOUS_WEB3_ACTIONS
            then \<lparr>pd_allowed = True, pd_reason = Msg ''autonomous_web3: action in KYA policy matrix''\<rparr>
            else \<lparr>pd_allowed = False,
              pd_reason = Fmt ''action '{}' not allowed for autonomous_web3 assurance level'' [AStr action]\<rparr>)"

section \<open>Facts\<close>

text \<open>Every stored level reads back; an unknown level is the one that may do nothing.\<close>

lemma from_db_as_db [simp]: "from_db (as_db l) = l"
  by (cases l) (simp_all add: from_db_def)

lemma from_db_unknown: "v \<notin> range as_db \<Longrightarrow> from_db v = DelegatedNonBank"
  by (metis UNIV_I as_db.simps from_db_def image_iff)

lemma nonbank_never_authorized: "\<not> pd_allowed (authorize_action DelegatedNonBank a)"
  by (simp add: authorize_action_def Let_def)

lemma authorized_in_matrix:
  assumes "pd_allowed (authorize_action l a)"
  shows "(l = DelegatedBank \<or> l = AutonomousWeb3) \<and>
    (\<exists>n \<in> set (DELEGATED_BANK_ACTIONS @ AUTONOMOUS_WEB3_ACTIONS). n = to_ascii_lowercase (trim (to_ascii_lowercase (trim a))))"
  using assms
  by (cases l) (auto simp: authorize_action_def action_allowed_in_list_def Let_def split: if_splits)

end
