(* ===== verification/Call_Sig.thy ===== *)
theory Call_Sig
  imports Repository Canonical
begin

text \<open>
  The signature every agent call carries: the middleware of \<open>agent/call_sig.rs\<close>, and the
  DPoP proofs of \<open>dpop.rs\<close> it accepts instead when the operator allows them.  The clock is an
  argument: \<open>now_ms\<close> is the millisecond clock and \<open>now\<close> the second clock, each read once by the source.
  The server is the connection for reads and the repository for the nonce store.
\<close>

record server =
  srv_conn :: any_env
  srv_repo :: repo

section \<open>Shared checks\<close>

definition call_sig_skew_ms :: "env \<Rightarrow> i64" where
  "call_sig_skew_ms env =
     clamp_between 1000 600000 (case env_i64 env ''SAURON_CALL_SIG_SKEW_MS'' of Some v \<Rightarrow> v | None \<Rightarrow> 60000)"

text \<open>\<open>AppError::with_hint\<close> with the status 401; the hint is not part of the model.\<close>

definition unauthorized :: "string \<Rightarrow> string \<Rightarrow> app_error" where
  "unauthorized code m = Detailed 401 code (Msg m)"

definition require_header :: "request \<Rightarrow> string \<Rightarrow> app_error \<Rightarrow> (app_error, string) result" where
  "require_header rq name e = ok_or (header_str rq name) e"

text \<open>The clock test of both schemes, in wrapping arithmetic as compiled for release.\<close>

definition outside_skew :: "i64 \<Rightarrow> i64 \<Rightarrow> i64 \<Rightarrow> bool" where
  "outside_skew now_ms ts skew_ms \<longleftrightarrow> skew_ms < i64_abs (i64_wrap (now_ms - ts))"

text \<open>The row of a live agent of the tenant, and the error when there is none.\<close>

definition live_agent :: "database \<Rightarrow> string \<Rightarrow> string \<Rightarrow> i64 \<Rightarrow> agent_row option" where
  "live_agent db agent_id tenant_id now =
     find (\<lambda>r. ag_agent_id r = agent_id \<and> ag_revoked r = 0 \<and> ag_tenant_id r = tenant_id \<and> now < ag_expires_at r)
       (agents db)"

definition lookup_agent ::
  "any_env \<Rightarrow> database \<Rightarrow> string \<Rightarrow> string \<Rightarrow> i64 \<Rightarrow> (app_error, agent_row) result" where
  "lookup_agent conn db agent_id tenant_id now =
     (if lock_fault conn \<noteq> None then Err Panicked
      else if stmt_fault conn 0 \<noteq> None
      then Err (unauthorized ''call_sig_unknown_agent'' ''unknown, revoked, or expired agent'')
      else ok_or (live_agent db agent_id tenant_id now)
        (unauthorized ''call_sig_unknown_agent'' ''unknown, revoked, or expired agent''))"

definition require_pop_key :: "agent_row \<Rightarrow> (app_error, unit) result" where
  "require_pop_key row =
     (if ag_pop_public_key_b64u row = []
      then Err (unauthorized ''call_sig_no_pop_key''
        ''agent has no pop_public_key_b64u registered (per-call signature requires PoP-bound agent)'')
      else Ok ())"

definition check :: "bool \<Rightarrow> app_error \<Rightarrow> (app_error, unit) result" where
  "check b e = (if b then Ok () else Err e)"

definition decode_pop_key :: "('z) web_scheme \<Rightarrow> string \<Rightarrow> (app_error, string) result" where
  "decode_pop_key W k =
     ok_or (b64u_decode W (trim k)) (unauthorized ''call_sig_bad_pop_key'' ''agent pop key invalid base64url'')"

definition valid_ed_key :: "('z) web_scheme \<Rightarrow> string \<Rightarrow> (app_error, unit) result" where
  "valid_ed_key W pk =
     and_then (check (length pk = 32) (unauthorized ''call_sig_bad_pop_key'' ''agent pop key wrong length'')) (\<lambda>_.
     check (ed_key_ok W pk) (unauthorized ''call_sig_bad_pop_key'' ''agent pop key not a valid Ed25519 point''))"

section \<open>DPoP proofs\<close>

definition JTI_PREFIX :: string where
  "JTI_PREFIX = ''dpop:''"

definition JTI_MAX_LEN :: nat where
  "JTI_MAX_LEN = 120"

definition accept_dpop :: "env \<Rightarrow> bool" where
  "accept_dpop env =
     (if \<not> (case env_truthy env ''SAURON_ACCEPT_DPOP'' of Some b \<Rightarrow> b | None \<Rightarrow> False) then False
      else if is_development_runtime env then True
      else (case env_truthy env ''SAURON_ACCEPT_DPOP_IN_PROD'' of Some b \<Rightarrow> b | None \<Rightarrow> False))"

record dpop_proof =
  dp_htm :: string
  dp_htu :: string
  dp_iat :: i64
  dp_jti :: string
  dp_ath :: "string option"

definition malformed :: "string \<Rightarrow> app_error" where
  "malformed m = unauthorized ''dpop_malformed_proof'' m"

definition decode_json_part :: "('z) web_scheme \<Rightarrow> string \<Rightarrow> string \<Rightarrow> (app_error, json) result" where
  "decode_json_part W part what =
     and_then (ok_or (b64u_decode W part) (malformed ''DPoP proof part is not valid base64url'')) (\<lambda>bytes.
     ok_or (json_parse W bytes) (malformed what))"

definition str_claim :: "json \<Rightarrow> string \<Rightarrow> string option" where
  "str_claim v k = Option.bind (jget v k) as_str"

definition check_proof_header :: "json \<Rightarrow> (app_error, string) result" where
  "check_proof_header header =
     and_then (check (str_claim header ''typ'' = Some ''dpop+jwt'') (malformed ''DPoP proof typ must be dpop+jwt'')) (\<lambda>_.
     and_then (check (str_claim header ''alg'' = Some ''EdDSA'') (malformed ''DPoP proof alg must be EdDSA'')) (\<lambda>_.
     and_then (ok_or (jget header ''jwk'') (malformed ''DPoP proof header missing jwk'')) (\<lambda>jwk.
     and_then (check (str_claim jwk ''kty'' = Some ''OKP'' \<and> str_claim jwk ''crv'' = Some ''Ed25519'')
       (malformed ''DPoP jwk must be kty OKP / crv Ed25519'')) (\<lambda>_.
     ok_or (str_claim jwk ''x'') (malformed ''DPoP jwk missing x'')))))"

definition read_proof_claims :: "json \<Rightarrow> (app_error, dpop_proof) result" where
  "read_proof_claims claims =
     and_then (ok_or (str_claim claims ''htm'') (malformed ''DPoP proof missing htm claim'')) (\<lambda>htm.
     and_then (ok_or (str_claim claims ''htu'') (malformed ''DPoP proof missing htu claim'')) (\<lambda>htu.
     and_then (ok_or (Option.bind (jget claims ''iat'') as_i64) (malformed ''DPoP proof missing numeric iat claim'')) (\<lambda>iat.
     and_then (ok_or (str_claim claims ''jti'') (malformed ''DPoP proof missing jti claim'')) (\<lambda>jti.
     and_then (check (jti \<noteq> [] \<and> length jti \<le> JTI_MAX_LEN) (malformed ''DPoP jti must be 1..=120 chars'')) (\<lambda>_.
     Ok \<lparr>dp_htm = htm, dp_htu = htu, dp_iat = iat, dp_jti = jti, dp_ath = str_claim claims ''ath''\<rparr>)))))"

definition verify_dpop_proof :: "('z) web_scheme \<Rightarrow> string \<Rightarrow> string \<Rightarrow> (app_error, dpop_proof) result" where
  "verify_dpop_proof W proof' registered_pop_pk_b64u =
     (case splitn 3 CHR ''.'' (trim proof') of
        [h_b64, c_b64, s_b64] \<Rightarrow>
          and_then (decode_json_part W h_b64 ''DPoP proof header is not valid JSON'') (\<lambda>header.
          and_then (check_proof_header header) (\<lambda>jwk_x.
          and_then (decode_pop_key W registered_pop_pk_b64u) (\<lambda>registered.
          and_then (ok_or (b64u_decode W (trim jwk_x)) (malformed ''DPoP jwk x is not valid base64url'')) (\<lambda>claimed.
          and_then (check (claimed = registered) (unauthorized ''dpop_wrong_key''
            ''DPoP proof jwk does not match the agent's registered PoP key'')) (\<lambda>_.
          and_then (valid_ed_key W registered) (\<lambda>_.
          and_then (ok_or (b64u_decode W s_b64) (malformed ''DPoP proof signature is not valid base64url'')) (\<lambda>sig.
          and_then (check (length sig = 64) (malformed ''DPoP proof signature wrong size'')) (\<lambda>_.
          and_then (check (ed_verify W registered (h_b64 @ ''.'' @ c_b64) sig)
            (unauthorized ''dpop_invalid_signature'' ''DPoP proof signature verification failed'')) (\<lambda>_.
          and_then (decode_json_part W c_b64 ''DPoP proof claims are not valid JSON'') read_proof_claims)))))))))
      | _ \<Rightarrow> Err (malformed ''DPoP proof must have three dot-separated parts''))"

definition check_context ::
  "('z) web_scheme \<Rightarrow> dpop_proof \<Rightarrow> string \<Rightarrow> string \<Rightarrow> string option \<Rightarrow> i64 \<Rightarrow> i64 \<Rightarrow> (app_error, unit) result" where
  "check_context W proof' method request_path request_host now_ms skew_ms =
     (let htu_mismatch = unauthorized ''dpop_htu_mismatch'' ''DPoP htu does not match the request URI'' in
      and_then (check (eq_ignore_ascii_case (dp_htm proof') method)
        (unauthorized ''dpop_htm_mismatch'' ''DPoP htm does not match the request method'')) (\<lambda>_.
      and_then (ok_or (uri_parse W (dp_htu proof')) htu_mismatch) (\<lambda>htu.
      and_then (check (uri_scheme htu \<noteq> None \<and> uri_authority htu \<noteq> None \<and> uri_query htu = None) htu_mismatch) (\<lambda>_.
      and_then (check (uri_path htu = request_path) htu_mismatch) (\<lambda>_.
      and_then (case (request_host, uri_authority htu) of
          (Some host, Some authority) \<Rightarrow> check (eq_ignore_ascii_case authority (trim host)) htu_mismatch
        | _ \<Rightarrow> Ok ()) (\<lambda>_.
      check (\<not> outside_skew now_ms (i64_clamp (dp_iat proof' * 1000)) skew_ms)
        (unauthorized ''dpop_stale_iat'' ''DPoP iat outside acceptable skew window'')))))))"

definition check_ath :: "('z) web_scheme \<Rightarrow> dpop_proof \<Rightarrow> string option \<Rightarrow> (app_error, unit) result" where
  "check_ath W proof' bearer =
     (let mismatch = unauthorized ''dpop_ath_mismatch'' ''DPoP ath does not match the Authorization bearer token'' in
      case dp_ath proof' of
        None \<Rightarrow> Ok ()
      | Some ath \<Rightarrow>
          and_then (ok_or bearer mismatch) (\<lambda>tok.
          check (ath = b64u_encode W (sha256 W tok)) mismatch))"

definition consume_jti ::
  "repo \<Rightarrow> string \<Rightarrow> string \<Rightarrow> i64 \<Rightarrow> database \<Rightarrow> (app_error, unit) result \<times> database" where
  "consume_jti repo agent_id jti exp' db =
     (case consume_call_nonce repo agent_id (JTI_PREFIX @ jti) exp' db of
        (Ok u, db') \<Rightarrow> (Ok u, db')
      | (Err (Replay _), db') \<Rightarrow> (Err (Detailed 409 ''dpop_jti_reused'' (Msg ''DPoP jti replay (already used)'')), db')
      | (Err (Backend s), db') \<Rightarrow> (Err (Internal (Msg s)), db'))"

text \<open>The checks of \<open>verify_dpop_request\<close>, up to the consumption of the id.\<close>

definition check_dpop_request ::
  "env \<Rightarrow> ('z) web_scheme \<Rightarrow> any_env \<Rightarrow> i64 \<Rightarrow> i64 \<Rightarrow> request \<Rightarrow> database \<Rightarrow> (app_error, string \<times> dpop_proof) result" where
  "check_dpop_request env W conn now_ms now rq db =
     and_then (require_header rq ''x-sauron-agent-id''
       (unauthorized ''call_sig_missing_header'' ''x-sauron-agent-id header required'')) (\<lambda>agent_id.
     and_then (require_header rq ''dpop'' (malformed ''DPoP header is not valid ascii'')) (\<lambda>proof_str.
     and_then (lookup_agent conn db agent_id (request_tenant rq) now) (\<lambda>row.
     and_then (require_pop_key row) (\<lambda>_.
     and_then (verify_dpop_proof W proof_str (ag_pop_public_key_b64u row)) (\<lambda>proof'.
     and_then (check_context W proof' (rq_method rq) (rq_path rq) (header_str rq ''host'') now_ms (call_sig_skew_ms env)) (\<lambda>_.
     and_then (check_ath W proof' (Option.bind (header_str rq ''authorization'') (\<lambda>v. strip_prefix v ''Bearer ''))) (\<lambda>_.
     Ok (agent_id, proof'))))))))"

definition verify_dpop_request ::
  "env \<Rightarrow> ('z) web_scheme \<Rightarrow> server \<Rightarrow> i64 \<Rightarrow> i64 \<Rightarrow> request \<Rightarrow> database \<Rightarrow> (app_error, string) result \<times> database" where
  "verify_dpop_request env W srv now_ms now rq db =
     (case check_dpop_request env W (srv_conn srv) now_ms now rq db of
        Err e \<Rightarrow> (Err e, db)
      | Ok (agent_id, proof') \<Rightarrow>
          (let jti_exp = i64_wrap (dp_iat proof' + i64_div (call_sig_skew_ms env) 1000 + 60) in
           case consume_jti (srv_repo srv) agent_id (dp_jti proof') jti_exp db of
             (Ok _, db') \<Rightarrow> (Ok agent_id, db')
           | (Err e, db') \<Rightarrow> (Err e, db')))"

section \<open>Call signatures\<close>

text \<open>The fields a protocol-3 call signs in addition, read before the payload is built.\<close>

definition v3_header :: "request \<Rightarrow> string \<Rightarrow> (app_error, string) result" where
  "v3_header rq name =
     ok_or (filter_option (\<lambda>v. v \<noteq> []) (map_option trim (header_str rq name)))
       (Detailed 401 ''call_sig_v3_missing_header'' (Fmt ''{name} header required for protocol version 3'' [AStr name]))"

definition read_v3_fields ::
  "request \<Rightarrow> string \<Rightarrow> i64 \<Rightarrow> (app_error, string \<times> string \<times> string) result" where
  "read_v3_fields rq registered_mandate now_ms =
     and_then (v3_header rq ''x-sauron-call-mandate-digest'') (\<lambda>mandate.
     and_then (v3_header rq ''x-sauron-call-run-id'') (\<lambda>run.
     and_then (v3_header rq ''x-sauron-call-expires'') (\<lambda>expires.
     and_then (check (registered_mandate \<noteq> []) (unauthorized ''call_sig_no_mandate''
       ''agent has no owner mandate recorded, so it cannot cite one'')) (\<lambda>_.
     and_then (check (mandate = registered_mandate) (unauthorized ''call_sig_mandate_mismatch''
       ''cited mandate digest is not the mandate this agent was registered under'')) (\<lambda>_.
     and_then (ok_or (parse_i64 expires) (unauthorized ''call_sig_bad_expires''
       ''x-sauron-call-expires must be unix milliseconds, ascii decimal'')) (\<lambda>expires_ms.
     and_then (check (\<not> expires_ms < now_ms) (unauthorized ''call_sig_expired''
       ''the signature is past the expiry its own signer set'')) (\<lambda>_.
     Ok (mandate, run, expires))))))))"

record call_headers =
  ch_agent_id :: string
  ch_call_ts_str :: string
  ch_call_ts :: i64
  ch_nonce :: string
  ch_sig_b64 :: string
  ch_is_v3 :: bool
  ch_audience :: string

definition missing :: "string \<Rightarrow> app_error" where
  "missing m = unauthorized ''call_sig_missing_header'' m"

definition read_call_headers :: "env \<Rightarrow> request \<Rightarrow> (app_error, call_headers) result" where
  "read_call_headers env rq =
     and_then (require_header rq ''x-sauron-agent-id'' (missing ''x-sauron-agent-id header required'')) (\<lambda>agent_id.
     and_then (require_header rq ''x-sauron-call-ts'' (missing ''x-sauron-call-ts header required'')) (\<lambda>call_ts_str.
     and_then (ok_or (parse_i64 call_ts_str)
       (unauthorized ''call_sig_bad_timestamp'' ''x-sauron-call-ts must be unix milliseconds'')) (\<lambda>call_ts.
     and_then (require_header rq ''x-sauron-call-nonce'' (missing ''x-sauron-call-nonce header required'')) (\<lambda>nonce.
     and_then (require_header rq ''x-sauron-call-sig'' (missing ''x-sauron-call-sig header required'')) (\<lambda>sig_b64.
     and_then (require_header rq ''x-sauron-protocol-version''
       (Detailed 426 ''call_sig_protocol_version'' (Msg ''x-sauron-protocol-version: 2 required''))) (\<lambda>version.
     and_then (check (version = CALL_SIGNATURE_V3_VERSION \<or> version = CALL_SIGNATURE_VERSION)
       (Detailed 426 ''call_sig_protocol_version''
         (Fmt ''unsupported call-signature protocol version {protocol_version}; expected {}''
           [AStr version, AStr CALL_SIGNATURE_VERSION]))) (\<lambda>_.
     and_then (require_header rq ''x-sauron-call-audience'' (missing ''x-sauron-call-audience header required'')) (\<lambda>claimed_audience.
     let expected_audience = (case env ''SAURON_CALL_AUDIENCE'' of Some a \<Rightarrow> a | None \<Rightarrow> ''sauron-core'') in
     and_then (check (claimed_audience = expected_audience)
       (unauthorized ''call_sig_audience_mismatch'' ''call signature audience mismatch'')) (\<lambda>_.
     Ok \<lparr>ch_agent_id = agent_id, ch_call_ts_str = call_ts_str, ch_call_ts = call_ts, ch_nonce = nonce,
        ch_sig_b64 = sig_b64, ch_is_v3 = (version = CALL_SIGNATURE_V3_VERSION),
        ch_audience = expected_audience\<rparr>)))))))))"

text \<open>The fields of the payload that the request determines, in the two protocols.\<close>

definition call_input :: "('z) web_scheme \<Rightarrow> request \<Rightarrow> call_headers \<Rightarrow> string \<Rightarrow> call_signature_input" where
  "call_input W rq h digest =
     \<lparr>cs_agent_id = ch_agent_id h, cs_tenant_id = request_tenant rq, cs_audience = ch_audience h,
      cs_method = to_ascii_uppercase (rq_method rq),
      cs_target_uri = (case rq_path_and_query rq of Some u \<Rightarrow> u | None \<Rightarrow> rq_path rq),
      cs_content_type = to_ascii_lowercase (trim
        (case header_str rq ''content-type'' of Some t \<Rightarrow> t | None \<Rightarrow> [])),
      cs_body_sha256_hex = hex_encode W (sha256 W (rq_body rq)), cs_config_digest = digest,
      cs_timestamp_ms = ch_call_ts_str h, cs_nonce = ch_nonce h\<rparr>"

definition call_v3_input :: "call_signature_input \<Rightarrow> string \<Rightarrow> string \<Rightarrow> string \<Rightarrow> call_signature_v3_input" where
  "call_v3_input i mandate run expires =
     \<lparr>c3_agent_id = cs_agent_id i, c3_tenant_id = cs_tenant_id i, c3_audience = cs_audience i,
      c3_method = cs_method i, c3_target_uri = cs_target_uri i, c3_content_type = cs_content_type i,
      c3_body_sha256_hex = cs_body_sha256_hex i, c3_config_digest = cs_config_digest i,
      c3_mandate_digest = mandate, c3_run_id = run, c3_timestamp_ms = cs_timestamp_ms i,
      c3_expires_at_ms = expires, c3_nonce = cs_nonce i\<rparr>"

definition signing_payload ::
  "('z) web_scheme \<Rightarrow> request \<Rightarrow> call_headers \<Rightarrow> agent_row \<Rightarrow> string \<Rightarrow> i64 \<Rightarrow> (app_error, string) result" where
  "signing_payload W rq h row digest now_ms =
     (if ch_is_v3 h
      then and_then (read_v3_fields rq (ag_owner_mandate_hash row) now_ms) (\<lambda>(mandate, run, expires).
        ok_or (call_signature_v3_payload (call_v3_input (call_input W rq h digest) mandate run expires)) Panicked)
      else ok_or (call_signature_payload (call_input W rq h digest)) Panicked)"

definition verify_call_bytes ::
  "('z) web_scheme \<Rightarrow> string \<Rightarrow> string \<Rightarrow> string \<Rightarrow> (app_error, unit) result" where
  "verify_call_bytes W pop_pk sig_b64 payload =
     and_then (decode_pop_key W pop_pk) (\<lambda>pk.
     and_then (valid_ed_key W pk) (\<lambda>_.
     and_then (ok_or (b64u_decode W sig_b64)
       (unauthorized ''call_sig_bad_signature_encoding'' ''x-sauron-call-sig invalid base64url'')) (\<lambda>sig.
     and_then (check (length sig = 64)
       (unauthorized ''call_sig_bad_signature_encoding'' ''x-sauron-call-sig wrong size'')) (\<lambda>_.
     check (ed_verify W pk payload sig)
       (unauthorized ''call_sig_invalid'' ''call signature verification failed'')))))"

text \<open>The checks of \<open>try_verify_call_sig\<close>, up to the consumption of the nonce.\<close>

definition check_call_sig ::
  "env \<Rightarrow> ('z) web_scheme \<Rightarrow> any_env \<Rightarrow> i64 \<Rightarrow> i64 \<Rightarrow> request \<Rightarrow> database \<Rightarrow> (app_error, call_headers) result" where
  "check_call_sig env W conn now_ms now rq db =
     and_then (read_call_headers env rq) (\<lambda>h.
     and_then (check (\<not> outside_skew now_ms (ch_call_ts h) (call_sig_skew_ms env))
       (unauthorized ''call_sig_timestamp_skew'' ''x-sauron-call-ts outside acceptable skew window'')) (\<lambda>_.
     and_then (lookup_agent conn db (ch_agent_id h) (request_tenant rq) now) (\<lambda>row.
     and_then (require_pop_key row) (\<lambda>_.
     and_then (require_header rq ''x-sauron-agent-config-digest''
       (missing ''x-sauron-agent-config-digest header required (Gap 4 enforcement)'')) (\<lambda>digest.
     and_then (check (digest = ag_agent_checksum row) (unauthorized ''call_sig_config_digest_mismatch''
       ''agent runtime config digest does not match registered checksum (config drift; call /agent/<id>/checksum/update to rotate)'')) (\<lambda>_.
     and_then (signing_payload W rq h row digest now_ms) (\<lambda>payload.
     and_then (verify_call_bytes W (ag_pop_public_key_b64u row) (ch_sig_b64 h) payload) (\<lambda>_.
     Ok h))))))))"

definition nonce_exp :: "env \<Rightarrow> i64 \<Rightarrow> i64" where
  "nonce_exp env call_ts = i64_wrap (i64_div call_ts 1000 + i64_div (call_sig_skew_ms env) 1000 + 60)"

definition consume_call ::
  "env \<Rightarrow> repo \<Rightarrow> call_headers \<Rightarrow> database \<Rightarrow> (app_error, string) result \<times> database" where
  "consume_call env repo h db =
     (case consume_call_nonce repo (ch_agent_id h) (ch_nonce h) (nonce_exp env (ch_call_ts h)) db of
        (Ok _, db') \<Rightarrow> (Ok (ch_agent_id h), db')
      | (Err (Replay s), db') \<Rightarrow> (Err (Detailed 409 ''call_sig_nonce_reused'' (Msg s)), db')
      | (Err (Backend s), db') \<Rightarrow> (Err (Internal (Msg s)), db'))"

definition uses_dpop :: "env \<Rightarrow> request \<Rightarrow> bool" where
  "uses_dpop env rq \<longleftrightarrow>
     contains_key rq ''dpop'' \<and> \<not> contains_key rq ''x-sauron-call-sig'' \<and> accept_dpop env"

text \<open>The agent the call is attributed to, or the error.\<close>

definition try_verify_call_sig ::
  "env \<Rightarrow> ('z) web_scheme \<Rightarrow> server \<Rightarrow> i64 \<Rightarrow> i64 \<Rightarrow> request \<Rightarrow> database \<Rightarrow> (app_error, string) result \<times> database" where
  "try_verify_call_sig env W srv now_ms now rq db =
     (if uses_dpop env rq then verify_dpop_request env W srv now_ms now rq db
      else case check_call_sig env W (srv_conn srv) now_ms now rq db of
        Err e \<Rightarrow> (Err e, db)
      | Ok h \<Rightarrow> consume_call env (srv_repo srv) h db)"

section \<open>The middleware\<close>

definition enforce_signed_agent_body_binding ::
  "('z) web_scheme \<Rightarrow> string \<Rightarrow> string \<Rightarrow> (app_error, unit) result" where
  "enforce_signed_agent_body_binding W agent_id body =
     (if body = [] then Ok ()
      else case json_parse W body of
        None \<Rightarrow> Ok ()
      | Some v \<Rightarrow>
          (case str_claim v ''agent_id'' of
             Some body_agent_id \<Rightarrow>
               check (body_agent_id = agent_id) (unauthorized ''call_sig_agent_id_mismatch''
                 ''signed agent_id does not match request body agent_id'')
           | None \<Rightarrow> Ok ()))"

text \<open>The insert does not name the tenant, so the row gets the default of the column.\<close>

definition log_denied_egress ::
  "('z) web_scheme \<Rightarrow> any_env \<Rightarrow> request \<Rightarrow> nat \<Rightarrow> i64 \<Rightarrow> database \<Rightarrow> database" where
  "log_denied_egress W conn rq code now db =
     (if rq_path rq \<noteq> ''/agent/egress/log'' then db
      else
        let v = (case json_parse W (rq_body rq) of Some v \<Rightarrow> v | None \<Rightarrow> JNull);
            field_or = (\<lambda>k d. case str_claim v k of Some s \<Rightarrow> s | None \<Rightarrow> d)
        in case str_claim v ''agent_id'' of
             None \<Rightarrow> db
           | Some agent_id \<Rightarrow>
               if agent_id = [] then db
               else if lock_fault conn \<noteq> None \<or> stmt_fault conn 0 \<noteq> None then db
               else db\<lparr>agent_egress_log := agent_egress_log db @
                 [\<lparr>eg_tenant_id = DEFAULT_TENANT, eg_agent_id = agent_id,
                   eg_target_host = field_or ''target_host'' [], eg_target_path = field_or ''target_path'' [],
                   eg_method = field_or ''method'' (rq_method rq), eg_body_hash_hex = field_or ''body_hash_hex'' [],
                   eg_status_code = int code, eg_ts = now, eg_allowed = 0\<rparr>]\<rparr>)"

definition CALL_SIG_EXEMPT_PATHS :: "string list" where
  "CALL_SIG_EXEMPT_PATHS =
     [''/agent/register'', ''/agent/token'', ''/agent/attestation/challenge'', ''/agent/pop/challenge'',
      ''/agent/verify'', ''/agent/action/receipt/verify'', ''/agent/action/anon'', ''/agent/usage'']"

definition call_sig_required_for :: "string \<Rightarrow> string \<Rightarrow> bool" where
  "call_sig_required_for method path =
     (case strip_prefix path ''/agent/'' of
        None \<Rightarrow> False
      | Some rest \<Rightarrow>
          if path \<in> set CALL_SIG_EXEMPT_PATHS then False
          else if method = ''GET'' \<and>
            (case split_on CHR ''/'' rest of
               [a, b, c] \<Rightarrow> a = ''rings'' \<and> c = ''members'' \<and> b \<noteq> []
             | _ \<Rightarrow> False) then False
          else if (rest \<noteq> [] \<and> CHR ''/'' \<notin> set rest) \<and> (method = ''GET'' \<or> method = ''HEAD'') then False
          else True)"

definition CALL_SIG_BODY_LIMIT :: nat where
  "CALL_SIG_BODY_LIMIT = 4 * 1024 * 1024"

text \<open>
  What the middleware does with a request: pass it on, with the agent that signed it or without
  one, or answer it with an error.
\<close>

datatype disposition = Forward "string option" | Refuse app_error

definition require_call_signature ::
  "env \<Rightarrow> ('z) web_scheme \<Rightarrow> server \<Rightarrow> i64 \<Rightarrow> i64 \<Rightarrow> request \<Rightarrow> database \<Rightarrow> disposition \<times> database" where
  "require_call_signature env W srv now_ms now rq db =
     (let enforce = require_or_default env ''SAURON_REQUIRE_CALL_SIG'' False True in
      if length (rq_body rq) > CALL_SIG_BODY_LIMIT
      then (Refuse (Detailed 413 ''payload_too_large'' (Msg ''request body too large'')), db)
      else case try_verify_call_sig env W srv now_ms now rq db of
        (Ok agent_id, db') \<Rightarrow>
          (case enforce_signed_agent_body_binding W agent_id (rq_body rq) of
             Ok _ \<Rightarrow> (Forward (Some agent_id), db')
           | Err e \<Rightarrow> (Refuse e, db'))
      | (Err e, db') \<Rightarrow>
          if e = Panicked then (Refuse e, db')
          else if enforce then (Refuse e, log_denied_egress W (srv_conn srv) rq (status e) now db')
          else (Forward None, db'))"

definition require_call_signature_default_deny ::
  "env \<Rightarrow> ('z) web_scheme \<Rightarrow> server \<Rightarrow> i64 \<Rightarrow> i64 \<Rightarrow> request \<Rightarrow> database \<Rightarrow> disposition \<times> database" where
  "require_call_signature_default_deny env W srv now_ms now rq db =
     (if \<not> call_sig_required_for (rq_method rq) (rq_path rq) then (Forward None, db)
      else require_call_signature env W srv now_ms now rq db)"

section \<open>The clock test\<close>

lemma check_Ok_iff [simp]: "check b e = Ok u \<longleftrightarrow> b"
  by (simp add: check_def)

lemma require_header_Ok_iff [simp]: "require_header rq n e = Ok v \<longleftrightarrow> header_str rq n = Some v"
  by (simp add: require_header_def)

lemma skew_bounds: "1000 \<le> call_sig_skew_ms env" "call_sig_skew_ms env \<le> 600000"
  using clamp_between_bounds [of 1000 "600000 :: i64"] by (simp_all add: call_sig_skew_ms_def)

lemma outside_skew_nonneg:
  assumes "0 \<le> now" "is_i64 now" "0 \<le> ts" "is_i64 ts"
  shows "outside_skew now ts skew \<longleftrightarrow> skew < \<bar>now - ts\<bar>"
proof -
  have "is_i64 (now - ts)" "is_i64 \<bar>now - ts\<bar>"
    using assms by (auto simp: is_i64_def i64_MIN_def i64_MAX_def)
  then show ?thesis
    by (simp add: outside_skew_def i64_abs_def)
qed

lemma nonce_exp_eq:
  assumes "0 \<le> ts" "is_i64 ts"
  shows "nonce_exp env ts = ts div 1000 + call_sig_skew_ms env div 1000 + 60"
proof -
  have "is_i64 (ts div 1000 + call_sig_skew_ms env div 1000 + 60)"
    using assms skew_bounds [of env] by (simp add: is_i64_def i64_MIN_def i64_MAX_def)
  then show ?thesis
    using assms skew_bounds [of env] by (simp add: nonce_exp_def i64_div_nonneg)
qed

text \<open>A nonce that a sweep may delete belongs to a signature that is outside the window.\<close>

lemma swept_nonce_is_stale:
  assumes "nonce_exp env ts \<le> x" "x < ms div 1000" "0 \<le> ts" "is_i64 ts"
  shows "ts + call_sig_skew_ms env < ms"
proof -
  let ?k = "call_sig_skew_ms env"
  have "ts div 1000 + ?k div 1000 + 60 < ms div 1000"
    using assms nonce_exp_eq [of ts env] by linarith
  moreover have "ts < 1000 * (ts div 1000) + 1000" "?k < 1000 * (?k div 1000) + 1000" "1000 * (ms div 1000) \<le> ms"
    by presburger+
  ultimately show ?thesis
    by linarith
qed

section \<open>What an accepted call has passed\<close>

lemma lookup_agent_Ok_iff:
  "lookup_agent conn db a t now = Ok row \<longleftrightarrow>
     lock_fault conn = None \<and> stmt_fault conn 0 = None \<and> live_agent db a t now = Some row"
  by (simp add: lookup_agent_def)

lemma live_agent_SomeD:
  assumes "live_agent db a t now = Some row"
  shows "row \<in> set (agents db)" "ag_agent_id row = a" "ag_tenant_id row = t" "ag_revoked row = 0" "now < ag_expires_at row"
  using assms by (auto simp: live_agent_def find_Some_iff)

lemma read_call_headers_OkD:
  assumes "read_call_headers env rq = Ok h"
  shows "parse_i64 (ch_call_ts_str h) = Some (ch_call_ts h)"
    and "header_str rq ''x-sauron-agent-id'' = Some (ch_agent_id h)"
    and "header_str rq ''x-sauron-call-nonce'' = Some (ch_nonce h)"
    and "header_str rq ''x-sauron-call-sig'' = Some (ch_sig_b64 h)"
  using assms by (auto simp: read_call_headers_def and_then_eq_Ok_iff Let_def)

lemma check_call_sig_OkD:
  assumes "check_call_sig env W conn now_ms now rq db = Ok h"
  obtains row payload where
    "read_call_headers env rq = Ok h"
    "\<not> outside_skew now_ms (ch_call_ts h) (call_sig_skew_ms env)"
    "live_agent db (ch_agent_id h) (request_tenant rq) now = Some row"
    "header_str rq ''x-sauron-agent-config-digest'' = Some (ag_agent_checksum row)"
    "signing_payload W rq h row (ag_agent_checksum row) now_ms = Ok payload"
    "verify_call_bytes W (ag_pop_public_key_b64u row) (ch_sig_b64 h) payload = Ok ()"
  using assms by (auto simp: check_call_sig_def and_then_eq_Ok_iff lookup_agent_Ok_iff)

lemma verify_call_bytes_Ok_iff:
  "verify_call_bytes W k s p = Ok () \<longleftrightarrow>
   (\<exists>pk sig. b64u_decode W (trim k) = Some pk \<and> length pk = 32 \<and> ed_key_ok W pk \<and>
      b64u_decode W s = Some sig \<and> length sig = 64 \<and> ed_verify W pk p sig)"
  by (auto simp: verify_call_bytes_def decode_pop_key_def valid_ed_key_def and_then_eq_Ok_iff)

lemma consume_call_cases:
  assumes "consume_call env repo h db = (r, db')"
  obtains e where "r = Err e" "db' = db"
    | "r = Ok (ch_agent_id h)" "agent_call_nonces db (ch_agent_id h, ch_nonce h) = None"
      "db' = db\<lparr>agent_call_nonces := (agent_call_nonces db)((ch_agent_id h, ch_nonce h) \<mapsto> nonce_exp env (ch_call_ts h))\<rparr>"
proof -
  obtain q d where q: "consume_call_nonce repo (ch_agent_id h) (ch_nonce h) (nonce_exp env (ch_call_ts h)) db = (q, d)"
    by fastforce
  then show ?thesis
  proof (cases rule: consume_call_nonce_cases)
    case (1 e)
    then show ?thesis
      using assms q that(1) by (cases e) (simp_all add: consume_call_def, blast+)
  next
    case 2
    then show ?thesis
      using assms q that(2) by (simp add: consume_call_def)
  qed
qed

lemma consume_jti_cases:
  assumes "consume_jti repo a j x db = (r, db')"
  obtains e where "r = Err e" "db' = db"
    | "r = Ok ()" "agent_call_nonces db (a, JTI_PREFIX @ j) = None"
      "db' = db\<lparr>agent_call_nonces := (agent_call_nonces db)((a, JTI_PREFIX @ j) \<mapsto> x)\<rparr>"
proof -
  obtain q d where q: "consume_call_nonce repo a (JTI_PREFIX @ j) x db = (q, d)"
    by fastforce
  then show ?thesis
  proof (cases rule: consume_call_nonce_cases)
    case (1 e)
    then show ?thesis
      using assms q that(1) by (cases e) (simp_all add: consume_jti_def, blast+)
  next
    case 2
    then show ?thesis
      using assms q that(2) by (simp add: consume_jti_def)
  qed
qed

section \<open>Credentials are accepted once\<close>

text \<open>
  The credential of a call: the agent, the nonce and the time it was signed for.  For a proof
  they are read from the claims of the proof.
\<close>

definition dpop_claims :: "('z) web_scheme \<Rightarrow> request \<Rightarrow> (app_error, dpop_proof) result" where
  "dpop_claims W rq =
     (case header_str rq ''dpop'' of
        None \<Rightarrow> Err (malformed ''DPoP header is not valid ascii'')
      | Some p \<Rightarrow>
          (case splitn 3 CHR ''.'' (trim p) of
             [h_b64, c_b64, s_b64] \<Rightarrow>
               and_then (decode_json_part W c_b64 ''DPoP proof claims are not valid JSON'') read_proof_claims
           | _ \<Rightarrow> Err (malformed ''DPoP proof must have three dot-separated parts'')))"

definition call_key :: "env \<Rightarrow> ('z) web_scheme \<Rightarrow> request \<Rightarrow> (string \<times> string \<times> i64) option" where
  "call_key env W rq =
     (if uses_dpop env rq
      then (case (header_str rq ''x-sauron-agent-id'', dpop_claims W rq) of
              (Some a, Ok p) \<Rightarrow> Some (a, JTI_PREFIX @ dp_jti p, i64_clamp (dp_iat p * 1000))
            | _ \<Rightarrow> None)
      else (case read_call_headers env rq of
              Ok h \<Rightarrow> Some (ch_agent_id h, ch_nonce h, ch_call_ts h)
            | Err _ \<Rightarrow> None))"

lemma verify_dpop_proof_claims:
  assumes "header_str rq ''dpop'' = Some p" "verify_dpop_proof W p k = Ok c"
  shows "dpop_claims W rq = Ok c"
  using assms by (auto simp: verify_dpop_proof_def dpop_claims_def and_then_eq_Ok_iff split: list.splits)

lemma check_dpop_request_OkD:
  assumes "check_dpop_request env W conn now_ms now rq db = Ok (a, p)"
  shows "header_str rq ''x-sauron-agent-id'' = Some a" "dpop_claims W rq = Ok p"
    "\<not> outside_skew now_ms (i64_clamp (dp_iat p * 1000)) (call_sig_skew_ms env)"
    "\<exists>row. live_agent db a (request_tenant rq) now = Some row"
  using assms
  by (auto simp: check_dpop_request_def and_then_eq_Ok_iff check_context_def Let_def lookup_agent_Ok_iff
      intro: verify_dpop_proof_claims)

text \<open>
  One call, seen through its credential: it is refused and changes nothing, or the credential was fresh, its
  time is inside the window, and it is now in the store until the time \<open>nonce_exp\<close>.
\<close>

lemma try_verify_call_sig_cases:
  assumes "try_verify_call_sig env W srv now_ms now rq db = (r, db')" "0 \<le> now_ms" "now_ms < 2 ^ 62"
    and "\<And>a n ts. call_key env W rq = Some (a, n, ts) \<Longrightarrow> 0 \<le> ts"
  obtains e where "r = Err e" "db' = db"
    | a n ts where "r = Ok a" "call_key env W rq = Some (a, n, ts)" "is_i64 ts"
      "\<bar>now_ms - ts\<bar> \<le> call_sig_skew_ms env"
      "agent_call_nonces db (a, n) = None"
      "db' = db\<lparr>agent_call_nonces := (agent_call_nonces db)((a, n) \<mapsto> nonce_exp env ts)\<rparr>"
proof (cases "uses_dpop env rq")
  case False
  show ?thesis
  proof (cases "check_call_sig env W (srv_conn srv) now_ms now rq db")
    case (Inl e)
    then show ?thesis
      using assms(1) False that(1) by (auto simp: try_verify_call_sig_def)
  next
    case (Inr h)
    then have h: "read_call_headers env rq = Ok h" "\<not> outside_skew now_ms (ch_call_ts h) (call_sig_skew_ms env)"
      by (auto elim: check_call_sig_OkD)
    then have key: "call_key env W rq = Some (ch_agent_id h, ch_nonce h, ch_call_ts h)"
      using False by (simp add: call_key_def)
    have ts: "0 \<le> ch_call_ts h" "is_i64 (ch_call_ts h)"
      using assms(4) [OF key] read_call_headers_OkD(1) [OF h(1)] parse_i64_is_i64 by blast+
    have "\<bar>now_ms - ch_call_ts h\<bar> \<le> call_sig_skew_ms env"
      using h(2) ts assms(2,3)
      by (subst (asm) outside_skew_nonneg) (simp_all add: is_i64_def i64_MIN_def i64_MAX_def)
    moreover have "consume_call env (srv_repo srv) h db = (r, db')"
      using assms(1) False Inr by (simp add: try_verify_call_sig_def)
    ultimately show ?thesis
      using key ts that by (elim consume_call_cases) blast+
  qed
next
  case True
  show ?thesis
  proof (cases "check_dpop_request env W (srv_conn srv) now_ms now rq db")
    case (Inl e)
    then show ?thesis
      using assms(1) True that(1) by (auto simp: try_verify_call_sig_def verify_dpop_request_def)
  next
    case (Inr x)
    obtain a p where xap: "x = (a, p)"
      by fastforce
    note ok = check_dpop_request_OkD [OF Inr [unfolded xap]]
    let ?ts = "i64_clamp (dp_iat p * 1000)"
    have key: "call_key env W rq = Some (a, JTI_PREFIX @ dp_jti p, ?ts)"
      using True ok by (simp add: call_key_def)
    then have ts: "0 \<le> ?ts" "is_i64 ?ts"
      using assms(4) by auto
    have near: "\<bar>now_ms - ?ts\<bar> \<le> call_sig_skew_ms env"
      using ok(3) ts assms(2,3)
      by (subst (asm) outside_skew_nonneg) (simp_all add: is_i64_def i64_MIN_def i64_MAX_def)
    then have "?ts < 9223372036854775807"
      using assms(3) skew_bounds [of env] by simp
    then have eq: "?ts = dp_iat p * 1000" "0 \<le> dp_iat p"
      using ts(1) by (auto simp: i64_clamp_def i64_MAX_def i64_MIN_def split: if_splits)
    have x: "nonce_exp env ?ts = i64_wrap (dp_iat p + i64_div (call_sig_skew_ms env) 1000 + 60)"
      using eq by (simp add: nonce_exp_def i64_div_nonneg)
    obtain q d where q: "consume_jti (srv_repo srv) a (dp_jti p) (nonce_exp env ?ts) db = (q, d)"
      by fastforce
    have r: "(r, db') = (case q of Ok _ \<Rightarrow> (Ok a, d) | Err e \<Rightarrow> (Err e, d))"
      using assms(1) True Inr xap q [unfolded x]
      by (simp add: try_verify_call_sig_def verify_dpop_request_def Let_def split: sum.splits)
    from q show ?thesis
    proof (cases rule: consume_jti_cases)
      case (1 e)
      then show ?thesis
        using r that(1) by simp
    next
      case 2
      then show ?thesis
        using r that(2) [OF _ key ts(2) near] by simp
    qed
  qed
qed

text \<open>
  The events that touch the store: calls, and passes of the sweep.  The state is the database with the
  time of the last event, in milliseconds.
\<close>

datatype call_event =
    Call server i64 i64 request
  | Sweep any_env i64

fun event_time :: "call_event \<Rightarrow> i64" where
  "event_time (Call _ now_ms _ _) = now_ms"
| "event_time (Sweep _ ms) = ms"

fun present_call :: "env \<Rightarrow> ('z) web_scheme \<Rightarrow> call_event \<Rightarrow> database \<times> i64 \<Rightarrow> bool \<times> database \<times> i64" where
  "present_call env W (Call srv now_ms now rq) (db, clk) =
     (case try_verify_call_sig env W srv now_ms now rq db of (r, db') \<Rightarrow> (is_ok r, db', now_ms))"
| "present_call env W (Sweep conn ms) (db, clk) = (False, gc_pass env conn (ms div 1000) db, ms)"

fun event_key :: "env \<Rightarrow> ('z) web_scheme \<Rightarrow> call_event \<Rightarrow> (string \<times> string \<times> i64) option" where
  "event_key env W (Call _ _ _ rq) = call_key env W rq"
| "event_key env W (Sweep _ _) = None"

text \<open>A credential whose row is in the store long enough, or whose time is past the window.\<close>

definition call_spent :: "env \<Rightarrow> database \<times> i64 \<Rightarrow> (string \<times> string \<times> i64) option \<Rightarrow> bool" where
  "call_spent env s k =
     (case (s, k) of
        ((db, clk), Some (a, n, ts)) \<Rightarrow>
          0 \<le> ts \<and> is_i64 ts \<and>
          ((\<exists>x. agent_call_nonces db (a, n) = Some x \<and> nonce_exp env ts \<le> x) \<or> ts + call_sig_skew_ms env < clk)
      | (_, None) \<Rightarrow> False)"

definition event_ok :: "env \<Rightarrow> ('z) web_scheme \<Rightarrow> call_event \<Rightarrow> bool" where
  "event_ok env W e \<longleftrightarrow> 0 \<le> event_time e \<and> event_time e < 2 ^ 62 \<and>
     (case event_key env W e of Some (a, n, ts) \<Rightarrow> 0 \<le> ts | None \<Rightarrow> True)"

definition call_timely :: "env \<Rightarrow> ('z) web_scheme \<Rightarrow> database \<times> i64 \<Rightarrow> call_event \<Rightarrow> bool" where
  "call_timely env W s e \<longleftrightarrow> snd s \<le> event_time e \<and> event_ok env W e"

lemma gc_pass_nonces:
  "agent_call_nonces (gc_pass env conn now db) k = Some x \<longleftrightarrow>
     agent_call_nonces db k = Some x \<and> (lock_fault conn = None \<longrightarrow> stmt_fault conn 2 = None \<longrightarrow> now \<le> x)"
  by (auto simp: gc_pass_def Let_def sweep_def purge_Some_iff split: option.splits)

lemma call_spent_SomeE:
  assumes "call_spent env (db, clk) k"
  obtains a n ts where "k = Some (a, n, ts)" "0 \<le> ts" "is_i64 ts"
    "(\<exists>x. agent_call_nonces db (a, n) = Some x \<and> nonce_exp env ts \<le> x) \<or> ts + call_sig_skew_ms env < clk"
  using assms by (auto simp: call_spent_def split: option.splits)

lemma call_spent_kept:
  assumes "call_spent env (db, clk) k" "clk \<le> clk'"
    and "\<And>a n x. agent_call_nonces db (a, n) = Some x \<Longrightarrow>
      agent_call_nonces db' (a, n) = Some x \<or> x < clk' div 1000"
  shows "call_spent env (db', clk') k"
  using assms(1)
proof (rule call_spent_SomeE)
  fix a n ts
  assume k: "k = Some (a, n, ts)" "0 \<le> ts" "is_i64 ts"
    "(\<exists>x. agent_call_nonces db (a, n) = Some x \<and> nonce_exp env ts \<le> x) \<or> ts + call_sig_skew_ms env < clk"
  then consider x where "agent_call_nonces db' (a, n) = Some x" "nonce_exp env ts \<le> x"
    | x where "x < clk' div 1000" "nonce_exp env ts \<le> x"
    | "ts + call_sig_skew_ms env < clk"
    using assms(3) by blast
  then show ?thesis
    using k assms(2) swept_nonce_is_stale [of env ts _ clk'] by cases (auto simp: call_spent_def)
qed

lemma event_ok_Call:
  assumes "event_ok env W (Call srv now_ms now rq)"
  shows "0 \<le> now_ms" "now_ms < 2 ^ 62" "\<And>a n ts. call_key env W rq = Some (a, n, ts) \<Longrightarrow> 0 \<le> ts"
  using assms by (auto simp: event_ok_def)

interpretation calls: single_use "call_spent env" "present_call env W" "event_key env W" "call_timely env W"
  for env and W :: "('z) web_scheme"
proof (unfold_locales, goal_cases)
  case (1 s e s')
  then obtain srv now_ms now rq where e: "e = Call srv now_ms now rq"
    by (cases e; cases s) auto
  obtain db clk where s: "s = (db, clk)"
    by fastforce
  note ok = event_ok_Call [of env W srv now_ms now rq]
  obtain r db' where r: "try_verify_call_sig env W srv now_ms now rq db = (r, db')"
    by fastforce
  from 1 e s r have "is_ok r" "s' = (db', now_ms)" "event_ok env W (Call srv now_ms now rq)"
    by (auto simp: call_timely_def)
  with r ok show ?case
    by (elim try_verify_call_sig_cases) (auto simp: e call_spent_def)
next
  case (2 s e)
  obtain db clk where s: "s = (db, clk)"
    by fastforce
  show ?case
  proof (cases e)
    case (Call srv now_ms now rq)
    obtain r db' where r: "try_verify_call_sig env W srv now_ms now rq db = (r, db')"
      by fastforce
    have "event_ok env W (Call srv now_ms now rq)" "clk \<le> now_ms"
      using 2(1) Call s by (simp_all add: call_timely_def)
    with r have "\<not> is_ok r"
      using 2(2) event_ok_Call [of env W srv now_ms now rq]
      by (elim try_verify_call_sig_cases) (auto simp: s Call call_spent_def)
    then show ?thesis
      using Call s r by simp
  qed (simp add: s)
next
  case (3 s e k)
  obtain db clk where s: "s = (db, clk)"
    by fastforce
  show ?case
  proof (cases e)
    case (Call srv now_ms now rq)
    obtain r db' where r: "try_verify_call_sig env W srv now_ms now rq db = (r, db')"
      by fastforce
    have "event_ok env W (Call srv now_ms now rq)" "clk \<le> now_ms"
      using 3(1) Call s by (simp_all add: call_timely_def)
    with r have "agent_call_nonces db (a, n) = Some x \<Longrightarrow> agent_call_nonces db' (a, n) = Some x" for a n x
      using event_ok_Call [of env W srv now_ms now rq] by (elim try_verify_call_sig_cases) auto
    then have "call_spent env (db', now_ms) k"
      using call_spent_kept [of env db clk k now_ms db'] 3(2) s \<open>clk \<le> now_ms\<close> by blast
    then show ?thesis
      using Call s r by simp
  next
    case (Sweep conn ms)
    have "clk \<le> ms"
      using 3(1) Sweep s by (simp add: call_timely_def)
    moreover have "agent_call_nonces (gc_pass env conn (ms div 1000) db) (a, n) = Some x \<or> x < ms div 1000"
      if "agent_call_nonces db (a, n) = Some x" for a n x
      using that gc_pass_nonces [of env conn "ms div 1000" db "(a, n)" x] by auto
    ultimately have "call_spent env (gc_pass env conn (ms div 1000) db, ms) k"
      using call_spent_kept [of env db clk k ms] 3(2) s by blast
    then show ?thesis
      using Sweep s by simp
  qed
qed

lemma present_call_clock: "snd (snd (present_call env W e s)) = event_time e"
  by (cases e; cases s) (simp_all split: prod.splits)

lemma calls_timely:
  assumes "sorted (clk # map event_time es)" "list_all (event_ok env W) es"
  shows "timely_run (call_timely env W) (present_call env W) es (db, clk)"
  using assms
proof (induction es arbitrary: db clk)
  case (Cons e es)
  obtain ok db' clk' where p: "present_call env W e (db, clk) = (ok, db', clk')"
    using prod_cases3 by blast
  then have "clk' = event_time e"
    using present_call_clock [of env W e "(db, clk)"] by simp
  then show ?case
    using Cons.prems Cons.IH [of clk' db'] p by (simp add: call_timely_def)
qed simp

section \<open>A call that passes\<close>

definition demo_web :: web where
  "demo_web = \<lparr>sha256 = (\<lambda>s. take 32 s), hex_encode = (\<lambda>s. s),
     b64u_decode = (\<lambda>s. if s = ''pk'' then Some (replicate 32 CHR ''k'') else if s = ''sig'' then Some (replicate 64 CHR ''s'') else None),
     b64u_encode = (\<lambda>s. s), ed_key_ok = (\<lambda>k. k = replicate 32 CHR ''k''),
     ed_verify = (\<lambda>k m s. k = replicate 32 CHR ''k'' \<and> s = replicate 64 CHR ''s''),
     json_parse = (\<lambda>s. None), uri_parse = (\<lambda>s. None), jwt_tnt = (\<lambda>k t. None)\<rparr>"

definition demo_agent :: agent_row where
  "demo_agent = \<lparr>ag_agent_id = ''agt-1'', ag_tenant_id = ''default'', ag_human_key_image = ''h'',
     ag_agent_checksum = ''sha256:d'', ag_intent_json = ''{}'', ag_assurance_level = ''delegated_nonbank'',
     ag_public_key_hex = [], ag_ring_key_image_hex = [], ag_issued_at = 0, ag_expires_at = 5000, ag_revoked = 0,
     ag_parent_agent_id = None, ag_delegation_depth = 0, ag_pop_jkt = [], ag_pop_public_key_b64u = ''pk'',
     ag_owner_mandate_hash = [],
     ag_owner_mandate_sig_b64u = [], ag_attestation_blob = None, ag_attestation_kind = [],
     ag_attestation_pubkey_b64u = None, ag_attestation_pcr_set = None\<rparr>"

definition demo_db :: database where
  "demo_db = empty_database\<lparr>agents := [demo_agent]\<rparr>"

definition demo_server :: server where
  "demo_server = \<lparr>srv_conn = healthy, srv_repo = sqlite_healthy\<rparr>"

definition demo_request :: request where
  "demo_request = \<lparr>rq_method = ''POST'', rq_path = ''/agent/spend'', rq_path_and_query = Some ''/agent/spend'',
     rq_headers = [(''x-sauron-agent-id'', ''agt-1''), (''x-sauron-call-ts'', ''1000000''),
       (''x-sauron-call-nonce'', ''n1''), (''x-sauron-call-sig'', ''sig''), (''x-sauron-protocol-version'', ''2''),
       (''x-sauron-call-audience'', ''sauron-core''), (''x-sauron-agent-config-digest'', ''sha256:d'')],
     rq_body = ''{}'', rq_tenant = None\<rparr>"

definition no_env :: env where
  "no_env = (\<lambda>v. None)"

definition demo_call_headers :: call_headers where
  "demo_call_headers = \<lparr>ch_agent_id = ''agt-1'', ch_call_ts_str = ''1000000'', ch_call_ts = 1000000, ch_nonce = ''n1'',
     ch_sig_b64 = ''sig'', ch_is_v3 = False, ch_audience = ''sauron-core''\<rparr>"

lemma demo_ts: "parse_i64 ''1000000'' = Some 1000000"
  by (simp add: parse_i64_def parse_int_def all_digits_def dec_value_def is_ascii_digit_def byte_def
      is_i64_def i64_MIN_def i64_MAX_def)

lemma demo_header_str:
  "header_str demo_request ''x-sauron-agent-id'' = Some ''agt-1''"
  "header_str demo_request ''x-sauron-call-ts'' = Some ''1000000''"
  "header_str demo_request ''x-sauron-call-nonce'' = Some ''n1''"
  "header_str demo_request ''x-sauron-call-sig'' = Some ''sig''"
  "header_str demo_request ''x-sauron-protocol-version'' = Some ''2''"
  "header_str demo_request ''x-sauron-call-audience'' = Some ''sauron-core''"
  "header_str demo_request ''x-sauron-agent-config-digest'' = Some ''sha256:d''"
  by code_simp+

lemma demo_headers: "read_call_headers no_env demo_request = Ok demo_call_headers"
  by (simp add: read_call_headers_def require_header_def demo_header_str demo_ts check_def no_env_def
      CALL_SIGNATURE_VERSION_def CALL_SIGNATURE_V3_VERSION_def demo_call_headers_def)

lemma demo_skew: "call_sig_skew_ms no_env = 60000"
  by code_simp

lemma demo_not_dpop: "\<not> uses_dpop no_env demo_request"
  by code_simp

lemma demo_live: "live_agent demo_db ''agt-1'' (request_tenant demo_request) 1000 = Some demo_agent"
  by code_simp

lemma trim_pk: "trim ''pk'' = ''pk''"
  by (rule trim_graphic) (simp_all add: is_graphic_def byte_def)

lemma trim_Nil: "trim [] = []"
  by code_simp

lemma demo_payload:
  obtains p where "signing_payload demo_web demo_request demo_call_headers demo_agent ''sha256:d'' m = Ok p"
proof -
  have "\<exists>p. call_signature_payload (call_input demo_web demo_request demo_call_headers ''sha256:d'') = Some p"
    unfolding call_signature_payload_def
    by (rule canonical_fields_total)
       (simp_all add: fits_simps call_input_def demo_web_def demo_request_def demo_call_headers_def request_tenant_def
          DEFAULT_TENANT_def CALL_SIGNATURE_DOMAIN_def CALL_SIGNATURE_VERSION_def to_ascii_uppercase_def
          header_str_def trim_Nil)
  then show ?thesis
    using that by (auto simp: signing_payload_def demo_call_headers_def)
qed

lemma demo_check: "check_call_sig no_env demo_web healthy 1000500 1000 demo_request demo_db = Ok demo_call_headers"
proof -
  obtain p where p: "signing_payload demo_web demo_request demo_call_headers demo_agent ''sha256:d'' 1000500 = Ok p"
    by (rule demo_payload)
  have v: "verify_call_bytes demo_web ''pk'' ''sig'' p = Ok ()"
    by (simp add: verify_call_bytes_Ok_iff demo_web_def trim_pk)
  have "\<not> outside_skew 1000500 1000000 60000"
    by code_simp
  then show ?thesis
    using p v demo_live
    by (simp add: check_call_sig_def demo_headers demo_skew demo_header_str lookup_agent_def healthy_def check_def
        require_pop_key_def require_header_def)
       (simp add: demo_call_headers_def demo_agent_def check_def)
qed

lemma demo_call_accepted:
  "try_verify_call_sig no_env demo_web demo_server 1000500 1000 demo_request demo_db =
     (Ok ''agt-1'', demo_db\<lparr>agent_call_nonces := (agent_call_nonces demo_db)((''agt-1'', ''n1'') \<mapsto> 1120)\<rparr>)"
proof -
  have "nonce_exp no_env 1000000 = 1120"
    by code_simp
  then show ?thesis
    by (simp add: try_verify_call_sig_def demo_not_dpop demo_server_def demo_check)
       (simp add: consume_call_def demo_call_headers_def consume_call_nonce_def sqlite_healthy_def healthy_def
         txn_immediate_sqlite_def any_env.defs sqlite_env.defs run_stmt_def demo_db_def empty_database_def)
qed

section \<open>Properties\<close>

text \<open>
  C13. A signed call is accepted once.  Take any sequence of agent calls and of passes of the
  background sweep, at times that do not decrease, over any database, with any faults of the
  database: no two accepted calls carry the same agent, nonce and signing time.  The sweep deletes the
  stored nonces, but only of signatures that are already outside the skew window, so deleting
  them does not make a replay possible.  Times before 1970 are excluded.\<close>
theorem call_signature_accepted_once:
  assumes "sorted (clk # map event_time es)" "list_all (event_ok env W) es"
  shows "distinct (map (event_key env W) (accepted (present_call env W) es (db, clk)))"
  using calls.accepted_once [OF calls_timely [OF assms]] .

lemma demo_key: "call_key no_env demo_web demo_request = Some (''agt-1'', ''n1'', 1000000)"
  by (simp add: call_key_def demo_not_dpop demo_headers) (simp add: demo_call_headers_def)

theorem call_signature_accepted_once_witness:
  "let es = [Call demo_server 1000500 1000 demo_request, Sweep healthy 1000600, Call demo_server 1000700 1000 demo_request] in
   accepted (present_call no_env demo_web) es (demo_db, 0) = [hd es] \<and>
   distinct (map (event_key no_env demo_web) (accepted (present_call no_env demo_web) es (demo_db, 0)))"
proof -
  let ?es = "[Call demo_server 1000500 1000 demo_request, Sweep healthy 1000600, Call demo_server 1000700 1000 demo_request]"
  have "list_all (event_ok no_env demo_web) ?es"
    by (simp add: event_ok_def demo_key)
  then have "distinct (map (event_key no_env demo_web) (accepted (present_call no_env demo_web) ?es (demo_db, 0)))"
    by (intro call_signature_accepted_once) simp_all
  then show ?thesis
    by (simp add: Let_def demo_call_accepted demo_key split: prod.splits if_splits)
qed

text \<open>
  What the signature of an accepted call covers: the statement of the agent, in protocol 2 or
  3, that the call instantiates.
\<close>

definition call_statement ::
  "('z) web_scheme \<Rightarrow> request \<Rightarrow> call_headers \<Rightarrow> agent_row \<Rightarrow> string \<Rightarrow> string \<Rightarrow> signed_statement" where
  "call_statement W rq h row run expires =
     (if ch_is_v3 h
      then CallV3 (call_v3_input (call_input W rq h (ag_agent_checksum row)) (ag_owner_mandate_hash row) run expires)
      else CallV2 (call_input W rq h (ag_agent_checksum row)))"

lemma signing_payload_OkD:
  assumes "signing_payload W rq h row (ag_agent_checksum row) now_ms = Ok p"
  shows "\<exists>run expires. signed_payload (call_statement W rq h row run expires) = Some p \<and>
    (ch_is_v3 h \<longrightarrow> (\<exists>x. parse_i64 expires = Some x \<and> now_ms \<le> x))"
  using assms
  by (auto simp: signing_payload_def call_statement_def read_v3_fields_def and_then_eq_Ok_iff split: if_splits)
     (meson linorder_not_le)

lemma try_verify_call_sig_OkD:
  assumes "try_verify_call_sig env W srv now_ms now rq db = (Ok a, db')" "\<not> uses_dpop env rq"
  obtains h where "check_call_sig env W (srv_conn srv) now_ms now rq db = Ok h" "ch_agent_id h = a"
    "db' = db\<lparr>agent_call_nonces := (agent_call_nonces db)((a, ch_nonce h) \<mapsto> nonce_exp env (ch_call_ts h))\<rparr>"
proof (cases "check_call_sig env W (srv_conn srv) now_ms now rq db")
  case (Inr h)
  then have "consume_call env (srv_repo srv) h db = (Ok a, db')"
    using assms by (simp add: try_verify_call_sig_def)
  then show ?thesis
    using Inr that by (elim consume_call_cases) auto
qed (use assms in \<open>auto simp: try_verify_call_sig_def\<close>)

lemma verified_call_signed:
  assumes "try_verify_call_sig env W srv now_ms now rq db = (Ok a, db')" "\<not> uses_dpop env rq"
  obtains h row run expires pk sig p where
    "live_agent db a (request_tenant rq) now = Some row" "ch_agent_id h = a" "read_call_headers env rq = Ok h"
    "b64u_decode W (trim (ag_pop_public_key_b64u row)) = Some pk" "b64u_decode W (ch_sig_b64 h) = Some sig"
    "signed_payload (call_statement W rq h row run expires) = Some p" "ed_verify W pk p sig"
    "agent_call_nonces db' (a, ch_nonce h) = Some (nonce_exp env (ch_call_ts h))"
proof -
  from assms obtain h where h: "check_call_sig env W (srv_conn srv) now_ms now rq db = Ok h" "ch_agent_id h = a"
    "db' = db\<lparr>agent_call_nonces := (agent_call_nonces db)((a, ch_nonce h) \<mapsto> nonce_exp env (ch_call_ts h))\<rparr>"
    by (rule try_verify_call_sig_OkD)
  from h(1) obtain row p where row: "read_call_headers env rq = Ok h"
    "live_agent db (ch_agent_id h) (request_tenant rq) now = Some row"
    "signing_payload W rq h row (ag_agent_checksum row) now_ms = Ok p"
    "verify_call_bytes W (ag_pop_public_key_b64u row) (ch_sig_b64 h) p = Ok ()"
    by (auto elim: check_call_sig_OkD)
  obtain run expires where "signed_payload (call_statement W rq h row run expires) = Some p"
    using signing_payload_OkD [OF row(3)] by blast
  then show ?thesis
    using row h that unfolding verify_call_bytes_Ok_iff by auto
qed



text \<open>
  The clock test accepts exactly the timestamps within the window, with one exception: in wrapping
  arithmetic the timestamp \<open>2 ^ 63\<close> milliseconds before now gives the smallest integer, whose absolute
  value is itself, and passes although it is 292 million years old.\<close>
theorem skew_test_accepts_window_and_one_more:
  assumes "0 \<le> now_ms" "now_ms < 2 ^ 62" "is_i64 ts"
  shows "\<not> outside_skew now_ms ts (call_sig_skew_ms env) \<longleftrightarrow>
    \<bar>now_ms - ts\<bar> \<le> call_sig_skew_ms env \<or> ts = now_ms - 2 ^ 63"
proof (cases "now_ms - ts < 2 ^ 63")
  case True
  then have "is_i64 (now_ms - ts)" "is_i64 \<bar>now_ms - ts\<bar>"
    using assms by (auto simp: is_i64_def i64_MIN_def i64_MAX_def)
  then show ?thesis
    using True by (auto simp: outside_skew_def i64_abs_def)
next
  case False
  define d where "d = now_ms - ts - 2 ^ 64"
  have d: "- (2 ^ 63) \<le> d" "d \<le> - (2 ^ 62)"
    using False assms by (simp_all add: d_def is_i64_def i64_MIN_def)
  have "i64_wrap (now_ms - ts) = i64_wrap d"
    by (simp add: i64_wrap_def d_def signed_take_bit_eq_iff_take_bit_eq take_bit_eq_mod mod_diff_eq [of _ "2 ^ 64", symmetric])
  also have "\<dots> = d"
    using d by (intro i64_wrap_id) (simp add: is_i64_def i64_MIN_def i64_MAX_def)
  finally have w: "i64_wrap (now_ms - ts) = d" .
  have "i64_abs d = (if d = - (2 ^ 63) then d else - d)"
  proof (cases "d = - (2 ^ 63)")
    case True
    then show ?thesis
      by (simp add: i64_abs_def i64_wrap_def)
  next
    case False
    then have "is_i64 (- d)"
      using d by (simp add: is_i64_def i64_MIN_def i64_MAX_def)
    then show ?thesis
      using d False by (simp add: i64_abs_def)
  qed
  then show ?thesis
    using d w skew_bounds [of env] False by (auto simp: outside_skew_def d_def)
qed

theorem skew_test_accepts_window_and_one_more_witness:
  "is_i64 (1700000000000 - 2 ^ 63) \<and> \<not> outside_skew 1700000000000 (1700000000000 - 2 ^ 63) (call_sig_skew_ms no_env)"
proof -
  have "is_i64 (1700000000000 - 2 ^ 63)"
    by (simp add: is_i64_def i64_MIN_def i64_MAX_def)
  then show ?thesis
    using skew_test_accepts_window_and_one_more [of 1700000000000 "1700000000000 - 2 ^ 63" no_env] by simp
qed

end
