(* ===== verification/Risk.thy ===== *)
theory Risk
  imports Repository
begin

text \<open>
  The rate limits of \<open>risk.rs\<close>: the buckets, the limits read from the environment, and the
  counter per bucket and window.  The statements of a call are numbered in the order in which it sends them.
\<close>

section \<open>Buckets\<close>

definition hash_bucket :: "('z) digests_scheme \<Rightarrow> string \<Rightarrow> string list \<Rightarrow> string" where
  "hash_bucket D pre parts =
     hex_encode D (take 24 (sha256 D (pre @ concat (map (\<lambda>p. ''|'' @ p) parts))))"

definition bucket_kyc_retrieve :: "('z) digests_scheme \<Rightarrow> string \<Rightarrow> string \<Rightarrow> string \<Rightarrow> string" where
  "bucket_kyc_retrieve D tenant_id site user_key_image =
     hash_bucket D ''kyc_retrieve'' [tenant_id, site, user_key_image]"

definition bucket_payment_authorize :: "('z) digests_scheme \<Rightarrow> string \<Rightarrow> string \<Rightarrow> string" where
  "bucket_payment_authorize D tenant_id agent_id = hash_bucket D ''payment_authorize'' [tenant_id, agent_id]"

definition bucket_agent_vc_issue :: "('z) digests_scheme \<Rightarrow> string \<Rightarrow> string \<Rightarrow> string" where
  "bucket_agent_vc_issue D tenant_id human_key_image =
     hash_bucket D ''agent_vc_issue'' [tenant_id, human_key_image]"

definition bucket_agent_register :: "('z) digests_scheme \<Rightarrow> string \<Rightarrow> string \<Rightarrow> string" where
  "bucket_agent_register D tenant_id human_key_image =
     hash_bucket D ''agent_register'' [tenant_id, human_key_image]"

definition bucket_agent_verify :: "('z) digests_scheme \<Rightarrow> string \<Rightarrow> string \<Rightarrow> string" where
  "bucket_agent_verify D tenant_id agent_id = hash_bucket D ''agent_verify'' [tenant_id, agent_id]"

definition bucket_egress_capability :: "('z) digests_scheme \<Rightarrow> string \<Rightarrow> string \<Rightarrow> string" where
  "bucket_egress_capability D tenant_id agent_id = hash_bucket D ''egress_capability'' [tenant_id, agent_id]"

section \<open>Limits\<close>

definition trimmed_i64 :: "env \<Rightarrow> string \<Rightarrow> i64 option" where
  "trimmed_i64 env v = Option.bind (env v) (\<lambda>s. parse_i64 (trim s))"

definition parse_limit :: "env \<Rightarrow> string \<Rightarrow> i64 \<Rightarrow> i64" where
  "parse_limit env name production_default =
     max 0 (case trimmed_i64 env name of
              Some n \<Rightarrow> n
            | None \<Rightarrow> if is_development_runtime env then 0 else production_default)"

definition window_secs :: "env \<Rightarrow> i64" where
  "window_secs env =
     clamp_between 10 3600 (case trimmed_i64 env ''SAURON_RISK_WINDOW_SECS'' of Some n \<Rightarrow> n | None \<Rightarrow> 60)"

definition limit_payment_authorize :: "env \<Rightarrow> i64" where
  "limit_payment_authorize env = parse_limit env ''SAURON_RISK_PAYMENT_AUTHORIZE_PER_WINDOW'' 30"

definition limit_agent_vc_issue :: "env \<Rightarrow> i64" where
  "limit_agent_vc_issue env = parse_limit env ''SAURON_RISK_AGENT_VC_ISSUE_PER_WINDOW'' 20"

definition limit_agent_register :: "env \<Rightarrow> i64" where
  "limit_agent_register env =
     (let parsed = parse_limit env ''SAURON_RISK_AGENT_REGISTER_PER_WINDOW'' 20 in
      if env ''SAURON_RISK_AGENT_REGISTER_PER_WINDOW'' \<noteq> None then parsed
      else if parsed = 0 then 60
      else parsed)"

definition limit_agent_verify :: "env \<Rightarrow> i64" where
  "limit_agent_verify env = parse_limit env ''SAURON_RISK_AGENT_VERIFY_PER_WINDOW'' 300"

definition limit_egress_capability :: "env \<Rightarrow> i64" where
  "limit_egress_capability env = parse_limit env ''SAURON_RISK_EGRESS_CAPABILITY_PER_WINDOW'' 60"

section \<open>The counter\<close>

definition upsert_counter :: "string \<times> i64 \<Rightarrow> database \<Rightarrow> database" where
  "upsert_counter k db =
     db\<lparr>risk_rate_counters := (risk_rate_counters db)
          (k \<mapsto> (case risk_rate_counters db k of Some n \<Rightarrow> n + 1 | None \<Rightarrow> 1))\<rparr>"

definition delete_counters_before :: "i64 \<Rightarrow> database \<Rightarrow> database" where
  "delete_counters_before w db =
     db\<lparr>risk_rate_counters := (\<lambda>(b, v). if v < w then None else risk_rate_counters db (b, v))\<rparr>"

definition counted_body ::
  "('z) any_env_scheme \<Rightarrow> string \<times> i64 \<Rightarrow> database \<Rightarrow> (string, i64 \<times> database) result" where
  "counted_body conn k tx =
     and_then (map_err (\<lambda>e. ''risk: db error: '' @ e) (run_stmt conn 1 False (upsert_counter k tx))) (\<lambda>tx.
     and_then (require_row conn 2 (risk_rate_counters tx k) ''risk: read cnt: row vanished'') (\<lambda>cnt.
     Ok (cnt, tx)))"

definition check_and_increment ::
  "env \<Rightarrow> ('z) any_env_scheme \<Rightarrow> string \<Rightarrow> i64 \<Rightarrow> i64 \<Rightarrow> database \<Rightarrow> (string, unit) result \<times> database" where
  "check_and_increment env conn bucket now max_per_window db =
     (if max_per_window \<le> 0 then (Ok (), db)
      else if 128 < length bucket then (Err ''risk: internal bucket key too long'', db)
      else
        let window_id = i64_div now (window_secs env) in
        (case any_transaction conn 0 3 (counted_body conn (bucket, window_id)) db of
           (Err e, db) \<Rightarrow> (Err e, db)
         | (Ok cnt, db) \<Rightarrow>
             if max_per_window < cnt then (Err ''risk: rate limit exceeded'', db)
             else
               (Ok (),
                if stmt_fault conn 4 = None then delete_counters_before (window_id - 120) db else db)))"

section \<open>What a call does\<close>

definition count_of :: "database \<Rightarrow> string \<times> i64 \<Rightarrow> i64" where
  "count_of db k = (case risk_rate_counters db k of Some n \<Rightarrow> n | None \<Rightarrow> 0)"

lemma window_secs_bounds: "10 \<le> window_secs env" "window_secs env \<le> 3600"
  using clamp_between_bounds [of 10 "3600 :: int"] by (simp_all add: window_secs_def)

lemma i64_div_mono:
  assumes "x \<le> y" "0 < w"
  shows "i64_div x w \<le> i64_div y w"
proof -
  consider "0 \<le> x" | "x < 0" "0 \<le> y" | "y < 0" using assms(1) by linarith
  then show ?thesis
  proof cases
    case 1
    then show ?thesis using assms by (simp add: i64_div_nonneg zdiv_mono1)
  next
    case 2
    then have "0 \<le> y div w" "0 \<le> - x div w" using assms(2) by (simp_all add: pos_imp_zdiv_nonneg_iff)
    then show ?thesis using 2 assms(2) by (simp add: i64_div_nonneg, simp add: i64_div_def)
  next
    case 3
    then show ?thesis using assms by (simp add: i64_div_def zdiv_mono1)
  qed
qed

lemma count_of_upsert [simp]:
  "count_of (upsert_counter k db) k' = count_of db k' + (if k' = k then 1 else 0)"
  by (simp add: count_of_def upsert_counter_def split: option.splits)

lemma count_of_delete:
  "count_of (delete_counters_before w db) (b, v) = (if v < w then 0 else count_of db (b, v))"
  by (simp add: count_of_def delete_counters_before_def)

lemma upsert_counter_lookup: "risk_rate_counters (upsert_counter k db) k = Some (count_of db k + 1)"
  by (simp add: upsert_counter_def count_of_def split: option.splits)

text \<open>
  A call with a limit either leaves the database alone and fails, or counts itself; it
  passes exactly when the new count is within the limit.
\<close>

lemma check_and_increment_cases:
  fixes env now
  defines "w \<equiv> i64_div now (window_secs env)"
  assumes "check_and_increment env conn bucket now m db = (r, db')" "0 < m"
  obtains (failed) e where "r = Err e" "db' = db"
    | (passed) "r = Ok ()" "count_of db (bucket, w) < m"
        "db' = upsert_counter (bucket, w) db \<or>
         db' = delete_counters_before (w - 120) (upsert_counter (bucket, w) db)"
    | (refused) "r = Err ''risk: rate limit exceeded''" "m \<le> count_of db (bucket, w)"
        "db' = upsert_counter (bucket, w) db"
proof (cases "128 < length bucket")
  case True
  then show thesis
    using assms(2,3) failed by (auto simp: check_and_increment_def)
next
  case False
  obtain t db1 where txn: "any_transaction conn 0 3 (counted_body conn (bucket, w)) db = (t, db1)"
    by fastforce
  then have run: "(case t of Inl e \<Rightarrow> (Err e, db1)
      | Inr cnt \<Rightarrow> if m < cnt then (Err ''risk: rate limit exceeded'', db1)
          else (Ok (), if stmt_fault conn 4 = None then delete_counters_before (w - 120) db1 else db1)) = (r, db')"
    using assms(2) [unfolded check_and_increment_def Let_def, folded w_def] assms(3) False by simp
  from txn show thesis
  proof (cases rule: any_transaction_cases)
    case (failed e)
    then show thesis using that(1) run by auto
  next
    case (committed v)
    then have v: "v = count_of db (bucket, w) + 1" "db1 = upsert_counter (bucket, w) db"
      by (auto simp: counted_body_def and_then_eq_Ok_iff require_row_def scalar_or_def upsert_counter_lookup split: if_splits)
    then show thesis
      using run committed(1) that(2,3) by (auto split: if_splits)
  qed
qed

section \<open>Runs of calls and sweeps\<close>

text \<open>
  Calls of \<^const>\<open>check_and_increment\<close> and passes of the background sweep, in the order in
  which the writer lock lets them run.
\<close>

datatype risk_event = Check any_env string i64 i64 | Sweep any_env i64

fun risk_time :: "risk_event \<Rightarrow> i64" where
  "risk_time (Check _ _ now _) = now"
| "risk_time (Sweep _ now) = now"

fun risk_step :: "env \<Rightarrow> risk_event \<Rightarrow> database \<Rightarrow> bool \<times> database" where
  "risk_step env (Check conn bucket now m) db =
     (case check_and_increment env conn bucket now m db of (r, db') \<Rightarrow> (is_ok r, db'))"
| "risk_step env (Sweep conn now) db = (False, gc_pass env conn now db)"

text \<open>The calls for one bucket and window under one limit.\<close>

fun hits :: "env \<Rightarrow> string \<times> i64 \<Rightarrow> i64 \<Rightarrow> risk_event \<Rightarrow> bool" where
  "hits env k m (Check _ bucket now m') \<longleftrightarrow> (bucket, i64_div now (window_secs env)) = k \<and> m' = m"
| "hits env k m (Sweep _ _) \<longleftrightarrow> False"

definition event_window :: "env \<Rightarrow> risk_event \<Rightarrow> i64" where
  "event_window env e = i64_div (risk_time e) (window_secs env)"

lemma hits_window: "hits env (b, w) m e \<Longrightarrow> event_window env e = w"
  by (cases e) (auto simp: event_window_def)

lemma gc_pass_count:
  "count_of (gc_pass env conn now db) (b, w) = count_of db (b, w) \<or>
   w < i64_saturating_sub (i64_div now (risk_window_secs env)) 120"
  by (simp add: gc_pass_def sweep_def count_of_def Let_def split: option.splits)

lemma i64_div_range:
  assumes "is_i64 x" "10 \<le> w"
  shows "is_i64 (i64_div x w - 120)"
proof -
  have "\<bar>i64_div x w\<bar> \<le> \<bar>x\<bar> div 10"
    using assms(2) by (auto simp: i64_div_def abs_mult sgn_if zdiv_mono2 pos_imp_zdiv_nonneg_iff)
  moreover have "\<bar>x\<bar> div 10 \<le> 9223372036854775808 div 10"
    using assms(1) by (intro zdiv_mono1) (simp_all add: is_i64_def i64_MIN_def i64_MAX_def abs_le_iff)
  ultimately show ?thesis
    by (simp add: is_i64_def i64_MIN_def i64_MAX_def abs_le_iff)
qed

text \<open>
  A step counts the call it lets pass; only a window that lies behind the time of the step can be
  forgotten.
\<close>

lemma risk_step_count:
  assumes step: "risk_step env e db = (ok, db')"
    and agree: "risk_window_secs env = window_secs env" and time: "is_i64 (risk_time e)" and m: "0 < m"
  shows "event_window env e \<le> w \<Longrightarrow> count_of db (b, w) \<le> count_of db' (b, w)"
    and "ok \<Longrightarrow> hits env (b, w) m e \<Longrightarrow> count_of db (b, w) < m \<and> count_of db (b, w) < count_of db' (b, w)"
proof -
  have "(event_window env e \<le> w \<longrightarrow> count_of db (b, w) \<le> count_of db' (b, w)) \<and>
     (ok \<and> hits env (b, w) m e \<longrightarrow> count_of db (b, w) < m \<and> count_of db (b, w) < count_of db' (b, w))"
  proof (cases e)
    case (Check conn bucket now m')
    then obtain r where r: "check_and_increment env conn bucket now m' db = (r, db')" "ok = is_ok r"
      using step by (auto split: prod.splits)
    show ?thesis
    proof (cases "0 < m'")
      case True
      from r(1) True show ?thesis
        by (cases rule: check_and_increment_cases) (auto simp: Check r(2) event_window_def count_of_delete)
    qed (use r m Check in \<open>auto simp: check_and_increment_def\<close>)
  next
    case (Sweep conn now)
    have "i64_saturating_sub (i64_div now (risk_window_secs env)) 120 = i64_div now (window_secs env) - 120"
      using i64_div_range [of now "window_secs env"] window_secs_bounds(1) time Sweep
      by (simp add: i64_saturating_sub_def agree)
    then show ?thesis
      using gc_pass_count [of env conn now db b w] step Sweep by (auto simp: event_window_def)
  qed
  then show "event_window env e \<le> w \<Longrightarrow> count_of db (b, w) \<le> count_of db' (b, w)"
    and "ok \<Longrightarrow> hits env (b, w) m e \<Longrightarrow> count_of db (b, w) < m \<and> count_of db (b, w) < count_of db' (b, w)"
    by blast+
qed

lemma event_window_mono:
  "risk_time e \<le> risk_time e' \<Longrightarrow> event_window env e \<le> event_window env e'"
  using i64_div_mono window_secs_bounds(1) [of env] by (simp add: event_window_def)



section \<open>Calls on a connection that works\<close>

lemma check_and_increment_works:
  fixes env now
  defines "w \<equiv> i64_div now (window_secs env)"
  assumes "\<And>k. stmt_fault conn k = None" "0 < m" "length bucket \<le> 128"
  shows "check_and_increment env conn bucket now m db =
    (if count_of db (bucket, w) < m
     then (Ok (), delete_counters_before (w - 120) (upsert_counter (bucket, w) db))
     else (Err ''risk: rate limit exceeded'', upsert_counter (bucket, w) db))"
  using assms(2-)
  by (auto simp: check_and_increment_def Let_def any_transaction_def counted_body_def require_row_def run_stmt_def
      scalar_or_def ok_or_def upsert_counter_lookup w_def)

text \<open>The calls that pass out of \<open>n\<close> calls in a row.\<close>

lemma accepted_calls:
  fixes env now
  defines "w \<equiv> i64_div now (window_secs env)"
  assumes conn: "\<And>k. stmt_fault conn k = None" and "0 < m" "length b \<le> 128" "0 \<le> count_of db (b, w)"
  shows "length (accepted (risk_step env) (replicate n (Check conn b now m)) db) =
    min n (nat (m - count_of db (b, w)))"
  using assms(5)
proof (induction n arbitrary: db)
  case (Suc n)
  note works = check_and_increment_works [OF conn assms(3,4), of env now db, folded w_def]
  let ?db = "snd (check_and_increment env conn b now m db)"
  have "count_of ?db (b, w) = count_of db (b, w) + 1"
    by (simp add: works count_of_delete)
  then have "length (accepted (risk_step env) (replicate n (Check conn b now m)) ?db) =
      min n (nat (m - count_of db (b, w) - 1))"
    using Suc.IH [of ?db] Suc.prems by (simp add: algebra_simps)
  then show ?case
    using Suc.prems by (auto simp: works)
qed simp

lemma accepted_then:
  fixes env now
  defines "w \<equiv> i64_div now (window_secs env)"
  assumes conn: "\<And>k. stmt_fault conn k = None" and "0 < m" "length b \<le> 128" and w': "w' \<noteq> w"
    and "int n + count_of db (b, w) \<le> m" "count_of db (b, w') = 0"
  obtains db' where "count_of db' (b, w') = 0"
    "length (accepted (risk_step env) (replicate n (Check conn b now m) @ es) db) =
     n + length (accepted (risk_step env) es db')"
proof -
  have "\<exists>db'. count_of db' (b, w') = 0 \<and>
      length (accepted (risk_step env) (replicate n (Check conn b now m) @ es) db) =
      n + length (accepted (risk_step env) es db')"
    using assms(6,7)
  proof (induction n arbitrary: db)
    case (Suc n)
    note works = check_and_increment_works [OF conn assms(3,4), of env now db, folded w_def]
    let ?db = "snd (check_and_increment env conn b now m db)"
    have "count_of ?db (b, w) = count_of db (b, w) + 1" "count_of ?db (b, w') = 0"
      using w' Suc.prems by (simp_all add: works count_of_delete)
    then show ?case
      using Suc.IH [of ?db] Suc.prems by (simp add: works)
  qed auto
  then show thesis using that by blast
qed

text \<open>
  The limit is exact on a connection that works: out of \<open>n\<close> calls in a row for one bucket precisely the
  first \<open>m\<close> pass.  The windows are fixed and do not slide: each of two neighbouring windows has a budget of its
  own, so that \<open>2 * m\<close> calls pass within two seconds.
\<close>

theorem rate_limit_exact:
  assumes "0 < m" "length b \<le> 128" "\<forall>w. count_of db (b, w) = 0" "0 < k"
  shows "length (accepted (risk_step env) (replicate n (Check healthy b now m)) db) = min n (nat m) \<and>
    length (accepted (risk_step env)
      (replicate (nat m) (Check healthy b (k * window_secs env - 1) m) @
       replicate (nat m) (Check healthy b (k * window_secs env) m)) db) = 2 * nat m"
proof
  have conn: "\<And>j. stmt_fault healthy j = None" by (simp add: healthy_def)
  show "length (accepted (risk_step env) (replicate n (Check healthy b now m)) db) = min n (nat m)"
    using accepted_calls [OF conn assms(1,2), of db now env n] assms(3) by simp
  let ?w = "window_secs env"
  have "?w \<le> k * ?w"
    using assms(4) window_secs_bounds(1) [of env] by simp
  moreover have "(k * ?w - 1) div ?w = k - 1"
    using window_secs_bounds(1) [of env] by (intro int_div_pos_eq [where r = "?w - 1"]) (simp_all add: algebra_simps)
  ultimately have windows: "i64_div (k * ?w - 1) ?w = k - 1" "i64_div (k * ?w) ?w = k"
    using window_secs_bounds(1) [of env] assms(4) by (simp_all add: i64_div_nonneg)
  obtain db' where db': "count_of db' (b, k) = 0"
    "length (accepted (risk_step env)
      (replicate (nat m) (Check healthy b (k * ?w - 1) m) @ replicate (nat m) (Check healthy b (k * ?w) m)) db) =
     nat m + length (accepted (risk_step env) (replicate (nat m) (Check healthy b (k * ?w) m)) db')"
    using accepted_then [OF conn assms(1,2), of k "k * ?w - 1" env "nat m" db] assms(1,3) windows
    by auto
  then show "length (accepted (risk_step env)
      (replicate (nat m) (Check healthy b (k * ?w - 1) m) @
       replicate (nat m) (Check healthy b (k * ?w) m)) db) = 2 * nat m"
    using accepted_calls [OF conn assms(1,2), of db' "k * ?w" env "nat m"] windows(2) by simp
qed

theorem rate_limit_exact_witness:
  "length (accepted (risk_step (\<lambda>v. None)) (replicate 5 (Check healthy ''b'' 100 2)) empty_database) = min 5 (nat 2) \<and>
   length (accepted (risk_step (\<lambda>v. None))
     (replicate (nat 2) (Check healthy ''b'' (3 * window_secs (\<lambda>v. None) - 1) 2) @
      replicate (nat 2) (Check healthy ''b'' (3 * window_secs (\<lambda>v. None)) 2)) empty_database) = 2 * nat 2"
  by (rule rate_limit_exact) (simp_all add: count_of_def empty_database_def)

section \<open>The sweep with a padded variable\<close>

definition padded_env :: env where
  "padded_env v = (if v = ''SAURON_RISK_WINDOW_SECS'' then Some '' 600'' else None)"

lemma padded_windows: "window_secs padded_env = 600" "risk_window_secs padded_env = 60"
proof -
  have "trim '' 600'' = ''600''"
    by (simp add: trim_space trim_graphic is_graphic_def byte_def)
  moreover have "parse_i64 ''600'' = Some 600" "parse_i64 '' 600'' = None"
    by code_simp+
  ultimately show "window_secs padded_env = 600" "risk_window_secs padded_env = 60"
    by (simp_all add: window_secs_def risk_window_secs_def trimmed_i64_def env_i64_def padded_env_def
        clamp_between_def)
qed

text \<open>
  The background sweep has to read the window length the way the limiter does, and does not: it parses the
  variable untrimmed.  With a padded value the limiter counts in windows of ten
  minutes while the sweep deletes by windows of one minute, so that each pass deletes the counter of
  the current window and any number of calls goes through under any limit.
\<close>

theorem padded_window_defeats_limit:
  assumes "0 < m" "length b \<le> 128" "count_of db (b, i64_div 1700000000 600) = 0"
  shows "length (accepted (risk_step padded_env)
     (concat (replicate n [Check healthy b 1700000000 m, Sweep healthy 1700000000])) db) = n"
  using assms(3)
proof (induction n arbitrary: db)
  case (Suc n)
  have conn: "\<And>j. stmt_fault healthy j = None" "lock_fault healthy = None" by (simp_all add: healthy_def)
  let ?db = "gc_pass padded_env healthy 1700000000
    (snd (check_and_increment padded_env healthy b 1700000000 m db))"
  have "count_of ?db (b, i64_div 1700000000 600) = 0"
    by (simp add: gc_pass_def conn sweep_def count_of_def padded_windows i64_div_nonneg
        i64_saturating_sub_def is_i64_def i64_MIN_def i64_MAX_def)
  from Suc.IH [OF this] show ?case
    using check_and_increment_works [OF conn(1) assms(1,2), of padded_env 1700000000 db] Suc.prems assms(1)
    by (simp add: padded_windows)
qed simp

theorem padded_window_defeats_limit_witness:
  "length (accepted (risk_step padded_env)
     (concat (replicate 40 [Check healthy ''b'' 1700000000 2, Sweep healthy 1700000000])) empty_database) = 40"
  by (rule padded_window_defeats_limit) (simp_all add: count_of_def empty_database_def)

section \<open>Buckets are isolated\<close>

definition bucket_input :: "string \<Rightarrow> string list \<Rightarrow> string" where
  "bucket_input pre parts = pre @ concat (map (\<lambda>p. ''|'' @ p) parts)"

definition bucket_kinds :: "string set" where
  "bucket_kinds = {''kyc_retrieve'', ''payment_authorize'', ''agent_vc_issue'', ''agent_register'',
     ''agent_verify'', ''egress_capability''}"

lemma valid_tenant_no_bar: "valid_tenant_id t \<Longrightarrow> CHR ''|'' \<notin> set t"
  by (auto simp: valid_tenant_id_def list_all_iff is_ascii_alphanumeric_def is_ascii_alphabetic_def
      is_ascii_upper_def is_ascii_lower_def is_ascii_digit_def byte_def)

lemma bucket_input_eqD:
  assumes "bucket_input pre (t # a # as) = bucket_input pre' (t' # a' # as')"
    and "pre \<in> bucket_kinds" "pre' \<in> bucket_kinds" "valid_tenant_id t" "valid_tenant_id t'"
  shows "pre = pre' \<and> t = t'"
proof -
  have "CHR ''|'' \<notin> set pre" "CHR ''|'' \<notin> set pre'"
    using assms(2,3) by (auto simp: bucket_kinds_def)
  then have "pre = pre'"
    "t @ CHR ''|'' # a @ concat (map (\<lambda>p. ''|'' @ p) as) = t' @ CHR ''|'' # a' @ concat (map (\<lambda>p. ''|'' @ p) as')"
    using append_sep_eqD [of pre "CHR ''|''" _ pre'] assms(1) by (auto simp: bucket_input_def)
  then show ?thesis
    using append_sep_eqD [of t "CHR ''|''" _ t'] assms(4,5) valid_tenant_no_bar by auto
qed

text \<open>
  Rate-limit buckets are isolated: buckets of different tenants, and buckets of different kinds, are different whatever the
  other components are, unless the two hashed strings are a collision of the truncated SHA-256.
  Tenant ids without a bar, which \<open>valid_tenant_id\<close> guarantees, are what makes the hashed strings differ.
\<close>

theorem buckets_isolate_tenants:
  assumes "valid_tenant_id t" "valid_tenant_id t'" "pre \<in> bucket_kinds" "pre' \<in> bucket_kinds"
    and "(pre, t) \<noteq> (pre', t')"
    and "inj_on (\<lambda>x. hex_encode D (take 24 (sha256 D x)))
           {bucket_input pre (t # a # as), bucket_input pre' (t' # a' # as')}"
  shows "hash_bucket D pre (t # a # as) \<noteq> hash_bucket D pre' (t' # a' # as')"
proof
  assume "hash_bucket D pre (t # a # as) = hash_bucket D pre' (t' # a' # as')"
  then have "bucket_input pre (t # a # as) = bucket_input pre' (t' # a' # as')"
    using assms(6) unfolding inj_on_def hash_bucket_def bucket_input_def by blast
  then show False
    using bucket_input_eqD assms(1-5) by blast
qed

theorem buckets_isolate_tenants_witness:
  "hash_bucket \<lparr>sha256 = \<lambda>x. drop 13 x, hex_encode = \<lambda>x. x\<rparr> ''agent_verify'' [''t1'', ''agent''] \<noteq>
   hash_bucket \<lparr>sha256 = \<lambda>x. drop 13 x, hex_encode = \<lambda>x. x\<rparr> ''agent_verify'' [''t2'', ''agent'']"
  by (rule buckets_isolate_tenants [where as = "[]" and as' = "[]"])
    (simp_all add: bucket_kinds_def bucket_input_def valid_tenant_id_def MAX_TENANT_ID_LEN_def
      is_ascii_alphanumeric_def is_ascii_alphabetic_def is_ascii_upper_def is_ascii_lower_def
      is_ascii_digit_def byte_def)

end
