(* ===== verification/Ajwt.thy ===== *)
theory Ajwt
  imports Agent_Action Call_Sig "HOL-Library.AList" "HOL-Library.Countable"
begin

text \<open>
  The agent tokens (\<open>agent/ajwt.rs\<close>) and their helpers (\<open>ajwt_support.rs\<close>): minting and
  verifying a token, the scopes an agent may delegate, the store of used token ids, and the
  proof-of-possession challenges on a plain connection.  (The versions of the last two on the
  repository are in \<open>Repository\<close>.)

  The record \<open>token_tools\<close> adds third-party functions to those of the middleware: the expansion step
  of HKDF (\<open>hkdf\<close>, 32 bytes), the public key and the signature of an Ed25519 seed, the strict verification and the
  test for small-order keys (\<open>ed25519_dalek\<close>), and the printer of JSON (\<open>serde_json\<close>).  The clock reads and the
  random ids are arguments.
\<close>

record token_tools =
  tt_web :: web
  tt_crypto :: crypto
  hkdf_expand :: "string \<Rightarrow> string \<Rightarrow> string"
  ed_public :: "string \<Rightarrow> string"
  ed_sign :: "string \<Rightarrow> string \<Rightarrow> string"
  ed_verify_strict :: "string \<Rightarrow> string \<Rightarrow> string \<Rightarrow> bool"
  ed_is_weak :: "string \<Rightarrow> bool"
  json_print :: "json \<Rightarrow> string"

section \<open>Tokens\<close>

text \<open>\<^term>\<open>None\<close> is the panic on a field of more than \<open>u32::MAX\<close> bytes.\<close>

definition derive_agent_signing_key ::
  "token_tools \<Rightarrow> string \<Rightarrow> string \<Rightarrow> string \<Rightarrow> string \<Rightarrow> string option" where
  "derive_agent_signing_key T jwt_secret agent_id human_key_image agent_checksum =
     (let root = derive_subkey (tt_crypto T) jwt_secret ''ajwt-ed25519-root-v2'' in
      map_option (hkdf_expand T root)
        (canonical_fields ''sauron.ajwt.agent-key.v2''
           [(''agent_id'', agent_id), (''human_key_image'', human_key_image),
            (''agent_checksum'', agent_checksum)]))"

definition ajwt_audience :: "env \<Rightarrow> string" where
  "ajwt_audience env = (case env ''SAURON_AJWT_AUDIENCE'' of Some v \<Rightarrow> v | None \<Rightarrow> ''sauron-core'')"

record ajwt_extra_claims =
  ex_cnf_jkt :: "string option"
  ex_workflow_id :: "string option"
  ex_delegation_chain :: "json option"

definition json_i64 :: "i64 \<Rightarrow> json" where
  "json_i64 x = JNum (if 0 \<le> x then PosInt (word_of_int x) else NegInt x)"

text \<open>The assignment \<open>payload_obj[k] = v\<close> on an object.\<close>

definition json_set :: "string \<Rightarrow> json \<Rightarrow> (string \<times> json) list \<Rightarrow> (string \<times> json) list" where
  "json_set k v kvs = AList.update k v kvs"

definition ajwt_claims ::
  "string \<Rightarrow> string \<Rightarrow> string \<Rightarrow> string \<Rightarrow> string \<Rightarrow> string \<Rightarrow> i64 \<Rightarrow> i64 \<Rightarrow> string \<Rightarrow>
   ajwt_extra_claims option \<Rightarrow> (string \<times> json) list" where
  "ajwt_claims audience human_key_image agent_id agent_checksum intent_json tenant_id now ttl_secs jti extra =
     (let base =
        [(''iss'', JStr ''did:sauron:idp''), (''aud'', JStr audience), (''tenant_id'', JStr tenant_id),
         (''sub'', JStr human_key_image), (''agent_id'', JStr agent_id),
         (''agent_checksum'', JStr agent_checksum), (''intent'', JStr intent_json), (''iat'', json_i64 now),
         (''exp'', json_i64 (i64_wrap (now + ttl_secs))), (''jti'', JStr jti)]
      in case extra of
           None \<Rightarrow> base
         | Some ex \<Rightarrow>
             (let base = (case ex_cnf_jkt ex of
                   Some jkt \<Rightarrow> if jkt \<noteq> [] then json_set ''cnf'' (JObj [(''jkt'', JStr jkt)]) base else base
                 | None \<Rightarrow> base);
                  base = (case ex_workflow_id ex of
                   Some flow \<Rightarrow> if flow \<noteq> [] then json_set ''workflow_id'' (JStr flow) base else base
                 | None \<Rightarrow> base)
              in case ex_delegation_chain ex of
                   Some dc \<Rightarrow> json_set ''delegation_chain'' dc base
                 | None \<Rightarrow> base))"

definition ajwt_header :: "string \<Rightarrow> (string \<times> json) list" where
  "ajwt_header agent_id = [(''alg'', JStr ''EdDSA''), (''typ'', JStr ''ajwt+jwt''), (''kid'', JStr agent_id)]"

definition forge_ajwt ::
  "token_tools \<Rightarrow> env \<Rightarrow> string \<Rightarrow> string \<Rightarrow> string \<Rightarrow> string \<Rightarrow> string \<Rightarrow> string \<Rightarrow> i64 \<Rightarrow>
   ajwt_extra_claims option \<Rightarrow> i64 \<Rightarrow> string \<Rightarrow> string option" where
  "forge_ajwt T env jwt_secret human_key_image agent_id agent_checksum intent_json tenant_id ttl_secs extra now jti =
     (let header = b64u_encode (tt_web T) (json_print T (JObj (ajwt_header agent_id)));
          payload = b64u_encode (tt_web T) (json_print T (JObj
            (ajwt_claims (ajwt_audience env) human_key_image agent_id agent_checksum intent_json tenant_id
               now ttl_secs jti extra)));
          signing_input = header @ ''.'' @ payload
      in map_option (\<lambda>signing_key.
           header @ ''.'' @ payload @ ''.'' @ b64u_encode (tt_web T) (ed_sign T signing_key signing_input))
         (derive_agent_signing_key T jwt_secret agent_id human_key_image agent_checksum))"

text \<open>An early return of \<open>None\<close> unless the condition holds.\<close>

definition ensure :: "bool \<Rightarrow> unit option" where
  "ensure b = (if b then Some () else None)"

definition MAX_AJWT_LIFETIME_SECS :: i64 where
  "MAX_AJWT_LIFETIME_SECS = 86400"

definition CLOCK_SKEW_SECS :: i64 where
  "CLOCK_SKEW_SECS = 300"

definition claim_i64 :: "json \<Rightarrow> string \<Rightarrow> i64 option" where
  "claim_i64 v k = Option.bind (jget v k) as_i64"

definition check_temporal :: "json \<Rightarrow> i64 \<Rightarrow> unit option" where
  "check_temporal payload now =
     Option.bind (claim_i64 payload ''exp'') (\<lambda>exp'.
     Option.bind (ensure (\<not> now > exp')) (\<lambda>_.
     Option.bind (ensure (case claim_i64 payload ''nbf'' of
         Some nbf \<Rightarrow> \<not> now + CLOCK_SKEW_SECS < nbf | None \<Rightarrow> True)) (\<lambda>_.
     ensure (case claim_i64 payload ''iat'' of
         Some iat \<Rightarrow> \<not> iat > now + CLOCK_SKEW_SECS \<and> \<not> i64_saturating_sub exp' iat > MAX_AJWT_LIFETIME_SECS
       | None \<Rightarrow> True))))"

text \<open>The panic of the key derivation counts as a refusal here.\<close>

definition verify_ajwt :: "token_tools \<Rightarrow> env \<Rightarrow> string \<Rightarrow> string \<Rightarrow> i64 \<Rightarrow> json option" where
  "verify_ajwt T env jwt_secret token now =
     (case splitn 3 CHR ''.'' token of
        [p0, p1, p2] \<Rightarrow>
          (let W = tt_web T in
           Option.bind (Option.bind (b64u_decode W p0) (json_parse W)) (\<lambda>header.
           Option.bind (ensure (str_claim header ''alg'' = Some ''EdDSA'')) (\<lambda>_.
           Option.bind (ensure (str_claim header ''typ'' = Some ''ajwt+jwt'')) (\<lambda>_.
           Option.bind (Option.bind (b64u_decode W p1) (json_parse W)) (\<lambda>payload.
           Option.bind (str_claim payload ''agent_id'') (\<lambda>agent_id.
           Option.bind (str_claim payload ''sub'') (\<lambda>human_key_image.
           Option.bind (str_claim payload ''agent_checksum'') (\<lambda>agent_checksum.
           Option.bind (ensure (str_claim header ''kid'' = Some agent_id)) (\<lambda>_.
           Option.bind (ensure (str_claim payload ''iss'' = Some ''did:sauron:idp'')) (\<lambda>_.
           Option.bind (ensure (str_claim payload ''aud'' = Some (ajwt_audience env))) (\<lambda>_.
           Option.bind (ensure (str_claim payload ''tenant_id'' \<notin> {None, Some []})) (\<lambda>_.
           Option.bind (derive_agent_signing_key T jwt_secret agent_id human_key_image agent_checksum) (\<lambda>seed.
           Option.bind (b64u_decode W p2) (\<lambda>sig.
           Option.bind (ensure (length sig = 64)) (\<lambda>_.
           Option.bind (ensure (ed_verify W (ed_public T seed) (p0 @ ''.'' @ p1) sig)) (\<lambda>_.
           Option.bind (check_temporal payload now) (\<lambda>_.
           Some payload)))))))))))))))))
      | _ \<Rightarrow> None)"

definition verify_ajwt_for_tenant ::
  "token_tools \<Rightarrow> env \<Rightarrow> string \<Rightarrow> string \<Rightarrow> string \<Rightarrow> i64 \<Rightarrow> json option" where
  "verify_ajwt_for_tenant T env jwt_secret token expected_tenant_id now =
     Option.bind (verify_ajwt T env jwt_secret token now) (\<lambda>claims.
     Option.bind (ensure (str_claim claims ''tenant_id'' = Some expected_tenant_id)) (\<lambda>_.
     Some claims))"

section \<open>Delegated scopes\<close>

definition scope_array :: "json option \<Rightarrow> string list option" where
  "scope_array v = map_option (List.map_filter as_str) (Option.bind v as_array)"

definition intent_scopes :: "json \<Rightarrow> string list" where
  "intent_scopes v =
     (case scope_array (jget v ''scope'') of
        Some ss \<Rightarrow> ss
      | None \<Rightarrow>
          (case scope_array (Option.bind (jget v ''constraints'') (\<lambda>c. jget c ''scope'')) of
             Some ss \<Rightarrow> ss
           | None \<Rightarrow>
               (case str_claim v ''action'' of
                  Some s \<Rightarrow> if s \<noteq> [] then [s] else []
                | None \<Rightarrow> [])))"

definition scopes_from_intent_json :: "('z) web_scheme \<Rightarrow> string \<Rightarrow> string list" where
  "scopes_from_intent_json W intent_json =
     intent_scopes (case json_parse W intent_json of Some v \<Rightarrow> v | None \<Rightarrow> JNull)"

definition assert_child_scopes_subset_of_parent ::
  "('z) web_scheme \<Rightarrow> string \<Rightarrow> string \<Rightarrow> (msg, unit) result" where
  "assert_child_scopes_subset_of_parent W parent_intent_json child_intent_json =
     (let parent = scopes_from_intent_json W parent_intent_json;
          child = scopes_from_intent_json W child_intent_json
      in if parent = [] then Err (Msg ''parent agent intent defines no delegable scopes (add scope[] or action)'')
         else if child = []
         then Err (Msg ''child agent intent must declare scope[] (or action) for delegated registration'')
         else try_all (\<lambda>s. if s \<in> set parent then Ok ()
                else Err (Fmt ''delegation scope {:?} not allowed by parent intent'' [AStr s])) child)"

section \<open>Used token ids\<close>

definition jti_insert_error :: "string \<Rightarrow> string" where
  "jti_insert_error e =
     (let m = to_ascii_lowercase e in
      if str_contains m ''unique'' \<or> str_contains m ''duplicate key''
      then ''A-JWT jti replay (token already used)'' else e)"

definition consume_jti_on ::
  "('z) any_env_scheme \<Rightarrow> i64 \<Rightarrow> string \<Rightarrow> i64 \<Rightarrow> database \<Rightarrow> (string, unit) result \<times> database" where
  "consume_jti_on conn now jti exp' db =
     (if jti = [] then (Err ''missing jti'', db)
      else if 256 < length jti then (Err ''jti too long (max 256 chars)'', db)
      else any_transaction conn 0 3 (\<lambda>tx.
        and_then (run_stmt conn 1 False
          (tx\<lparr>ajwt_used_jtis := purge (\<lambda>e. e) now (ajwt_used_jtis tx)\<rparr>)) (\<lambda>tx.
        map_err jti_insert_error (run_stmt conn 2 (ajwt_used_jtis tx jti \<noteq> None)
          ((), tx\<lparr>ajwt_used_jtis := (ajwt_used_jtis tx)(jti \<mapsto> exp')\<rparr>)))) db)"

section \<open>Proof of possession\<close>

text \<open>
  \<open>String::from_utf8\<close> accepts the well-formed sequences of the Unicode standard, table 3-7.
\<close>

definition continuation :: "char \<Rightarrow> bool" where
  "continuation c \<longleftrightarrow> 128 \<le> byte c \<and> byte c < 192"

definition between :: "nat \<Rightarrow> nat \<Rightarrow> char \<Rightarrow> bool" where
  "between lo hi c \<longleftrightarrow> lo \<le> byte c \<and> byte c \<le> hi"

text \<open>The tests on the bytes that must follow a leading byte; \<^term>\<open>None\<close> for a byte that leads nothing.\<close>

definition utf8_tail :: "char \<Rightarrow> (char \<Rightarrow> bool) list option" where
  "utf8_tail c =
     (if byte c < 128 then Some []
      else if between 194 223 c then Some [continuation]
      else if byte c = 224 then Some [between 160 191, continuation]
      else if byte c = 237 then Some [between 128 159, continuation]
      else if between 225 239 c then Some [continuation, continuation]
      else if byte c = 240 then Some [between 144 191, continuation, continuation]
      else if between 241 243 c then Some [continuation, continuation, continuation]
      else if byte c = 244 then Some [between 128 143, continuation, continuation]
      else None)"

fun utf8_valid_from :: "(char \<Rightarrow> bool) list \<Rightarrow> string \<Rightarrow> bool" where
  "utf8_valid_from [] [] \<longleftrightarrow> True"
| "utf8_valid_from [] (c # s) \<longleftrightarrow> (case utf8_tail c of Some ps \<Rightarrow> utf8_valid_from ps s | None \<Rightarrow> False)"
| "utf8_valid_from (p # ps) [] \<longleftrightarrow> False"
| "utf8_valid_from (p # ps) (c # s) \<longleftrightarrow> p c \<and> utf8_valid_from ps s"

definition utf8_valid :: "string \<Rightarrow> bool" where
  "utf8_valid s \<longleftrightarrow> utf8_valid_from [] s"

definition verify_ed25519_pop_jws ::
  "('z) web_scheme \<Rightarrow> string \<Rightarrow> string \<Rightarrow> string \<Rightarrow> (string, unit) result" where
  "verify_ed25519_pop_jws W chal jws public_key_b64url =
     and_then (ok_or (b64u_decode W (trim public_key_b64url)) ''pop_public_key_b64u invalid base64url'') (\<lambda>pk.
     and_then (ok_or (ensure (length pk = 32)) ''pop public key must decode to 32 bytes'') (\<lambda>_.
     and_then (ok_or (ensure (ed_key_ok W pk)) ''invalid Ed25519 public key'') (\<lambda>_.
     case splitn 3 CHR ''.'' jws of
       [p0, p1, p2] \<Rightarrow>
         and_then (ok_or (b64u_decode W p1) ''pop JWS payload b64 invalid'') (\<lambda>payload.
         and_then (ok_or (ensure (utf8_valid payload)) ''pop JWS payload not UTF-8'') (\<lambda>_.
         and_then (ok_or (ensure (payload = chal)) ''pop JWS payload does not match challenge'') (\<lambda>_.
         and_then (ok_or (b64u_decode W p2) ''pop JWS sig b64 invalid'') (\<lambda>sig.
         and_then (ok_or (ensure (length sig = 64)) ''invalid Ed25519 signature'') (\<lambda>_.
         ok_or (ensure (ed_verify W pk (p0 @ ''.'' @ p1) sig)) ''PoP signature verification failed'')))))
     | _ \<Rightarrow> Err ''pop JWS must have 3 segments'')))"

text \<open>Each statement of the challenge store commits on its own.\<close>

definition insert_pop_challenge_on ::
  "('z) any_env_scheme \<Rightarrow> i64 \<Rightarrow> string \<Rightarrow> string \<Rightarrow> string \<Rightarrow> i64 \<Rightarrow> database \<Rightarrow> (string, i64) result \<times> database" where
  "insert_pop_challenge_on conn now cid agent_id chal ttl_secs db =
     (let exp' = i64_wrap (now + ttl_secs) in
      case run_stmt conn 0 False () of
        Err e \<Rightarrow> (Err e, db)
      | Ok _ \<Rightarrow>
          (let db = db\<lparr>agent_pop_challenges := purge pop_exp now (agent_pop_challenges db)\<rparr> in
           case run_stmt conn 1 (agent_pop_challenges db cid \<noteq> None) () of
             Err e \<Rightarrow> (Err e, db)
           | Ok _ \<Rightarrow>
               (Ok exp', db\<lparr>agent_pop_challenges := (agent_pop_challenges db)(cid \<mapsto>
                  \<lparr>pop_agent_id = agent_id, pop_challenge = chal, pop_exp = exp'\<rparr>)\<rparr>)))"

definition delete_pop :: "string \<Rightarrow> database \<Rightarrow> database" where
  "delete_pop cid db = db\<lparr>agent_pop_challenges := (agent_pop_challenges db)(cid := None)\<rparr>"

text \<open>The part of \<open>take_pop_challenge\<close> up to its checks, and the delete that decides.\<close>

definition read_pop ::
  "('z) any_env_scheme \<Rightarrow> i64 \<Rightarrow> string \<Rightarrow> string \<Rightarrow> database \<Rightarrow> (string, string) result \<times> database" where
  "read_pop conn now challenge_id expected_agent_id db =
     (case require_row conn 0 (agent_pop_challenges db challenge_id) ''unknown or expired pop_challenge_id'' of
        Err e \<Rightarrow> (Err e, db)
      | Ok row \<Rightarrow>
          if pop_agent_id row \<noteq> expected_agent_id then (Err ''pop challenge does not match agent'', db)
          else if pop_exp row < now
          then (Err ''pop challenge expired'', if stmt_fault conn 1 = None then delete_pop challenge_id db else db)
          else (Ok (pop_challenge row), db))"

definition claim_pop ::
  "('z) any_env_scheme \<Rightarrow> string \<Rightarrow> database \<Rightarrow> (string, unit) result \<times> database" where
  "claim_pop conn challenge_id db =
     (case run_stmt conn 2 False () of
        Err e \<Rightarrow> (Err e, db)
      | Ok _ \<Rightarrow>
          if agent_pop_challenges db challenge_id = None then (Err ''pop challenge already used'', db)
          else (Ok (), delete_pop challenge_id db))"

definition take_pop_challenge_on ::
  "('z) any_env_scheme \<Rightarrow> i64 \<Rightarrow> string \<Rightarrow> string \<Rightarrow> database \<Rightarrow> (string, string) result \<times> database" where
  "take_pop_challenge_on conn now challenge_id expected_agent_id db =
     (case read_pop conn now challenge_id expected_agent_id db of
        (Err e, db) \<Rightarrow> (Err e, db)
      | (Ok chal, db) \<Rightarrow>
          (case claim_pop conn challenge_id db of
             (Err e, db) \<Rightarrow> (Err e, db)
           | (Ok _, db) \<Rightarrow> (Ok chal, db)))"

section \<open>Tokens that were minted\<close>

text \<open>What the minter and the verifier rely on in the third-party functions.\<close>

definition codec_laws :: "token_tools \<Rightarrow> bool" where
  "codec_laws T \<longleftrightarrow>
     (\<forall>x. b64u_decode (tt_web T) (b64u_encode (tt_web T) x) = Some x) \<and>
     (\<forall>x. CHR ''.'' \<notin> set (b64u_encode (tt_web T) x)) \<and>
     (\<forall>kvs. distinct (map fst kvs) \<longrightarrow>
        (\<exists>kvs'. json_parse (tt_web T) (json_print T (JObj kvs)) = Some (JObj kvs') \<and> map_of kvs' = map_of kvs)) \<and>
     (\<forall>seed m. length (ed_sign T seed m) = 64 \<and>
        ed_verify (tt_web T) (ed_public T seed) m (ed_sign T seed m))"

lemma ensure_Some_iff [simp]: "ensure b = Some u \<longleftrightarrow> b" "ensure b = None \<longleftrightarrow> \<not> b"
  by (simp_all add: ensure_def)

lemma splitn_two_dots:
  assumes "c \<notin> set x" "c \<notin> set y"
  shows "splitn 3 c (x @ [c] @ y @ [c] @ z) = [x, y, z]"
proof -
  have "dropWhile (\<lambda>d. d \<noteq> c) (u @ c # v) = c # v" "takeWhile (\<lambda>d. d \<noteq> c) (u @ c # v) = u"
    if "c \<notin> set u" for u v :: string
    using that by (induction u) auto
  then show ?thesis
    using assms by (simp add: numeral_3_eq_3)
qed

lemma as_i64_json_i64: "is_i64 x \<Longrightarrow> as_i64 (json_i64 x) = Some x"
  by (auto simp: json_i64_def is_i64_def i64_MAX_def i64_MIN_def uint_word_of_int_eq take_bit_int_eq_self)

lemma map_of_json_set [simp]: "map_of (json_set k v kvs) = (map_of kvs)(k \<mapsto> v)"
  by (simp add: json_set_def update_conv')

lemma distinct_json_set: "distinct (map fst kvs) \<Longrightarrow> distinct (map fst (json_set k v kvs))"
  by (simp add: json_set_def distinct_update)

lemma distinct_ajwt_claims: "distinct (map fst (ajwt_claims aud human aid checksum intent tenant now ttl jti extra))"
  by (auto simp: ajwt_claims_def Let_def intro!: distinct_json_set split: option.splits)

lemma ajwt_claims_lookup:
  assumes "map_of kvs = map_of (ajwt_claims aud human aid checksum intent tenant now ttl jti extra)"
  shows "str_claim (JObj kvs) ''agent_id'' = Some aid" "str_claim (JObj kvs) ''sub'' = Some human"
    "str_claim (JObj kvs) ''agent_checksum'' = Some checksum" "str_claim (JObj kvs) ''iss'' = Some ''did:sauron:idp''"
    "str_claim (JObj kvs) ''aud'' = Some aud" "str_claim (JObj kvs) ''tenant_id'' = Some tenant"
    "str_claim (JObj kvs) ''intent'' = Some intent" "str_claim (JObj kvs) ''jti'' = Some jti"
    "claim_i64 (JObj kvs) ''iat'' = as_i64 (json_i64 now)" "claim_i64 (JObj kvs) ''nbf'' = None"
    "claim_i64 (JObj kvs) ''exp'' = as_i64 (json_i64 (i64_wrap (now + ttl)))"
  using assms by (simp_all add: str_claim_def claim_i64_def ajwt_claims_def Let_def split: option.splits)

lemma ajwt_header_lookup:
  assumes "map_of kvs = map_of (ajwt_header aid)"
  shows "str_claim (JObj kvs) ''alg'' = Some ''EdDSA''" "str_claim (JObj kvs) ''typ'' = Some ''ajwt+jwt''"
    "str_claim (JObj kvs) ''kid'' = Some aid"
  using assms by (simp_all add: str_claim_def ajwt_header_def)

lemma clamp_above: "86400 < i64_clamp x \<longleftrightarrow> 86400 < x"
  by (auto simp: i64_clamp_def i64_MIN_def i64_MAX_def min_def max_def)

lemma verify_forged:
  assumes laws: "codec_laws T"
    and tok: "forge_ajwt T env jwt_secret human aid checksum intent tenant ttl extra t0 jti = Some tok"
    and tenant: "tenant \<noteq> []" and range: "is_i64 t0" "is_i64 (t0 + ttl)"
  obtains kvs where "map_of kvs = map_of (ajwt_claims (ajwt_audience env) human aid checksum intent tenant t0 ttl jti extra)"
    "verify_ajwt T env jwt_secret tok t =
      (if t \<le> t0 + ttl \<and> t0 \<le> t + 300 \<and> ttl \<le> 86400 then Some (JObj kvs) else None)"
proof -
  let ?W = "tt_web T" and ?claims = "ajwt_claims (ajwt_audience env) human aid checksum intent tenant t0 ttl jti extra"
  let ?h = "b64u_encode ?W (json_print T (JObj (ajwt_header aid)))"
  let ?p = "b64u_encode ?W (json_print T (JObj ?claims))"
  obtain seed where seed: "derive_agent_signing_key T jwt_secret aid human checksum = Some seed"
    "tok = ?h @ ''.'' @ ?p @ ''.'' @ b64u_encode ?W (ed_sign T seed (?h @ ''.'' @ ?p))"
    using tok by (auto simp: forge_ajwt_def Let_def)
  have b64: "b64u_decode ?W (b64u_encode ?W x) = Some x" "CHR ''.'' \<notin> set (b64u_encode ?W x)" for x
    using laws by (simp_all add: codec_laws_def)
  have parts: "splitn 3 CHR ''.'' tok = [?h, ?p, b64u_encode ?W (ed_sign T seed (?h @ ''.'' @ ?p))]"
    unfolding seed(2) by (rule splitn_two_dots) (simp_all add: b64(2))
  have "distinct (map fst (ajwt_header aid))" by (simp add: ajwt_header_def)
  then obtain hs kvs where hs: "json_parse ?W (json_print T (JObj (ajwt_header aid))) = Some (JObj hs)"
      "map_of hs = map_of (ajwt_header aid)"
    and kvs: "json_parse ?W (json_print T (JObj ?claims)) = Some (JObj kvs)" "map_of kvs = map_of ?claims"
    using laws distinct_ajwt_claims unfolding codec_laws_def by meson
  have "verify_ajwt T env jwt_secret tok t =
      Option.bind (check_temporal (JObj kvs) t) (\<lambda>_. Some (JObj kvs))"
    using laws tenant
    by (simp add: verify_ajwt_def parts b64(1) hs(1) kvs(1) ajwt_header_lookup [OF hs(2)]
        ajwt_claims_lookup [OF kvs(2)] seed(1) codec_laws_def ensure_def)
  moreover have "check_temporal (JObj kvs) t =
      (if t \<le> t0 + ttl \<and> t0 \<le> t + 300 \<and> ttl \<le> 86400 then Some () else None)"
    using range by (auto simp: check_temporal_def ajwt_claims_lookup [OF kvs(2)] as_i64_json_i64 ensure_def
        CLOCK_SKEW_SECS_def MAX_AJWT_LIFETIME_SECS_def i64_saturating_sub_def clamp_above not_less)
  ultimately show thesis
    using that [OF kvs(2)] by simp
qed

text \<open>
  C29. A minted token is accepted exactly as long as it should be: a token minted at \<open>t0\<close> for \<open>ttl\<close> seconds
  passes the verification for a tenant at time \<open>t\<close> if and only if the tenant is the one it was minted for, \<open>t\<close> is
  neither past its expiry nor more than five minutes before its issue, and its lifetime is at most a day;
  and then it yields the agent, the owner, the configuration checksum and the intent it was minted with.  A token minted for more than a day is never
  accepted.
\<close>

theorem minted_token_accepted_iff:
  assumes "codec_laws T"
    and "forge_ajwt T env jwt_secret human aid checksum intent tenant ttl extra t0 jti = Some tok"
    and "tenant \<noteq> []" "is_i64 t0" "is_i64 (t0 + ttl)"
  shows "(verify_ajwt_for_tenant T env jwt_secret tok tenant' t \<noteq> None \<longleftrightarrow>
      tenant' = tenant \<and> t \<le> t0 + ttl \<and> t0 \<le> t + 300 \<and> ttl \<le> 86400) \<and>
    (\<forall>claims. verify_ajwt_for_tenant T env jwt_secret tok tenant' t = Some claims \<longrightarrow>
      str_claim claims ''agent_id'' = Some aid \<and> str_claim claims ''sub'' = Some human \<and>
      str_claim claims ''agent_checksum'' = Some checksum \<and> str_claim claims ''intent'' = Some intent)"
proof -
  obtain kvs where kvs: "map_of kvs =
      map_of (ajwt_claims (ajwt_audience env) human aid checksum intent tenant t0 ttl jti extra)"
    "verify_ajwt T env jwt_secret tok t =
      (if t \<le> t0 + ttl \<and> t0 \<le> t + 300 \<and> ttl \<le> 86400 then Some (JObj kvs) else None)"
    using verify_forged [OF assms] by blast
  show ?thesis
    by (auto simp: verify_ajwt_for_tenant_def kvs(2) ajwt_claims_lookup [OF kvs(1)] bind_eq_Some_conv)
qed

text \<open>Tools that satisfy the laws: two letters per byte, and a numbering of the JSON values.\<close>

instance f64 :: countable
  by countable_datatype

instance json_num :: countable
  by countable_datatype

instance json :: countable
  by countable_datatype

definition demo_encode :: "string \<Rightarrow> string" where
  "demo_encode s = concat (map (\<lambda>c. [char_of (65 + byte c div 16), char_of (65 + byte c mod 16)]) s)"

fun demo_decode :: "string \<Rightarrow> string option" where
  "demo_decode [] = Some []"
| "demo_decode [c] = None"
| "demo_decode (c # d # s) = map_option (Cons (char_of ((byte c - 65) * 16 + (byte d - 65)))) (demo_decode s)"

definition demo_token_tools :: token_tools where
  "demo_token_tools =
     \<lparr>tt_web = \<lparr>sha256 = (\<lambda>s. s), hex_encode = (\<lambda>s. s), b64u_decode = demo_decode, b64u_encode = demo_encode,
        ed_key_ok = (\<lambda>k. True), ed_verify = (\<lambda>k m s. True), json_parse = (\<lambda>s. Some (from_nat (dec_value s))),
        uri_parse = (\<lambda>s. None), jwt_tnt = (\<lambda>k t. None)\<rparr>,
      tt_crypto = \<lparr>sha256 = (\<lambda>s. s), hex_encode = (\<lambda>s. s), hkdf_sha256 = (\<lambda>s k i. k), hmac_sha256 = (\<lambda>k m. m),
        json_str = (\<lambda>s. s)\<rparr>,
      hkdf_expand = (\<lambda>k i. k), ed_public = (\<lambda>k. k), ed_sign = (\<lambda>k m. replicate 64 CHR ''s''),
      ed_verify_strict = (\<lambda>k m s. True), ed_is_weak = (\<lambda>k. False),
      json_print = (\<lambda>v. nat_to_string (to_nat v))\<rparr>"

lemma demo_nibbles: "65 + byte c div 16 < 256" "65 + byte c mod 16 < 256"
proof -
  have "byte c < 256" by simp
  then show "65 + byte c div 16 < 256" "65 + byte c mod 16 < 256" by presburger+
qed

lemma demo_decode_encode: "demo_decode (demo_encode s) = Some s"
proof (induction s)
  case (Cons c s)
  note demo_nibbles [of c]
  then show ?case
    using Cons by (simp add: demo_encode_def)
qed (simp add: demo_encode_def)

lemma demo_encode_no_dot: "CHR ''.'' \<notin> set (demo_encode s)"
proof (induction s)
  case (Cons c s)
  note demo_nibbles [of c]
  then have "byte (char_of (65 + byte c div 16)) \<noteq> byte CHR ''.''" "byte (char_of (65 + byte c mod 16)) \<noteq> byte CHR ''.''"
    by (simp_all add: byte_def)
  then show ?case
    using Cons by (auto simp: demo_encode_def)
qed (simp add: demo_encode_def)

lemma demo_tools_laws: "codec_laws demo_token_tools"
  by (auto simp: codec_laws_def demo_token_tools_def demo_decode_encode demo_encode_no_dot)

lemma demo_forge:
  obtains tok where "forge_ajwt demo_token_tools env ''k'' ''h'' ''a'' ''c'' ''{}'' ''t'' ttl None t0 ''j'' = Some tok"
proof -
  have "\<exists>info. canonical_fields ''sauron.ajwt.agent-key.v2''
      [(''agent_id'', ''a''), (''human_key_image'', ''h''), (''agent_checksum'', ''c'')] = Some info"
    by (simp add: canonical_fields_Some_iff fits_def)
  then show thesis
    using that by (auto simp: forge_ajwt_def Let_def derive_agent_signing_key_def)
qed

theorem minted_token_accepted_iff_witness:
  "\<exists>tok. forge_ajwt demo_token_tools (\<lambda>v. None) ''k'' ''h'' ''a'' ''c'' ''{}'' ''t'' 60 None 1000 ''j'' = Some tok \<and>
     verify_ajwt_for_tenant demo_token_tools (\<lambda>v. None) ''k'' tok ''t'' 1030 \<noteq> None \<and>
     verify_ajwt_for_tenant demo_token_tools (\<lambda>v. None) ''k'' tok ''t'' 1061 = None"
proof -
  obtain tok where tok: "forge_ajwt demo_token_tools (\<lambda>v. None) ''k'' ''h'' ''a'' ''c'' ''{}'' ''t'' 60 None 1000 ''j'' = Some tok"
    by (rule demo_forge)
  have "is_i64 1000" "is_i64 (1000 + 60)" "''t'' \<noteq> []"
    by (simp_all add: is_i64_def i64_MIN_def i64_MAX_def)
  note accepted = minted_token_accepted_iff [OF demo_tools_laws tok this(3,1,2), of "''t''"]
  from accepted [of 1030] accepted [of 1061] tok show ?thesis by auto
qed

section \<open>Lifetime\<close>

lemma verify_ajwt_temporal:
  assumes "verify_ajwt T env jwt_secret tok t = Some claims"
  shows "check_temporal claims t = Some ()"
    and "verify_ajwt T env jwt_secret tok t' = Some claims' \<Longrightarrow> claims' = claims"
  using assms
  by (auto simp: verify_ajwt_def Let_def bind_eq_Some_conv split: list.splits)

text \<open>
  A token lives for a day at most: any two moments at which the same token is accepted and yields a claim \<open>iat\<close> lie
  within a day and the five minutes of clock skew.  (A signed token without \<open>iat\<close> has no such
  bound: the ceiling is only tested against that claim.)
\<close>

theorem token_lifetime_bounded:
  assumes "verify_ajwt T env jwt_secret tok t = Some claims" "verify_ajwt T env jwt_secret tok t' = Some claims'"
    and "claim_i64 claims ''iat'' = Some iat"
  shows "claims' = claims \<and> \<bar>t - t'\<bar> \<le> 86400 + 300"
proof -
  have same: "claims' = claims"
    using verify_ajwt_temporal(2) [OF assms(1,2)] .
  have "iat - 300 \<le> s \<and> s \<le> iat + 86400" if temporal: "check_temporal claims s = Some ()" for s
  proof -
    obtain e where e: "s \<le> e" "iat \<le> s + 300" "i64_saturating_sub e iat \<le> 86400"
      using temporal assms(3) by (auto simp: check_temporal_def bind_eq_Some_conv CLOCK_SKEW_SECS_def
          MAX_AJWT_LIFETIME_SECS_def not_less)
    then have "e - iat \<le> 86400"
      using clamp_above [of "e - iat"] by (simp add: i64_saturating_sub_def)
    then show ?thesis using e by simp
  qed
  from this [OF verify_ajwt_temporal(1) [OF assms(1)]] this [OF verify_ajwt_temporal(1) [OF assms(2) [unfolded same]]]
  show ?thesis
    using same by linarith
qed

theorem token_lifetime_bounded_witness:
  "\<exists>tok claims. verify_ajwt demo_token_tools (\<lambda>v. None) ''k'' tok 1030 = Some claims \<and>
     verify_ajwt demo_token_tools (\<lambda>v. None) ''k'' tok 1050 = Some claims \<and> claim_i64 claims ''iat'' = Some 1000 \<and>
     \<bar>1030 - 1050 :: int\<bar> \<le> 86400 + 300"
proof -
  obtain tok where tok: "forge_ajwt demo_token_tools (\<lambda>v. None) ''k'' ''h'' ''a'' ''c'' ''{}'' ''t'' 60 None 1000 ''j'' = Some tok"
    by (rule demo_forge)
  have range: "is_i64 1000" "is_i64 (1000 + 60)" "''t'' \<noteq> []"
    by (simp_all add: is_i64_def i64_MIN_def i64_MAX_def)
  obtain kvs where kvs: "map_of kvs = map_of (ajwt_claims (ajwt_audience (\<lambda>v. None)) ''h'' ''a'' ''c'' ''{}'' ''t'' 1000 60 ''j'' None)"
      "verify_ajwt demo_token_tools (\<lambda>v. None) ''k'' tok 1030 = Some (JObj kvs)"
    by (rule verify_forged [OF demo_tools_laws tok range(3,1,2), of 1030]) simp
  obtain kvs' where kvs': "verify_ajwt demo_token_tools (\<lambda>v. None) ''k'' tok 1050 = Some (JObj kvs')"
    by (rule verify_forged [OF demo_tools_laws tok range(3,1,2), of 1050]) simp
  have iat: "claim_i64 (JObj kvs) ''iat'' = Some 1000"
    using ajwt_claims_lookup(9) [OF kvs(1)] as_i64_json_i64 [OF range(1)] by simp
  from token_lifetime_bounded [OF kvs(2) kvs' iat] kvs kvs' iat show ?thesis by auto
qed

section \<open>Delegation\<close>

text \<open>An intent that names its actions in one place only.\<close>

definition one_source :: "json \<Rightarrow> bool" where
  "one_source v \<longleftrightarrow>
     (scope_array (jget v ''scope'') \<noteq> None \<longrightarrow>
        scope_array (Option.bind (jget v ''constraints'') (\<lambda>c. jget c ''scope'')) = None \<and>
        str_claim v ''action'' = None) \<and>
     (scope_array (Option.bind (jget v ''constraints'') (\<lambda>c. jget c ''scope'')) \<noteq> None \<longrightarrow>
        str_claim v ''action'' = None)"

definition normal_scope :: "string \<Rightarrow> string" where
  "normal_scope s = to_ascii_lowercase (trim s)"

lemma scope_strings_array:
  "scope_strings v = (case scope_array v of Some ss \<Rightarrow> map normal_scope ss | None \<Rightarrow> [])"
  by (simp add: scope_strings_def scope_array_def normal_scope_def split: option.splits)

lemma allowed_iff:
  "action_allowed_by_intent (Some v) a \<longleftrightarrow> normal_scope a \<noteq> [] \<and>
     normal_scope a \<in> set (scope_strings (jget v ''scope'')) \<union>
       set (scope_strings (Option.bind (jget v ''constraints'') (\<lambda>c. jget c ''scope''))) \<union>
       (case str_claim v ''action'' of Some s \<Rightarrow> {normal_scope s} | None \<Rightarrow> {})"
  by (auto simp: action_allowed_by_intent_def normal_scope_def str_claim_def Let_def split: option.splits)

lemma normal_scope_Nil [simp]: "normal_scope [] = []"
proof -
  have "find (\<lambda>p. p \<noteq> [] \<and> prefix p []) ps = None" for ps :: "string list"
    by (auto simp: find_None_iff)
  then have "strip_all ps [] = []" for ps
    by (subst strip_all.simps) simp
  then show ?thesis
    by (simp add: normal_scope_def trim_def trim_start_def trim_end_def to_ascii_lowercase_def)
qed

lemma scopes_allowed:
  assumes "s \<in> set (intent_scopes v)" "normal_scope a = normal_scope s" "normal_scope a \<noteq> []"
  shows "action_allowed_by_intent (Some v) a"
  using assms
  by (cases "scope_array (jget v ''scope'')";
      cases "scope_array (Option.bind (jget v ''constraints'') (\<lambda>c. jget c ''scope''))"; cases "str_claim v ''action''")
    (auto simp: allowed_iff intent_scopes_def scope_strings_array split: if_splits)

lemma allowed_scopes:
  assumes "action_allowed_by_intent (Some v) a" "one_source v"
  obtains s where "s \<in> set (intent_scopes v)" "normal_scope a = normal_scope s" "normal_scope a \<noteq> []"
proof -
  have "\<exists>s \<in> set (intent_scopes v). normal_scope a = normal_scope s \<and> normal_scope a \<noteq> []"
    using assms
    by (cases "scope_array (jget v ''scope'')";
        cases "scope_array (Option.bind (jget v ''constraints'') (\<lambda>c. jget c ''scope''))"; cases "str_claim v ''action''")
      (auto simp: allowed_iff intent_scopes_def scope_strings_array one_source_def)
  then show thesis using that by blast
qed

lemma assert_child_Ok_iff:
  "assert_child_scopes_subset_of_parent W p c = Ok () \<longleftrightarrow>
     scopes_from_intent_json W p \<noteq> [] \<and> scopes_from_intent_json W c \<noteq> [] \<and>
     set (scopes_from_intent_json W c) \<subseteq> set (scopes_from_intent_json W p)"
  by (auto simp: assert_child_scopes_subset_of_parent_def try_all_Ok_iff Let_def split: if_splits)

text \<open>
  C30. Delegation narrows: when the registration check lets a child be delegated, and the intent of the child names its actions in one
  place, every action the child's intent allows at action time is allowed by the parent's intent.
\<close>

theorem delegation_narrows:
  assumes "assert_child_scopes_subset_of_parent W p c = Ok ()"
    and "json_parse W p = Some parent" "json_parse W c = Some child"
    and "one_source child" "action_allowed_by_intent (Some child) a"
  shows "action_allowed_by_intent (Some parent) a"
proof -
  obtain s where s: "s \<in> set (intent_scopes child)" "normal_scope a = normal_scope s" "normal_scope a \<noteq> []"
    using allowed_scopes [OF assms(5,4)] by blast
  then have "s \<in> set (intent_scopes parent)"
    using assms(1-3) by (auto simp: assert_child_Ok_iff scopes_from_intent_json_def)
  then show ?thesis
    using scopes_allowed s(2,3) by blast
qed

definition parent_intent :: json where
  "parent_intent = JObj [(''scope'', JArr [JStr ''read'', JStr ''list''])]"

definition narrow_intent :: json where
  "narrow_intent = JObj [(''scope'', JArr [JStr ''read''])]"

definition escaping_intent :: json where
  "escaping_intent = JObj [(''scope'', JArr [JStr ''read'']), (''action'', JStr ''payment_initiation'')]"

definition intent_web :: web where
  "intent_web = (tt_web demo_token_tools)\<lparr>json_parse := (\<lambda>s. map_of
     [(''p'', parent_intent), (''n'', narrow_intent), (''e'', escaping_intent)] s)\<rparr>"

lemma intent_web_parse:
  "json_parse intent_web ''p'' = Some parent_intent" "json_parse intent_web ''n'' = Some narrow_intent"
  "json_parse intent_web ''e'' = Some escaping_intent"
  by (simp_all add: intent_web_def)

lemmas intent_simps = parent_intent_def narrow_intent_def escaping_intent_def intent_scopes_def scope_array_def
  str_claim_def scopes_from_intent_json_def map_filter_simps

lemma normal_scope_graphic:
  "normal_scope ''read'' = ''read''" "normal_scope ''list'' = ''list''"
  "normal_scope ''payment_initiation'' = ''payment_initiation''"
  by (simp_all add: normal_scope_def trim_graphic is_graphic_def byte_def to_ascii_lowercase_def char_lower_def
      is_ascii_upper_def)

theorem delegation_narrows_witness: "action_allowed_by_intent (Some parent_intent) ''read''"
  by (rule delegation_narrows [of intent_web "''p''" "''n''" _ narrow_intent])
    (simp_all add: intent_web_parse assert_child_Ok_iff intent_simps one_source_def allowed_iff scope_strings_array
      normal_scope_graphic)



section \<open>Concurrent takes of one challenge\<close>

text \<open>
  \<open>take_pop_challenge\<close> opens no transaction, so the statements of several calls interleave.  A state
  is the database and what each call has reached; call \<open>i\<close> runs on the connection \<open>conn i\<close> at
  the time \<open>now i\<close> for the agent \<open>ag i\<close>, and all of them present the challenge \<open>cid\<close>.  Other requests and the background sweep may
  delete challenges in between.
\<close>

datatype take_state = Waiting | Validated string | Taken string | Refused string

fun after_read :: "(string, string) result \<Rightarrow> take_state" where
  "after_read (Inr c) = Validated c"
| "after_read (Inl e) = Refused e"

fun after_claim :: "string \<Rightarrow> (string, unit) result \<Rightarrow> take_state" where
  "after_claim c (Inr _) = Taken c"
| "after_claim c (Inl e) = Refused e"

lemma after_read_not_Taken: "after_read r \<noteq> Taken c"
  by (cases r) auto

inductive take_step ::
  "(nat \<Rightarrow> any_env) \<Rightarrow> (nat \<Rightarrow> i64) \<Rightarrow> (nat \<Rightarrow> string) \<Rightarrow> string \<Rightarrow>
   database \<times> (nat \<Rightarrow> take_state) \<Rightarrow> database \<times> (nat \<Rightarrow> take_state) \<Rightarrow> bool"
  for conn now ag cid where
  step_read: "l i = Waiting \<Longrightarrow> read_pop (conn i) (now i) cid (ag i) db = (r, db') \<Longrightarrow>
    take_step conn now ag cid (db, l) (db', l(i := after_read r))"
| step_claim: "l i = Validated c \<Longrightarrow> claim_pop (conn i) cid db = (r, db') \<Longrightarrow>
    take_step conn now ag cid (db, l) (db', l(i := after_claim c r))"
| step_other: "agent_pop_challenges db' \<subseteq>\<^sub>m agent_pop_challenges db \<Longrightarrow> take_step conn now ag cid (db, l) (db', l)"

inductive_cases take_stepE: "take_step conn now ag cid (db, l) s'"

definition taken_at_most_once :: "string \<Rightarrow> database \<times> (nat \<Rightarrow> take_state) \<Rightarrow> bool" where
  "taken_at_most_once cid s \<longleftrightarrow>
     (\<forall>i c. snd s i = Taken c \<longrightarrow> agent_pop_challenges (fst s) cid = None \<and>
        (\<forall>j c'. snd s j = Taken c' \<longrightarrow> j = i))"

lemma read_pop_challenges:
  "read_pop conn now cid ag db = (r, db') \<Longrightarrow> agent_pop_challenges db' \<subseteq>\<^sub>m agent_pop_challenges db"
  by (auto simp: read_pop_def delete_pop_def map_le_def split: sum.splits if_splits)

lemma claim_pop_cases:
  assumes "claim_pop conn cid db = (r, db')"
  obtains (refused) e where "r = Err e" "db' = db"
    | (claimed) row where "r = Ok ()" "agent_pop_challenges db cid = Some row" "agent_pop_challenges db' cid = None"
proof -
  obtain m where m: "run_stmt conn 2 False () = m" by blast
  show thesis
    using assms that by (cases m) (auto simp: claim_pop_def m delete_pop_def split: if_splits)
qed

lemma map_le_None: "m \<subseteq>\<^sub>m m' \<Longrightarrow> m' k = None \<Longrightarrow> m k = None"
  by (metis domIff map_le_implies_dom_le subsetD)

lemma take_step_invariant:
  assumes "take_step conn now ag cid s s'" "taken_at_most_once cid s"
  shows "taken_at_most_once cid s'"
  using assms
proof (cases rule: take_step.cases)
  case (step_read l i db r db')
  then show ?thesis
    using assms(2) map_le_None [OF read_pop_challenges [OF step_read(4)]]
    by (auto simp: taken_at_most_once_def after_read_not_Taken)
next
  case (step_claim l i c db r db')
  from step_claim(4) show ?thesis
  proof (cases rule: claim_pop_cases)
    case (refused e)
    then show ?thesis
      using assms(2) step_claim by (auto simp: taken_at_most_once_def)
  next
    case (claimed row)
    then have "l j \<noteq> Taken c'" for j c'
      using assms(2) step_claim(1) by (auto simp: taken_at_most_once_def)
    then show ?thesis
      using claimed step_claim by (auto simp: taken_at_most_once_def)
  qed
next
  case (step_other db' db l)
  then show ?thesis
    using assms(2) map_le_None [OF step_other(3)] by (auto simp: taken_at_most_once_def)
qed

text \<open>
  C32. A proof-of-possession challenge is handed out at most once although the code opens no transaction: in every
  interleaving of the reads and deletes of any number of calls, with any faults, with other requests deleting challenges in
  between, at most one call obtains the challenge.
\<close>

theorem concurrent_takes_yield_one:
  assumes "(take_step conn now ag cid)\<^sup>*\<^sup>* (db, \<lambda>i. Waiting) (db', l)"
    and "l i = Taken c" "l j = Taken c'"
  shows "i = j \<and> agent_pop_challenges db' cid = None"
proof -
  have "taken_at_most_once cid s" if "(take_step conn now ag cid)\<^sup>*\<^sup>* (db, \<lambda>i. Waiting) s" for s
    using that
  proof (induction rule: rtranclp_induct)
    case base
    then show ?case by (simp add: taken_at_most_once_def)
  next
    case (step s s')
    then show ?case using take_step_invariant by blast
  qed
  from this [OF assms(1)] show ?thesis
    using assms(2,3) by (auto simp: taken_at_most_once_def)
qed

definition demo_pop_db :: database where
  "demo_pop_db = empty_database\<lparr>agent_pop_challenges := [''pch_1'' \<mapsto> \<lparr>pop_agent_id = ''a'', pop_challenge = ''c'', pop_exp = 9\<rparr>]\<rparr>"

theorem concurrent_takes_yield_one_witness:
  "\<exists>db' l. (take_step (\<lambda>i. healthy) (\<lambda>i. 5) (\<lambda>i. ''a'') ''pch_1'')\<^sup>*\<^sup>* (demo_pop_db, \<lambda>i. Waiting) (db', l) \<and>
     l 0 = Refused ''pop challenge already used'' \<and> l 1 = Taken ''c'' \<and> agent_pop_challenges db' ''pch_1'' = None"
proof -
  let ?step = "take_step (\<lambda>i. healthy) (\<lambda>i. 5) (\<lambda>i. ''a'') ''pch_1''"
  let ?l = "\<lambda>i. Waiting" and ?db = "delete_pop ''pch_1'' demo_pop_db"
  let ?l1 = "?l(0 := Validated ''c'')"
  let ?l2 = "?l1(1 := Validated ''c'')"
  let ?l3 = "?l2(1 := Taken ''c'')"
  let ?l4 = "?l3(0 := Refused ''pop challenge already used'')"
  have read: "read_pop healthy 5 ''pch_1'' ''a'' demo_pop_db = (Ok ''c'', demo_pop_db)"
    and claim: "claim_pop healthy ''pch_1'' demo_pop_db = (Ok (), ?db)"
      "claim_pop healthy ''pch_1'' ?db = (Err ''pop challenge already used'', ?db)"
    by (simp_all add: read_pop_def claim_pop_def require_row_def scalar_or_def ok_or_def run_stmt_def healthy_def
        demo_pop_db_def delete_pop_def)
  have "?step (demo_pop_db, ?l) (demo_pop_db, ?l1)" "?step (demo_pop_db, ?l1) (demo_pop_db, ?l2)"
    using step_read [of ?l 0 "\<lambda>i. healthy" "\<lambda>i. 5" _ "\<lambda>i. ''a''", OF _ read]
      step_read [of ?l1 1 "\<lambda>i. healthy" "\<lambda>i. 5" _ "\<lambda>i. ''a''", OF _ read] by simp_all
  moreover have "?step (demo_pop_db, ?l2) (?db, ?l3)" "?step (?db, ?l3) (?db, ?l4)"
    using step_claim [of ?l2 1 "''c''" "\<lambda>i. healthy", OF _ claim(1)]
      step_claim [of ?l3 0 "''c''" "\<lambda>i. healthy", OF _ claim(2)] by simp_all
  ultimately have run: "?step\<^sup>*\<^sup>* (demo_pop_db, ?l) (?db, ?l4)"
    by (meson converse_rtranclp_into_rtranclp rtranclp.rtrancl_refl)
  from concurrent_takes_yield_one [OF run, of 1 "''c''" 1 "''c''"] run show ?thesis
    by (intro exI [of _ ?db] exI [of _ ?l4]) simp
qed

end
