(* ===== verification/Steps.thy ===== *)
theory Steps
  imports Repository
begin

text \<open>
  Handlers as sequences of steps.  A step gets the database and returns its result with the
  database it leaves behind, in the error case too: a handler that stops half-way keeps what its earlier
  statements committed.
\<close>

type_synonym ('s, 'e, 'a) step = "'s \<Rightarrow> ('e, 'a) result \<times> 's"

definition and_do :: "('s, 'e, 'a) step \<Rightarrow> ('a \<Rightarrow> ('s, 'e, 'b) step) \<Rightarrow> ('s, 'e, 'b) step" where
  "and_do m f s = (case m s of (Inl e, s') \<Rightarrow> (Inl e, s') | (Inr x, s') \<Rightarrow> f x s')"

text \<open>A step that does not touch the database, and one that only reads it.\<close>

definition pure_step :: "('e, 'a) result \<Rightarrow> ('s, 'e, 'a) step" where
  "pure_step r s = (r, s)"

definition read_step :: "('s \<Rightarrow> ('e, 'a) result) \<Rightarrow> ('s, 'e, 'a) step" where
  "read_step f s = (f s, s)"

text \<open>\<open>map_err\<close> on the result of a step.\<close>

definition map_err_step :: "('e \<Rightarrow> 'd) \<Rightarrow> ('s, 'e, 'a) step \<Rightarrow> ('s, 'd, 'a) step" where
  "map_err_step f m s = (case m s of (r, s') \<Rightarrow> (map_err f r, s'))"

text \<open>\<open>execute\<close>: one statement with the number \<open>k\<close>, which commits on its own.\<close>

definition execute :: "('z) any_env_scheme \<Rightarrow> nat \<Rightarrow> (database \<Rightarrow> bool) \<Rightarrow> (database \<Rightarrow> database) \<Rightarrow> (database, string, unit) step" where
  "execute conn k violated f db =
     (case stmt_fault conn k of
        Some e \<Rightarrow> (Inl e, db)
      | None \<Rightarrow> if violated db then (Inl (unique_text conn), db) else (Inr (), f db))"

text \<open>\<open>db.lock().unwrap()\<close> followed by statements on the connection.\<close>

definition locked :: "('z) any_env_scheme \<Rightarrow> (database, app_error, 'a) step \<Rightarrow> (database, app_error, 'a) step" where
  "locked conn m db = (if lock_fault conn = None then m db else (Inl Panicked, db))"

section \<open>Rules\<close>

lemma and_do_simps [simp]:
  "m s = (Inl e, s') \<Longrightarrow> and_do m f s = (Inl e, s')"
  "m s = (Inr x, s') \<Longrightarrow> and_do m f s = f x s'"
  by (simp_all add: and_do_def)

lemma and_do_cases:
  assumes "and_do m f s = (r, s')"
  obtains (stop) e where "m s = (Inl e, s')" "r = Inl e"
    | (go) x s1 where "m s = (Inr x, s1)" "f x s1 = (r, s')"
proof -
  obtain r0 s0 where m: "m s = (r0, s0)" by fastforce
  show thesis
    using assms m that by (cases r0) (auto simp: and_do_def)
qed

lemma and_do_OkE:
  assumes "and_do m f s = (Inr y, s')"
  obtains x s1 where "m s = (Inr x, s1)" "f x s1 = (Inr y, s')"
  using assms by (cases rule: and_do_cases) auto

lemma pure_step_iff [simp]: "pure_step r s = (r', s') \<longleftrightarrow> r' = r \<and> s' = s"
  by (auto simp: pure_step_def)

lemma read_step_iff [simp]: "read_step f s = (r', s') \<longleftrightarrow> r' = f s \<and> s' = s"
  by (auto simp: read_step_def)

lemma and_do_pure [simp]:
  "and_do (pure_step (Inr x)) f = f x" "and_do (pure_step (Inl e)) f = pure_step (Inl e)"
  by (auto simp: and_do_def pure_step_def)

lemma map_err_step_OkE:
  assumes "map_err_step f m s = (Inr x, s')"
  shows "m s = (Inr x, s')"
  using assms by (auto simp: map_err_step_def split: prod.splits)

lemma execute_cases:
  assumes "execute conn k violated f db = (r, db')"
  obtains (failed) e where "r = Inl e" "db' = db"
    | (ran) "r = Inr ()" "db' = f db" "\<not> violated db"
  using assms by (auto simp: execute_def split: option.splits if_splits)

lemma execute_works:
  "stmt_fault conn k = None \<Longrightarrow> \<not> violated db \<Longrightarrow> execute conn k violated f db = (Inr (), f db)"
  by (simp add: execute_def)

lemma locked_OkE:
  assumes "locked conn m db = (Inr x, db')"
  shows "lock_fault conn = None" "m db = (Inr x, db')"
  using assms by (auto simp: locked_def split: if_splits)

lemma locked_works [simp]: "lock_fault conn = None \<Longrightarrow> locked conn m db = m db"
  by (simp add: locked_def)

end
