(* ===== verification/User_Session.thy ===== *)
theory User_Session
  imports Ajwt Steps
begin

text \<open>
  The sessions of the owners: the tokens of \<open>user_session.rs\<close> with their revocation epoch, and the
  handlers that issue them (\<open>main/session.rs\<close>, \<open>main/user_credentials.rs\<close>).  A handler gets the connection of each of
  its critical sections as an argument; the clock reads and the random strings are arguments too.
\<close>

section \<open>Tokens\<close>

definition SESSION_TTL_SECS :: i64 where
  "SESSION_TTL_SECS = 3600"

definition SESSION_HEADER :: string where
  "SESSION_HEADER = ''x-sauron-session''"

record verified_session =
  vs_key_image :: string
  vs_epoch :: i64

definition is_ascii_hexdigit :: "char \<Rightarrow> bool" where
  "is_ascii_hexdigit c \<longleftrightarrow>
     is_ascii_digit c \<or> (65 \<le> byte c \<and> byte c \<le> 70) \<or> (97 \<le> byte c \<and> byte c \<le> 102)"

definition is_hex64 :: "string \<Rightarrow> bool" where
  "is_hex64 s \<longleftrightarrow> length s = 64 \<and> list_all is_ascii_hexdigit s"

definition sign_session :: "('z) crypto_scheme \<Rightarrow> string \<Rightarrow> string \<Rightarrow> string" where
  "sign_session H jwt_secret payload =
     hex_encode H (hmac_sha256 H (derive_subkey H jwt_secret ''session-hmac-v1'') (''|SESSION|'' @ payload))"

definition session_payload :: "string \<Rightarrow> string \<Rightarrow> i64 \<Rightarrow> i64 \<Rightarrow> string" where
  "session_payload tenant_id ki epoch expires_at =
     ''v3|'' @ tenant_id @ ''|'' @ ki @ ''|'' @ int_to_string epoch @ ''|'' @ int_to_string expires_at"

definition issue_session ::
  "('z) crypto_scheme \<Rightarrow> string \<Rightarrow> string \<Rightarrow> string \<Rightarrow> i64 \<Rightarrow> i64 \<Rightarrow> string \<times> i64" where
  "issue_session H jwt_secret tenant_id ki epoch now =
     (let expires_at = i64_wrap (now + SESSION_TTL_SECS);
          payload = session_payload tenant_id ki epoch expires_at
      in (payload @ ''|'' @ sign_session H jwt_secret payload, expires_at))"

text \<open>The two sides of the last bar.\<close>

definition rsplit_bar :: "string \<Rightarrow> (string \<times> string) option" where
  "rsplit_bar s =
     (case dropWhile (\<lambda>c. c \<noteq> CHR ''|'') (rev s) of
        [] \<Rightarrow> None
      | _ # p \<Rightarrow> Some (rev p, rev (takeWhile (\<lambda>c. c \<noteq> CHR ''|'') (rev s))))"

definition check_session_fields :: "string \<Rightarrow> i64 \<Rightarrow> string list \<Rightarrow> verified_session option" where
  "check_session_fields expected_tenant_id now fs =
     (case fs of
        [v, tenant_id, ki, epoch, expires_at] \<Rightarrow>
          Option.bind (ensure (v = ''v3'' \<and> tenant_id = expected_tenant_id)) (\<lambda>_.
          Option.bind (ensure (is_hex64 ki)) (\<lambda>_.
          Option.bind (parse_i64 epoch) (\<lambda>epoch.
          Option.bind (parse_i64 expires_at) (\<lambda>expires_at.
          Option.bind (ensure (\<not> now > expires_at)) (\<lambda>_.
          Some \<lparr>vs_key_image = ki, vs_epoch = epoch\<rparr>)))))
      | _ \<Rightarrow> None)"

definition verify_session ::
  "('z) crypto_scheme \<Rightarrow> string \<Rightarrow> string \<Rightarrow> string \<Rightarrow> i64 \<Rightarrow> verified_session option" where
  "verify_session H jwt_secret session expected_tenant_id now =
     Option.bind (rsplit_bar session) (\<lambda>(payload, sig).
     Option.bind (ensure (sign_session H jwt_secret payload = sig)) (\<lambda>_.
     check_session_fields expected_tenant_id now (split_on CHR ''|'' payload)))"

definition stored_epoch :: "database \<Rightarrow> string \<Rightarrow> i64" where
  "stored_epoch db ki =
     (case map_of (user_auth_credentials db) ki of Some r \<Rightarrow> cr_session_epoch r | None \<Rightarrow> 0)"

definition current_epoch :: "('z) any_env_scheme \<Rightarrow> nat \<Rightarrow> string \<Rightarrow> database \<Rightarrow> i64" where
  "current_epoch conn k ki db = scalar_or conn k (stored_epoch db ki) 0"

definition bump_epoch :: "string \<Rightarrow> database \<Rightarrow> database" where
  "bump_epoch ki db =
     db\<lparr>user_auth_credentials := map (\<lambda>(k, r).
       if k = ki then (k, r\<lparr>cr_session_epoch := cr_session_epoch r + 1\<rparr>) else (k, r)) (user_auth_credentials db)\<rparr>"

definition revoke_all :: "('z) any_env_scheme \<Rightarrow> string \<Rightarrow> (database, string, i64) step" where
  "revoke_all conn ki =
     and_do (map_err_step (\<lambda>e. ''bump session_epoch: '' @ e)
       (execute conn 0 (\<lambda>db. False) (bump_epoch ki))) (\<lambda>_.
     read_step (\<lambda>db. Ok (current_epoch conn 1 ki db)))"

definition key_image_from_headers ::
  "('z) crypto_scheme \<Rightarrow> request \<Rightarrow> string \<Rightarrow> string \<Rightarrow> i64 \<Rightarrow> any_env \<Rightarrow> database \<Rightarrow> string option" where
  "key_image_from_headers H rq jwt_secret expected_tenant_id now conn db =
     Option.bind (header_str rq SESSION_HEADER) (\<lambda>raw.
     Option.bind (verify_session H jwt_secret raw expected_tenant_id now) (\<lambda>v.
     Option.bind (ensure (current_epoch conn 0 (vs_key_image v) db = vs_epoch v)) (\<lambda>_.
     Some (vs_key_image v))))"

definition session_key_image ::
  "('z) crypto_scheme \<Rightarrow> any_env \<Rightarrow> request \<Rightarrow> string \<Rightarrow> string \<Rightarrow> i64 \<Rightarrow> database \<Rightarrow> string option" where
  "session_key_image H conn rq jwt_secret expected_tenant_id now db =
     (if lock_fault conn \<noteq> None then None
      else key_image_from_headers H rq jwt_secret expected_tenant_id now conn db)"

section \<open>Credentials\<close>

definition check_b64_key ::
  "('z) web_scheme \<Rightarrow> string \<Rightarrow> app_error \<Rightarrow> app_error \<Rightarrow> app_error \<Rightarrow> (app_error, string) result" where
  "check_b64_key W value not_b64 not_32 not_key =
     and_then (ok_or (b64u_decode W value) not_b64) (\<lambda>bytes.
     and_then (if length bytes = 32 then Ok () else Err not_32) (\<lambda>_.
     if ed_key_ok W bytes then Ok bytes else Err not_key))"

definition validate_user_auth_public_key :: "('z) web_scheme \<Rightarrow> string \<Rightarrow> (app_error, unit) result" where
  "validate_user_auth_public_key W value =
     and_then (check_b64_key W (trim value)
       (app_error_from 400 (Msg ''auth_public_key_b64u must be unpadded base64url''))
       (app_error_from 400 (Msg ''auth_public_key_b64u must decode to 32 bytes''))
       (app_error_from 400 (Msg ''auth_public_key_b64u is not a valid Ed25519 public key''))) (\<lambda>_. Ok ())"

text \<open>\<open>INSERT OR IGNORE\<close>: no effect when the key image has a row or the public key is taken.\<close>

definition insert_credential :: "string \<Rightarrow> string \<Rightarrow> i64 \<Rightarrow> database \<Rightarrow> database" where
  "insert_credential key_image_hex public_key_b64u now db =
     (if list_ex (\<lambda>(k, r). k = key_image_hex \<or> cr_public_key_b64u r = public_key_b64u) (user_auth_credentials db)
      then db
      else db\<lparr>user_auth_credentials := user_auth_credentials db @ [(key_image_hex,
        \<lparr>cr_public_key_b64u = public_key_b64u, cr_created_at = now, cr_session_epoch = 0\<rparr>)]\<rparr>)"

definition insert_binding :: "string \<Rightarrow> string \<Rightarrow> i64 \<Rightarrow> database \<Rightarrow> database" where
  "insert_binding tenant_id key_image_hex now db =
     (if user_auth_tenant_bindings db (tenant_id, key_image_hex) \<noteq> None then db
      else db\<lparr>user_auth_tenant_bindings := (user_auth_tenant_bindings db)((tenant_id, key_image_hex) \<mapsto> now)\<rparr>)"

definition store_user_auth_credential ::
  "('z) web_scheme \<Rightarrow> any_env \<Rightarrow> string \<Rightarrow> string \<Rightarrow> string \<Rightarrow> i64 \<Rightarrow> (database, app_error, unit) step" where
  "store_user_auth_credential W conn tenant_id key_image_hex public_key_b64u now =
     and_do (pure_step (validate_user_auth_public_key W public_key_b64u)) (\<lambda>_.
     locked conn (
     and_do (map_err_step (\<lambda>e. app_error_from 409 (Fmt ''authentication credential conflict: {e}'' [AStr e]))
       (execute conn 0 (\<lambda>db. False) (insert_credential key_image_hex public_key_b64u now))) (\<lambda>_.
     and_do (read_step (\<lambda>db. require_row conn 1 (map_option cr_public_key_b64u (map_of (user_auth_credentials db) key_image_hex))
       (app_error_from 500 (Msg ''stored credential unreadable'')))) (\<lambda>stored.
     and_do (pure_step (require (stored = public_key_b64u) 409
       (Msg ''user already has a different authentication key; authenticated rotation is required''))) (\<lambda>_.
     map_err_step (\<lambda>e. app_error_from 500 (Msg e))
       (execute conn 2 (\<lambda>db. False) (insert_binding tenant_id key_image_hex now)))))))"

text \<open>The public key of an owner who is bound to the tenant.\<close>

definition bound_public_key :: "database \<Rightarrow> string \<Rightarrow> string \<Rightarrow> string option" where
  "bound_public_key db tenant_id ki =
     Option.bind (user_auth_tenant_bindings db (tenant_id, ki)) (\<lambda>_.
     map_option cr_public_key_b64u (map_of (user_auth_credentials db) ki))"

section \<open>Issuing a session\<close>

definition issue_session_for ::
  "('z) crypto_scheme \<Rightarrow> any_env \<Rightarrow> string \<Rightarrow> string \<Rightarrow> string \<Rightarrow> i64 \<Rightarrow> database \<Rightarrow> (app_error, string \<times> i64) result" where
  "issue_session_for H conn jwt_secret tenant_id ki now db =
     (case lock_fault conn of
        Some e \<Rightarrow> fail 503 (Msg e)
      | None \<Rightarrow> Ok (issue_session H jwt_secret tenant_id ki (current_epoch conn 0 ki db) now))"

record user_auth_challenge_response =
  ur_challenge_id :: string
  ur_nonce :: string
  ur_expires_at :: i64
  ur_signing_payload_b64u :: string

definition open_challenges :: "string \<Rightarrow> string \<Rightarrow> i64 \<Rightarrow> database \<Rightarrow> nat" where
  "open_challenges tenant_id ki now db =
     length (filter (\<lambda>r. ac_tenant_id r = tenant_id \<and> ac_key_image_hex r = ki \<and> ac_used_at r = 0 \<and>
       now \<le> ac_expires_at r) (user_auth_challenges db))"

definition user_auth_challenge ::
  "token_tools \<Rightarrow> any_env \<Rightarrow> request \<Rightarrow> string \<Rightarrow> i64 \<Rightarrow> string \<Rightarrow> string \<Rightarrow>
   (database, app_error, user_auth_challenge_response) step" where
  "user_auth_challenge T conn rq key_image_hex now hex_id nonce =
     (let tenant_id = request_tenant rq;
          ki = to_ascii_lowercase (trim key_image_hex);
          expires_at = i64_wrap (now + 120);
          challenge_id = ''uac_'' @ hex_id
      in
      and_do (pure_step (require (is_hex64 ki) 400 (Msg ''key_image_hex must be 32-byte hex''))) (\<lambda>_.
      and_do (locked conn (\<lambda>db.
        let db = (if stmt_fault conn 0 = None
              then db\<lparr>user_auth_challenges := filter (\<lambda>r. \<not> (ac_expires_at r < now - 300 \<or> ac_used_at r > 0))
                (user_auth_challenges db)\<rparr>
              else db);
            total = scalar_or conn 1 (length (user_auth_challenges db)) 0;
            active_for_subject = scalar_or conn 2 (open_challenges tenant_id ki now db) 0
        in if total \<ge> 100000 \<or> active_for_subject \<ge> 5
           then (fail 429 (Msg ''authentication challenge capacity exceeded''), db)
           else map_err_step (\<lambda>e. app_error_from 500 (Msg e))
             (execute conn 3 (\<lambda>db. \<exists>r \<in> set (user_auth_challenges db). ac_challenge_id r = challenge_id)
               (\<lambda>db. db\<lparr>user_auth_challenges := user_auth_challenges db @
                 [\<lparr>ac_challenge_id = challenge_id, ac_tenant_id = tenant_id, ac_key_image_hex = ki,
                   ac_nonce = nonce, ac_expires_at = expires_at, ac_used_at = 0\<rparr>]\<rparr>)) db)) (\<lambda>_.
      and_do (pure_step (ok_or (user_auth_challenge_payload challenge_id tenant_id ki nonce expires_at)
        Panicked)) (\<lambda>signing_payload.
      pure_step (Ok \<lparr>ur_challenge_id = challenge_id, ur_nonce = nonce, ur_expires_at = expires_at,
        ur_signing_payload_b64u = b64u_encode (tt_web T) signing_payload\<rparr>)))))"

record user_auth_finish_body =
  uf_challenge_id :: string
  uf_key_image_hex :: string
  uf_signature_b64u :: string

record session_response =
  sr_session :: string
  sr_key_image :: string
  sr_expires_at :: i64

text \<open>A challenge that a finish can still use, and the conditional write that uses it.\<close>

definition finishable :: "string \<Rightarrow> string \<Rightarrow> string \<Rightarrow> i64 \<Rightarrow> auth_challenge_row \<Rightarrow> bool" where
  "finishable challenge_id tenant_id ki now r \<longleftrightarrow>
     ac_challenge_id r = challenge_id \<and> ac_tenant_id r = tenant_id \<and> ac_key_image_hex r = ki \<and>
     ac_used_at r = 0 \<and> now \<le> ac_expires_at r"

definition consume_auth_challenge ::
  "any_env \<Rightarrow> string \<Rightarrow> string \<Rightarrow> string \<Rightarrow> i64 \<Rightarrow> app_error \<Rightarrow> (database, app_error, unit) step" where
  "consume_auth_challenge conn challenge_id tenant_id ki now invalid db =
     (case run_stmt conn 0 False () of
        Inl e \<Rightarrow> (fail 500 (Msg e), db)
      | Inr _ \<Rightarrow>
          (let n = length (filter (finishable challenge_id tenant_id ki now) (user_auth_challenges db));
               db = db\<lparr>user_auth_challenges := map (\<lambda>r.
                 if finishable challenge_id tenant_id ki now r then r\<lparr>ac_used_at := now\<rparr> else r)
                 (user_auth_challenges db)\<rparr>
           in if n = 1 then (Ok (), db) else (Err invalid, db)))"

definition check_auth_proof ::
  "token_tools \<Rightarrow> string \<Rightarrow> string \<Rightarrow> user_auth_finish_body \<Rightarrow> auth_challenge_row \<Rightarrow> string \<Rightarrow> app_error \<Rightarrow>
   (app_error, unit) result" where
  "check_auth_proof T tenant_id ki body row public_key_b64u invalid =
     and_then (ok_or (b64u_decode (tt_web T) public_key_b64u) invalid) (\<lambda>public_key.
     and_then (if length public_key = 32 then Ok () else Err invalid) (\<lambda>_.
     and_then (ok_or (b64u_decode (tt_web T) (trim (uf_signature_b64u body))) invalid) (\<lambda>signature.
     and_then (if length signature = 64 then Ok () else Err invalid) (\<lambda>_.
     and_then (if ed_key_ok (tt_web T) public_key then Ok () else Err invalid) (\<lambda>_.
     and_then (ok_or (user_auth_challenge_payload (uf_challenge_id body) tenant_id ki (ac_nonce row)
       (ac_expires_at row)) Panicked) (\<lambda>payload.
     if ed_verify_strict T public_key payload signature then Ok () else Err invalid))))))"

definition user_auth_finish ::
  "token_tools \<Rightarrow> (nat \<Rightarrow> any_env) \<Rightarrow> string \<Rightarrow> request \<Rightarrow> user_auth_finish_body \<Rightarrow> i64 \<Rightarrow> i64 \<Rightarrow>
   (database, app_error, session_response) step" where
  "user_auth_finish T conn jwt_secret rq body now now' =
     (let tenant_id = request_tenant rq;
          ki = to_ascii_lowercase (trim (uf_key_image_hex body));
          invalid = app_error_from 401 (Msg ''invalid authentication proof'')
      in
      and_do (locked (conn 0) (read_step (\<lambda>db.
        and_then (require_row (conn 0) 0 (find (finishable (uf_challenge_id body) tenant_id ki now)
          (user_auth_challenges db)) invalid) (\<lambda>row.
        and_then (require_row (conn 0) 1 (bound_public_key db tenant_id ki) invalid) (\<lambda>public_key.
        Ok (row, public_key)))))) (\<lambda>(row, public_key).
      and_do (pure_step (check_auth_proof T tenant_id ki body row public_key invalid)) (\<lambda>_.
      and_do (locked (conn 1)
        (consume_auth_challenge (conn 1) (uf_challenge_id body) tenant_id ki now invalid)) (\<lambda>_.
      and_do (read_step (issue_session_for (tt_crypto T) (conn 2) jwt_secret tenant_id ki now')) (\<lambda>(session, expires_at).
      pure_step (Ok \<lparr>sr_session = session, sr_key_image = ki, sr_expires_at = expires_at\<rparr>))))))"

text \<open>The legacy password path; \<open>user_ring\<close> is the in-memory ring of users and \<open>k\<close> the OPRF key.\<close>

record legacy_session_response = session_response +
  lr_first_name :: string
  lr_last_name :: string

definition user_auth ::
  "('s, 'p, 'z) curve_scheme \<Rightarrow> token_tools \<Rightarrow> env \<Rightarrow> any_env \<Rightarrow> repo \<Rightarrow> 'p list \<Rightarrow> 's \<Rightarrow> string \<Rightarrow> request \<Rightarrow>
   string \<Rightarrow> string \<Rightarrow> i64 \<Rightarrow> database \<Rightarrow> (app_error, legacy_session_response) result" where
  "user_auth G T env conn repo user_ring k jwt_secret rq email password now db =
     (let tenant_id = request_tenant rq;
          identity = from_oprf G (evaluate_unblinded G k email password);
          ki = tohex G (compress G (identity_key_image G identity))
      in
      and_then (require (require_or_default env ''SAURON_ENABLE_LEGACY_OPRF_AUTH'' True False) 503
        (Msg ''password-derived legacy identity authentication is disabled in production; use /user/auth/challenge and /user/auth/finish'')) (\<lambda>_.
      and_then (require (public identity \<in> set user_ring) 401 (Msg ''User not registered'')) (\<lambda>_.
      let profile = (case get_user repo ki db of Ok u \<Rightarrow> u | Err _ \<Rightarrow> None) in
      and_then (issue_session_for (tt_crypto T) conn jwt_secret tenant_id ki now db) (\<lambda>(session, expires_at).
      Ok \<lparr>sr_session = session, sr_key_image = ki, sr_expires_at = expires_at,
        lr_first_name = (case profile of Some u \<Rightarrow> us_first_name u | None \<Rightarrow> []),
        lr_last_name = (case profile of Some u \<Rightarrow> us_last_name u | None \<Rightarrow> [])\<rparr>))))"

section \<open>Sessions that were issued\<close>

lemma rsplit_bar_append:
  assumes "CHR ''|'' \<notin> set s"
  shows "rsplit_bar (p @ ''|'' @ s) = Some (p, s)"
proof -
  have "dropWhile (\<lambda>c. c \<noteq> CHR ''|'') (u @ CHR ''|'' # v) = CHR ''|'' # v"
    "takeWhile (\<lambda>c. c \<noteq> CHR ''|'') (u @ CHR ''|'' # v) = u" if "CHR ''|'' \<notin> set u" for u v
    using that by (induction u) auto
  from this [of "rev s" "rev p"] assms show ?thesis
    by (simp add: rsplit_bar_def)
qed

lemma split_on_none: "c \<notin> set s \<Longrightarrow> split_on c s = [s]"
  by (induction s) auto

lemma split_on_append: "c \<notin> set s \<Longrightarrow> split_on c (s @ c # t) = s # split_on c t"
  by (induction s) auto

lemma int_to_string_no_bar: "CHR ''|'' \<notin> set (int_to_string x)"
  using int_to_string_chars [of "CHR ''|''" x] by (auto simp: is_ascii_digit_def byte_def)

lemma hex64_no_bar: "is_hex64 ki \<Longrightarrow> CHR ''|'' \<notin> set ki"
  by (auto simp: is_hex64_def list_all_iff is_ascii_hexdigit_def is_ascii_digit_def byte_def)

lemma session_payload_fields:
  assumes "CHR ''|'' \<notin> set tenant" "is_hex64 ki"
  shows "split_on CHR ''|'' (session_payload tenant ki epoch e) =
    [''v3'', tenant, ki, int_to_string epoch, int_to_string e]"
  using assms hex64_no_bar [OF assms(2)] int_to_string_no_bar
  by (simp add: session_payload_def split_on_append split_on_none)

lemma verify_issued:
  assumes "CHR ''|'' \<notin> set tenant" "is_hex64 ki" "\<forall>x. CHR ''|'' \<notin> set (hex_encode H x)"
    and "is_i64 epoch" "is_i64 (now + 3600)"
  shows "verify_session H jwt_secret (fst (issue_session H jwt_secret tenant ki epoch now)) tenant' t =
    (if tenant' = tenant \<and> t \<le> now + 3600 then Some \<lparr>vs_key_image = ki, vs_epoch = epoch\<rparr> else None)"
proof -
  let ?p = "session_payload tenant ki epoch (now + 3600)"
  have "rsplit_bar (?p @ ''|'' @ sign_session H jwt_secret ?p) = Some (?p, sign_session H jwt_secret ?p)"
    by (rule rsplit_bar_append) (simp add: sign_session_def assms(3))
  then show ?thesis
    using assms by (simp add: verify_session_def check_session_fields_def issue_session_def SESSION_TTL_SECS_def Let_def
        session_payload_fields parse_i64_to_string ensure_def)
qed

section \<open>Revocation\<close>

lemma stored_epoch_bump:
  assumes "map_of (user_auth_credentials db) ki = Some r"
  shows "stored_epoch (bump_epoch ki db) ki = stored_epoch db ki + 1"
proof -
  have "map_of (map (\<lambda>(k, r). if k = ki then (k, r\<lparr>cr_session_epoch := cr_session_epoch r + 1\<rparr>) else (k, r)) xs) ki =
      map_option (\<lambda>r. r\<lparr>cr_session_epoch := cr_session_epoch r + 1\<rparr>) (map_of xs ki)" for xs :: "(string \<times> credential_row) list"
    by (induction xs) auto
  then show ?thesis
    using assms by (simp add: stored_epoch_def bump_epoch_def)
qed

lemma revoke_all_Ok:
  assumes "revoke_all conn ki db = (Ok e, db')"
  shows "db' = bump_epoch ki db"
  using assms by (auto simp: revoke_all_def elim!: and_do_OkE execute_cases dest!: map_err_step_OkE)

lemma verify_session_timeless:
  assumes "verify_session H jwt_secret tok tenant now = Some v" "verify_session H jwt_secret tok tenant now' = Some v'"
  shows "v' = v"
proof -
  have "w' = w" if "check_session_fields tenant now fs = Some w" "check_session_fields tenant now' fs = Some w'" for fs w w'
    using that by (auto simp: check_session_fields_def bind_eq_Some_conv split: list.splits)
  then show ?thesis
    using assms by (auto simp: verify_session_def bind_eq_Some_conv)
qed


text \<open>
  C34. The revocation check fails open: the epoch of an owner reads as zero when the query fails, so that every
  session issued before the first revocation of its owner, which carries the epoch zero, is accepted
  again while the query fails, whatever was revoked in the meantime.
\<close>

theorem revocation_fails_open:
  assumes "header_str rq SESSION_HEADER = Some tok" "verify_session H jwt_secret tok tenant now = Some v"
    and "vs_epoch v = 0" "stmt_fault conn 0 \<noteq> None"
  shows "key_image_from_headers H rq jwt_secret tenant now conn db = Some (vs_key_image v)"
  using assms by (auto simp: key_image_from_headers_def current_epoch_def scalar_or_def ensure_def)

section \<open>A revoked owner\<close>

definition demo_mac :: crypto where
  "demo_mac = (tt_crypto demo_token_tools)\<lparr>hex_encode := demo_encode\<rparr>"

definition demo_owner :: string where
  "demo_owner = replicate 64 CHR ''0''"

definition demo_owner_db :: database where
  "demo_owner_db = empty_database\<lparr>user_auth_credentials :=
     [(demo_owner, \<lparr>cr_public_key_b64u = ''pk'', cr_created_at = 0, cr_session_epoch = 0\<rparr>)]\<rparr>"

definition session_request :: "string \<Rightarrow> request" where
  "session_request tok = \<lparr>rq_method = ''GET'', rq_path = ''/'', rq_path_and_query = None,
     rq_headers = [(SESSION_HEADER, tok)], rq_body = [], rq_tenant = Some ''t''\<rparr>"

lemma demo_encode_chars: "c \<in> set (demo_encode s) \<Longrightarrow> 65 \<le> byte c \<and> byte c < 81"
proof (induction s)
  case (Cons d s)
  have "byte d < 256" by simp
  then have "byte d div 16 < 16" "byte d mod 16 < 16" by presburger+
  then show ?case
    using Cons by (auto simp: demo_encode_def)
qed (simp add: demo_encode_def)

lemma demo_mac_no_bar: "\<forall>x. CHR ''|'' \<notin> set (hex_encode demo_mac x)"
proof
  fix x
  show "CHR ''|'' \<notin> set (hex_encode demo_mac x)"
    using demo_encode_chars [of "CHR ''|''" x] by (auto simp: demo_mac_def byte_def)
qed

lemma demo_owner_hex: "is_hex64 demo_owner"
  by (simp add: is_hex64_def demo_owner_def is_ascii_hexdigit_def is_ascii_digit_def byte_def list_all_iff)

lemma demo_session_header:
  "header_str (session_request (fst (issue_session demo_mac ''k'' ''t'' demo_owner epoch now))) SESSION_HEADER =
     Some (fst (issue_session demo_mac ''k'' ''t'' demo_owner epoch now))"
proof -
  have digits: "32 \<le> byte c \<and> byte c < 127" if "c \<in> set (int_to_string x)" for c x
    using int_to_string_chars [OF that] by (auto simp: is_ascii_digit_def byte_def)
  have mac: "32 \<le> byte c \<and> byte c < 127" if "c \<in> set (hex_encode demo_mac x)" for c x
    using demo_encode_chars [of c x] that by (simp add: demo_mac_def)
  have "to_str_ok (fst (issue_session demo_mac ''k'' ''t'' demo_owner epoch now))"
    using digits mac
    by (auto simp: to_str_ok_def issue_session_def session_payload_def sign_session_def Let_def list_all_iff
        demo_owner_def) (simp_all add: byte_def)
  then show ?thesis
    by (simp add: header_str_def session_request_def)
qed

lemma demo_epochs:
  "stored_epoch demo_owner_db demo_owner = 0" "stored_epoch (bump_epoch demo_owner demo_owner_db) demo_owner = 1"
  by (simp_all add: stored_epoch_def bump_epoch_def demo_owner_db_def)

lemma demo_session_verify:
  assumes "is_i64 epoch" "is_i64 (now + 3600)" "t \<le> now + 3600"
  shows "verify_session demo_mac ''k'' (fst (issue_session demo_mac ''k'' ''t'' demo_owner epoch now)) ''t'' t =
    Some \<lparr>vs_key_image = demo_owner, vs_epoch = epoch\<rparr>"
  using verify_issued [OF _ demo_owner_hex demo_mac_no_bar assms(1,2), of "''t''" "''k''" "''t''" t] assms(3)
  by simp


theorem revocation_fails_open_witness:
  "key_image_from_headers demo_mac (session_request (fst (issue_session demo_mac ''k'' ''t'' demo_owner 0 1000))) ''k'' ''t''
     1200 (healthy\<lparr>stmt_fault := (\<lambda>k. Some ''database is locked'')\<rparr>) (bump_epoch demo_owner demo_owner_db) = Some demo_owner"
proof -
  have "is_i64 0" "is_i64 (1000 + 3600)"
    by (simp_all add: is_i64_def i64_MIN_def i64_MAX_def)
  from revocation_fails_open [OF demo_session_header demo_session_verify [OF this]] show ?thesis
    by simp
qed

section \<open>A challenge is finished once\<close>

datatype auth_event =
    Finish "nat \<Rightarrow> any_env" string request user_auth_finish_body i64 i64
  | Challenge any_env request string i64 string string

text \<open>The challenge a call presents, with the tenant and the owner it is for.\<close>

fun auth_key :: "auth_event \<Rightarrow> (string \<times> string \<times> string) option" where
  "auth_key (Finish _ _ rq body _ _) =
     Some (uf_challenge_id body, request_tenant rq, to_ascii_lowercase (trim (uf_key_image_hex body)))"
| "auth_key (Challenge _ _ _ _ _ _) = None"

text \<open>The state is the database and the challenges finished so far.\<close>

fun present_auth ::
  "token_tools \<Rightarrow> auth_event \<Rightarrow> database \<times> (string \<times> string \<times> string) list \<Rightarrow>
   bool \<times> database \<times> (string \<times> string \<times> string) list" where
  "present_auth T (Finish conn jwt_secret rq body now now') (db, used) =
     (case user_auth_finish T conn jwt_secret rq body now now' db of
        (r, db') \<Rightarrow> (is_ok r, db',
          (if is_ok r then [(uf_challenge_id body, request_tenant rq, to_ascii_lowercase (trim (uf_key_image_hex body)))]
           else []) @ used))"
| "present_auth T (Challenge conn rq key_image_hex now hex_id nonce) (db, used) =
     (False, snd (user_auth_challenge T conn rq key_image_hex now hex_id nonce db), used)"

definition pending :: "database \<Rightarrow> string \<times> string \<times> string \<Rightarrow> bool" where
  "pending db k \<longleftrightarrow> (\<exists>r \<in> set (user_auth_challenges db).
     (ac_challenge_id r, ac_tenant_id r, ac_key_image_hex r) = k \<and> ac_used_at r = 0)"

definition auth_spent :: "database \<times> (string \<times> string \<times> string) list \<Rightarrow> (string \<times> string \<times> string) option \<Rightarrow> bool" where
  "auth_spent s k \<longleftrightarrow> (case k of None \<Rightarrow> False | Some k \<Rightarrow> k \<in> set (snd s) \<and> \<not> pending (fst s) k)"

text \<open>
  The table has its primary key, the clock is past the epoch, and the random id of a new challenge is not
  one that was finished before.
\<close>

fun auth_timely :: "database \<times> (string \<times> string \<times> string) list \<Rightarrow> auth_event \<Rightarrow> bool" where
  "auth_timely (db, used) (Finish _ _ _ _ now _) \<longleftrightarrow>
     distinct (map ac_challenge_id (user_auth_challenges db)) \<and> now \<noteq> 0"
| "auth_timely (db, used) (Challenge _ _ _ _ hex_id _) \<longleftrightarrow>
     distinct (map ac_challenge_id (user_auth_challenges db)) \<and> ''uac_'' @ hex_id \<notin> fst ` set used"

definition mark_used :: "string \<Rightarrow> string \<Rightarrow> string \<Rightarrow> i64 \<Rightarrow> database \<Rightarrow> database" where
  "mark_used cid tenant ki now db =
     db\<lparr>user_auth_challenges := map (\<lambda>r. if finishable cid tenant ki now r then r\<lparr>ac_used_at := now\<rparr> else r)
       (user_auth_challenges db)\<rparr>"

lemma consume_auth_challenge_cases:
  assumes "consume_auth_challenge conn cid tenant ki now invalid db = (r, db')"
  obtains (failed) e where "r = Err e" "db' = db \<or> db' = mark_used cid tenant ki now db"
    | (consumed) row where "r = Ok ()" "row \<in> set (user_auth_challenges db)" "finishable cid tenant ki now row"
        "db' = mark_used cid tenant ki now db"
proof -
  let ?open = "filter (finishable cid tenant ki now) (user_auth_challenges db)"
  obtain m where m: "run_stmt conn 0 False () = m" by blast
  consider (fault) e where "m = Err e" | (one) row where "m = Ok ()" "?open = [row]"
    | (other) "m = Ok ()" "length ?open \<noteq> 1"
    by (cases m) (auto simp: length_Suc_conv)
  then show thesis
  proof cases
    case fault
    then show thesis using assms failed by (auto simp: consume_auth_challenge_def m)
  next
    case one
    then have "row \<in> set ?open" by simp
    then have "row \<in> set (user_auth_challenges db)" "finishable cid tenant ki now row" by simp_all
    then show thesis
      using assms consumed [of row] one by (auto simp: consume_auth_challenge_def mark_used_def m)
  next
    case other
    then show thesis
      using assms failed by (auto simp: consume_auth_challenge_def mark_used_def m)
  qed
qed

lemma user_auth_finish_cases:
  fixes rq body
  defines "cid \<equiv> uf_challenge_id body" and "tenant \<equiv> request_tenant rq"
    and "ki \<equiv> to_ascii_lowercase (trim (uf_key_image_hex body))"
  assumes "user_auth_finish T conn jwt_secret rq body now now' db = (r, db')"
  obtains (failed) e where "r = Err e" "db' = db \<or> db' = mark_used cid tenant ki now db"
    | (finished) s row where "r = Ok s" "row \<in> set (user_auth_challenges db)" "finishable cid tenant ki now row"
        "db' = mark_used cid tenant ki now db"
proof -
  let ?invalid = "app_error_from 401 (Msg ''invalid authentication proof'')"
  note run = assms(4) [unfolded user_auth_finish_def Let_def, folded cid_def tenant_def ki_def]
  from run show thesis
  proof (cases rule: and_do_cases)
    case (stop e)
    then show thesis using failed by (auto simp: locked_def split: if_splits)
  next
    case (go x db1)
    obtain row pk where x: "x = (row, pk)" by fastforce
    have db1: "db1 = db" using locked_OkE(2) [OF go(1)] by simp
    from go(2) [unfolded x prod.case] show thesis
    proof (cases rule: and_do_cases)
      case (stop e)
      then show thesis using failed db1 by simp
    next
      case (go u db2)
      from go(2) show thesis
      proof (cases rule: and_do_cases)
        case (stop e)
        then show thesis
          using failed go(1) db1
          by (cases "lock_fault (conn 1) = None") (auto simp: locked_def elim: consume_auth_challenge_cases)
      next
        case (go u' db3)
        have "consume_auth_challenge (conn 1) cid tenant ki now ?invalid db = (Ok (), db3)"
          using locked_OkE(2) [OF go(1)] \<open>pure_step _ db1 = _\<close> db1 by simp
        then obtain row' where row': "row' \<in> set (user_auth_challenges db)" "finishable cid tenant ki now row'"
            "db3 = mark_used cid tenant ki now db"
          by (cases rule: consume_auth_challenge_cases) auto
        have "db' = db3"
          using go(2) by (cases rule: and_do_cases) auto
        then show thesis
          using failed finished row' by (cases r) auto
      qed
    qed
  qed
qed

lemma pending_mark_used: "pending (mark_used cid tenant ki now db) k \<Longrightarrow> pending db k"
  by (auto simp: pending_def mark_used_def finishable_def split: if_splits)

lemma marked_not_pending:
  assumes "distinct (map ac_challenge_id (user_auth_challenges db))" "now \<noteq> 0"
    and "row \<in> set (user_auth_challenges db)" "finishable cid tenant ki now row"
  shows "\<not> pending (mark_used cid tenant ki now db) (cid, tenant, ki)"
proof -
  have "r = row" if "r \<in> set (user_auth_challenges db)" "ac_challenge_id r = cid" for r
    using assms that by (auto simp: finishable_def distinct_map inj_on_def)
  then show ?thesis
    using assms(2,4) by (auto simp: pending_def mark_used_def finishable_def split: if_splits)
qed

lemma finishable_pending:
  "row \<in> set (user_auth_challenges db) \<Longrightarrow> finishable cid tenant ki now row \<Longrightarrow> pending db (cid, tenant, ki)"
  by (auto simp: pending_def finishable_def)

lemma present_finish_cases:
  assumes "present_auth T (Finish conn jwt_secret rq body now now') (db, used) = (ok, db', used')"
  obtains (refused) "\<not> ok" "used' = used" "\<And>k. pending db' k \<Longrightarrow> pending db k"
    | (accepted) k row where "ok" "auth_key (Finish conn jwt_secret rq body now now') = Some k" "used' = k # used"
        "row \<in> set (user_auth_challenges db)" "finishable (fst k) (fst (snd k)) (snd (snd k)) now row"
        "db' = mark_used (fst k) (fst (snd k)) (snd (snd k)) now db"
proof -
  obtain r where r: "user_auth_finish T conn jwt_secret rq body now now' db = (r, db')" "ok = is_ok r"
      "used' = (if is_ok r then [(uf_challenge_id body, request_tenant rq, to_ascii_lowercase (trim (uf_key_image_hex body)))]
           else []) @ used"
    using assms by (auto split: prod.splits)
  from r(1) show thesis
  proof (cases rule: user_auth_finish_cases)
    case (failed e)
    then show thesis
      using r(2,3) by (intro refused) (auto dest: pending_mark_used)
  next
    case (finished s row)
    then show thesis
      using r(2,3) by (intro accepted) auto
  qed
qed

lemma user_auth_challenge_pending:
  assumes "pending (snd (user_auth_challenge T conn rq key_image_hex now hex_id nonce db)) k"
  shows "pending db k \<or> fst k = ''uac_'' @ hex_id"
  using assms
  by (auto simp: user_auth_challenge_def Let_def and_do_def pure_step_def locked_def map_err_step_def
      execute_def pending_def split: if_splits sum.splits prod.splits option.splits)

interpretation auths: single_use auth_spent "present_auth T" auth_key auth_timely
  for T :: token_tools
proof (unfold_locales, goal_cases)
  case (1 s e s')
  obtain db used db' used' where s: "s = (db, used)" "s' = (db', used')"
    by fastforce
  show ?case
  proof (cases e)
    case (Finish conn jwt_secret rq body now now')
    from 1(2) [unfolded s Finish] show ?thesis
    proof (cases rule: present_finish_cases)
      case (accepted k row)
      then show ?thesis
        using 1(1) marked_not_pending [of db now row "fst k" "fst (snd k)" "snd (snd k)"]
        by (simp add: s Finish auth_spent_def)
    qed simp
  qed (use 1 s in simp)
next
  case (2 s e)
  obtain db used ok db' used' where s: "s = (db, used)" and run: "present_auth T e (db, used) = (ok, db', used')"
    by (metis surj_pair)
  show ?case
  proof (cases e)
    case (Finish conn jwt_secret rq body now now')
    from run [unfolded Finish] show ?thesis
    proof (cases rule: present_finish_cases)
      case refused
      then show ?thesis by (simp only: s run) simp
    next
      case (accepted k row)
      then show ?thesis
        using 2(2) finishable_pending [OF accepted(4,5)] by (simp add: s Finish auth_spent_def)
    qed
  qed (simp add: s)
next
  case (3 s e k)
  obtain db used ok db' used' where s: "s = (db, used)" and run: "present_auth T e (db, used) = (ok, db', used')"
    by (metis surj_pair)
  obtain c where c: "k = Some c" "c \<in> set used" "\<not> pending db c"
    using 3(2) by (auto simp: s auth_spent_def split: option.splits)
  have "c \<in> set used' \<and> \<not> pending db' c"
  proof (cases e)
    case (Finish conn jwt_secret rq body now now')
    from run [unfolded Finish] show ?thesis
    proof (cases rule: present_finish_cases)
      case refused
      then show ?thesis using c by blast
    next
      case (accepted k' row)
      then show ?thesis using c by (auto dest: pending_mark_used)
    qed
  next
    case (Challenge conn rq key_image_hex now hex_id nonce)
    then have "db' = snd (user_auth_challenge T conn rq key_image_hex now hex_id nonce db)" "used' = used"
      using run by simp_all
    moreover have "fst c \<noteq> ''uac_'' @ hex_id"
      using 3(1) c(2) by (metis s Challenge auth_timely.simps(2) image_eqI)
    ultimately show ?thesis
      using c user_auth_challenge_pending [of T conn rq key_image_hex now hex_id nonce db c] by auto
  qed
  then show ?case
    by (simp add: s run c auth_spent_def)
qed

lemma present_auth_ids:
  "map ac_challenge_id (user_auth_challenges (fst (snd (present_auth T (Finish conn jwt_secret rq body now now') (db, used))))) =
     map ac_challenge_id (user_auth_challenges db)"
proof -
  have "map ac_challenge_id (user_auth_challenges (mark_used cid tenant ki now db)) =
      map ac_challenge_id (user_auth_challenges db)" for cid tenant ki
    by (simp add: mark_used_def)
  then show ?thesis
    by (cases "user_auth_finish T conn jwt_secret rq body now now' db")
       (auto elim!: user_auth_finish_cases)
qed

text \<open>
  C35. Over any sequence of challenges issued and finished, with any pattern of failing statements,
  a login challenge opens at most one session: the challenges of the calls of user_auth_finish that succeed
  are pairwise distinct.
\<close>

theorem auth_challenge_finished_once:
  assumes "timely_run auth_timely (present_auth T) es (db, used)"
  shows "distinct (map auth_key (accepted (present_auth T) es (db, used)))"
  using assms by (rule auths.accepted_once)

definition demo_login_db :: database where
  "demo_login_db = empty_database
     \<lparr>user_auth_credentials := [(''ki'', \<lparr>cr_public_key_b64u = replicate 32 CHR ''k'', cr_created_at = 0, cr_session_epoch = 0\<rparr>)],
      user_auth_tenant_bindings := [(''t'', ''ki'') \<mapsto> 0],
      user_auth_challenges := [\<lparr>ac_challenge_id = ''uac_1'', ac_tenant_id = ''t'', ac_key_image_hex = ''ki'',
        ac_nonce = ''n'', ac_expires_at = 120, ac_used_at = 0\<rparr>]\<rparr>"

definition demo_login :: "i64 \<Rightarrow> auth_event" where
  "demo_login now = Finish (\<lambda>_. healthy) ''k'' (session_request [])
     \<lparr>uf_challenge_id = ''uac_1'', uf_key_image_hex = ''ki'', uf_signature_b64u = replicate 64 CHR ''s''\<rparr> now now"

definition plain_tools :: token_tools where
  "plain_tools = demo_token_tools\<lparr>tt_web := (tt_web demo_token_tools)\<lparr>b64u_decode := Some\<rparr>\<rparr>"

lemma demo_login_proof: "user_auth_challenge_payload ''uac_1'' ''t'' ''ki'' ''n'' 120 \<noteq> None"
  by (simp add: user_auth_challenge_payload_def canonical_fields_def push_len_prefixed_def
      USER_AUTH_CHALLENGE_DOMAIN_def int_to_string_def nat_to_string.simps)

lemma demo_login_accepted:
  "fst (present_auth plain_tools (demo_login 1) (demo_login_db, []))"
  using demo_login_proof
  by (auto simp: demo_login_def user_auth_finish_def demo_login_db_def plain_tools_def demo_token_tools_def Let_def
      and_do_def locked_def read_step_def pure_step_def require_row_def healthy_def finishable_def session_request_def
      request_tenant_def bound_public_key_def check_auth_proof_def consume_auth_challenge_def issue_session_for_def
      trim_graphic is_graphic_def byte_def to_ascii_lowercase_def char_lower_def is_ascii_upper_def run_stmt_def current_epoch_def
      ok_or_def scalar_or_def case_prod_unfold)

theorem auth_challenge_finished_once_witness:
  "accepted (present_auth plain_tools) [demo_login 1, demo_login 2] (demo_login_db, []) = [demo_login 1]"
proof -
  let ?s = "(demo_login_db, [])"
  have timely: "timely_run auth_timely (present_auth plain_tools) [demo_login 1, demo_login 2] ?s"
    using present_auth_ids [of plain_tools "\<lambda>_. healthy" "''k''" "session_request []"
      "\<lparr>uf_challenge_id = ''uac_1'', uf_key_image_hex = ''ki'', uf_signature_b64u = replicate 64 CHR ''s''\<rparr>" 1 1
      demo_login_db "[]"]
    by (cases "present_auth plain_tools (demo_login 1) ?s") (auto simp: demo_login_def demo_login_db_def)
  have "auth_key (demo_login 1) = auth_key (demo_login 2)"
    by (simp add: demo_login_def)
  with auth_challenge_finished_once [OF timely] demo_login_accepted show ?thesis
    by (cases "present_auth plain_tools (demo_login 1) ?s") (auto split: prod.splits if_splits)
qed

end
