(* ===== verification/Egress_Policy.thy ===== *)
theory Egress_Policy
  imports Repository
begin

text \<open>
  What the egress gateway refuses before it dials: the blocked address ranges and forbidden headers of
  \<open>egress_gateway/guards.rs\<close>, the matching of a request against the allowlist of an agent's intent in
  \<open>egress_gateway/matching.rs\<close>, and the limits and the registration check of
  \<open>egress_gateway/config.rs\<close>.

  The address test is shown to be membership in a table of CIDR blocks, the strict match to imply every
  restriction of the matched entry, and the registration check to leave no entry that the strict match
  would skip.
\<close>

unbundle bit_operations_syntax

section \<open>Addresses\<close>

type_synonym u16 = "16 word"

datatype ip_addr =
    V4 u8 u8 u8 u8
  | V6 u16 u16 u16 u16 u16 u16 u16 u16

definition v4_is_loopback :: "u8 \<Rightarrow> bool" where
  "v4_is_loopback a \<longleftrightarrow> a = 127"

definition v4_is_private :: "u8 \<Rightarrow> u8 \<Rightarrow> bool" where
  "v4_is_private a b \<longleftrightarrow> a = 10 \<or> a = 172 \<and> 16 \<le> b \<and> b \<le> 31 \<or> a = 192 \<and> b = 168"

definition v4_is_link_local :: "u8 \<Rightarrow> u8 \<Rightarrow> bool" where
  "v4_is_link_local a b \<longleftrightarrow> a = 169 \<and> b = 254"

definition v4_is_documentation :: "u8 \<Rightarrow> u8 \<Rightarrow> u8 \<Rightarrow> bool" where
  "v4_is_documentation a b c \<longleftrightarrow>
     a = 192 \<and> b = 0 \<and> c = 2 \<or> a = 198 \<and> b = 51 \<and> c = 100 \<or> a = 203 \<and> b = 0 \<and> c = 113"

definition v4_is_multicast :: "u8 \<Rightarrow> bool" where
  "v4_is_multicast a \<longleftrightarrow> 224 \<le> a \<and> a \<le> 239"

definition is_blocked_v4 :: "u8 \<Rightarrow> u8 \<Rightarrow> u8 \<Rightarrow> u8 \<Rightarrow> bool" where
  "is_blocked_v4 a b c d \<longleftrightarrow>
     v4_is_loopback a \<or> v4_is_private a b \<or> v4_is_link_local a b \<or>
     (a = 255 \<and> b = 255 \<and> c = 255 \<and> d = 255) \<or> v4_is_documentation a b c \<or>
     (a = 0 \<and> b = 0 \<and> c = 0 \<and> d = 0) \<or> v4_is_multicast a \<or> a = 0 \<or> (a = 100 \<and> b AND 0xC0 = 64)"

text \<open>The octets of a segment, most significant first (\<open>u16::to_be_bytes\<close>).\<close>

definition octets_of :: "u16 \<Rightarrow> u8 \<times> u8" where
  "octets_of s = (ucast (drop_bit 8 s), ucast s)"

text \<open>\<open>Ipv6Addr::to_ipv4\<close>: the mapped addresses \<open>::ffff:a.b.c.d\<close> and the compatible ones \<open>::a.b.c.d\<close>.\<close>

definition embeds_v4 :: "u16 \<Rightarrow> u16 \<Rightarrow> u16 \<Rightarrow> u16 \<Rightarrow> u16 \<Rightarrow> u16 \<Rightarrow> bool" where
  "embeds_v4 s0 s1 s2 s3 s4 s5 \<longleftrightarrow>
     s0 = 0 \<and> s1 = 0 \<and> s2 = 0 \<and> s3 = 0 \<and> s4 = 0 \<and> (s5 = 0 \<or> s5 = 0xffff)"

fun is_blocked_ip :: "ip_addr \<Rightarrow> bool" where
  "is_blocked_ip (V4 a b c d) = is_blocked_v4 a b c d"
| "is_blocked_ip (V6 s0 s1 s2 s3 s4 s5 s6 s7) =
     (if embeds_v4 s0 s1 s2 s3 s4 s5
      then (case (octets_of s6, octets_of s7) of ((a, b), (c, d)) \<Rightarrow> is_blocked_v4 a b c d)
      else
        (s0 = 0 \<and> s1 = 0 \<and> s2 = 0 \<and> s3 = 0 \<and> s4 = 0 \<and> s5 = 0 \<and> s6 = 0 \<and> s7 = 1) \<or>
        (s0 = 0 \<and> s1 = 0 \<and> s2 = 0 \<and> s3 = 0 \<and> s4 = 0 \<and> s5 = 0 \<and> s6 = 0 \<and> s7 = 0) \<or>
        s0 AND 0xff00 = 0xff00 \<or> s0 AND 0xfe00 = 0xfc00 \<or> s0 AND 0xffc0 = 0xfe80 \<or>
        (s0 = 0x0064 \<and> s1 = 0xff9b \<and> s2 = 0 \<and> s3 = 0) \<or> s0 = 0x2002 \<or> (s0 = 0x2001 \<and> s1 = 0))"

text \<open>
  \<open>lookup\<close> is the answer of the resolver for the host and the port: an error text or addresses with ports.
  A refusal carries the numbers of the first blocked address.
\<close>

fun ip_args :: "ip_addr \<Rightarrow> arg list" where
  "ip_args (V4 a b c d) = map AWord [a, b, c, d]"
| "ip_args (V6 s0 s1 s2 s3 s4 s5 s6 s7) = map AWord [s0, s1, s2, s3, s4, s5, s6, s7]"

definition resolve_and_vet :: "(string, (ip_addr \<times> u16) list) result \<Rightarrow> (msg, (ip_addr \<times> u16) list) result" where
  "resolve_and_vet lookup =
     and_then (map_err (\<lambda>e. Fmt ''dns resolution failed: {e}'' [AStr e]) lookup) (\<lambda>addrs.
     if addrs = [] then Err (Msg ''host did not resolve to any address'')
     else case find (\<lambda>a. is_blocked_ip (fst a)) addrs of
       Some a \<Rightarrow> Err (Fmt (''target resolves to a blocked address ({}) '' @ em_dash @
         '' private/loopback/link-local/metadata ranges are refused'') (ip_args (fst a)))
     | None \<Rightarrow> Ok addrs)"

section \<open>Headers\<close>

definition FORBIDDEN_HEADERS :: "string list" where
  "FORBIDDEN_HEADERS =
     [''host'', ''content-length'', ''connection'', ''keep-alive'', ''transfer-encoding'', ''te'', ''trailer'',
      ''upgrade'', ''expect'', ''proxy-authorization'', ''proxy-connection'', ''x-forwarded-for'',
      ''x-forwarded-host'', ''x-forwarded-proto'', ''x-real-ip'']"

definition header_forbidden :: "string \<Rightarrow> bool" where
  "header_forbidden name \<longleftrightarrow>
     (let n = to_ascii_lowercase (trim name) in
      n \<in> set FORBIDDEN_HEADERS \<or> prefix ''x-sauron-'' n \<or> prefix ''proxy-'' n)"

section \<open>Limits\<close>

definition env_on :: "env \<Rightarrow> string \<Rightarrow> bool" where
  "env_on env v \<longleftrightarrow> env v \<in> {Some ''1'', Some ''true'', Some ''yes'', Some ''on''}"

definition egress_gateway_enabled :: "env \<Rightarrow> bool" where
  "egress_gateway_enabled env = require_or_default env ''SAURON_EGRESS_GATEWAY'' False True"

definition redact_enabled :: "env \<Rightarrow> bool" where
  "redact_enabled env = env_on env ''SAURON_EGRESS_REDACT_PII''"

text \<open>\<open>str::parse::<usize>\<close>: decimal digits with an optional plus sign.\<close>

definition parse_usize :: "string \<Rightarrow> nat option" where
  "parse_usize s =
     (let ds = (case s of c # cs \<Rightarrow> if c = CHR ''+'' then cs else s | [] \<Rightarrow> s) in
      if all_digits ds \<and> dec_value ds < 2 ^ 64 then Some (dec_value ds) else None)"

definition max_resp_bytes :: "env \<Rightarrow> nat" where
  "max_resp_bytes env =
     (case Option.bind (env ''SAURON_EGRESS_MAX_RESP_BYTES'') parse_usize of
        Some n \<Rightarrow> if 0 < n then n else 1048576
      | None \<Rightarrow> 1048576)"

section \<open>Redaction\<close>

text \<open>
  Third-party functions of the gateway: the matcher and the replacement of the \<open>regex\<close> crate (pattern,
  haystack, replacement), the header name and method syntax of the \<open>http\<close> crate and the URL parser of the \<open>url\<close>
  crate.  \<open>uppercase\<close> is \<open>str::to_uppercase\<close>, whose Unicode tables are not part of the model.
\<close>

record url =
  url_scheme :: string
  url_username :: string
  url_password :: "string option"
  url_host :: "string option"
  url_port_or_default :: "u16 option"
  url_path :: string
  url_query :: "string option"
  url_fragment :: "string option"

record egress_tools =
  re_matches :: "string \<Rightarrow> string \<Rightarrow> bool"
  re_replace_all :: "string \<Rightarrow> string \<Rightarrow> string \<Rightarrow> string"
  header_name_ok :: "string \<Rightarrow> bool"
  method_ok :: "string \<Rightarrow> bool"
  url_parse :: "string \<Rightarrow> (string, url) result"
  uppercase :: "string \<Rightarrow> string"

definition backslash :: string where
  "backslash = [CHR 0x5C]"

definition PII_RULES :: "(string \<times> string) list" where
  "PII_RULES =
     [(''email'', ''[A-Za-z0-9._%+-]+@[A-Za-z0-9.-]+'' @ backslash @ ''.[A-Za-z]{2,}''),
      (''ssn'', backslash @ ''b'' @ backslash @ ''d{3}-'' @ backslash @ ''d{2}-'' @ backslash @ ''d{4}'' @ backslash @ ''b''),
      (''iban'', backslash @ ''b[A-Z]{2}'' @ backslash @ ''d{2}[A-Z0-9]{11,30}'' @ backslash @ ''b''),
      (''credit_card'', backslash @ ''b'' @ backslash @ ''d{4}[ -]?'' @ backslash @ ''d{4}[ -]?'' @ backslash @
         ''d{4}[ -]?'' @ backslash @ ''d{1,4}'' @ backslash @ ''b''),
      (''phone'', backslash @ ''+'' @ backslash @ ''d{7,15}'' @ backslash @ ''b'')]"

definition redaction_mark :: "string \<Rightarrow> string" where
  "redaction_mark cls = [CHR 0xE2, CHR 0x9F, CHR 0xAA] @ ''redacted:'' @ cls @ [CHR 0xE2, CHR 0x9F, CHR 0xAB]"

fun redact_with :: "egress_tools \<Rightarrow> (string \<times> string) list \<Rightarrow> string \<Rightarrow> string \<times> string list" where
  "redact_with E [] out = (out, [])"
| "redact_with E ((cls, re) # rules) out =
     (if re_matches E re out
      then (case redact_with E rules (re_replace_all E re out (redaction_mark cls)) of (out, hit) \<Rightarrow> (out, cls # hit))
      else redact_with E rules out)"

definition redact_pii :: "egress_tools \<Rightarrow> string \<Rightarrow> string \<times> string list" where
  "redact_pii E body = redact_with E PII_RULES body"

section \<open>The allowlist\<close>

record egress_match =
  em_inject_credential :: "string option"
  em_request_body_allowed :: bool
  em_response_body_allowed :: bool
  em_max_request_bytes :: nat
  em_max_response_bytes :: nat
  em_allowed_headers :: "string list"

definition EGRESS_FIELDS :: "string list" where
  "EGRESS_FIELDS = [''host'', ''methods'', ''path_prefix'', ''inject_credential'', ''request_body'',
     ''response_body'', ''max_request_bytes'', ''max_response_bytes'', ''allowed_headers'']"

definition str_field :: "(string \<times> json) list \<Rightarrow> string \<Rightarrow> string option" where
  "str_field o' k = Option.bind (map_of o' k) as_str"

definition array_field :: "(string \<times> json) list \<Rightarrow> string \<Rightarrow> json list option" where
  "array_field o' k = Option.bind (map_of o' k) as_array"

definition u64_field :: "(string \<times> json) list \<Rightarrow> string \<Rightarrow> nat option" where
  "u64_field o' k = map_option unat (Option.bind (map_of o' k) as_u64)"

text \<open>\<open>trim_end_matches('/')\<close>.\<close>

definition trim_end_slashes :: "string \<Rightarrow> string" where
  "trim_end_slashes s = rev (dropWhile (\<lambda>c. c = CHR ''/'') (rev s))"

definition host_matches :: "(string \<times> json) list \<Rightarrow> string \<Rightarrow> bool" where
  "host_matches o' host = eq_ignore_ascii_case (case str_field o' ''host'' of Some h \<Rightarrow> h | None \<Rightarrow> []) host"

definition method_matches :: "bool \<Rightarrow> (string \<times> json) list \<Rightarrow> string \<Rightarrow> bool" where
  "method_matches strict o' method =
     (case array_field o' ''methods'' of
        Some methods \<Rightarrow> \<not> (strict \<and> methods = []) \<and>
          list_ex (\<lambda>m. eq_ignore_ascii_case m method) (List.map_filter as_str methods)
      | None \<Rightarrow> \<not> strict)"

definition under_prefix :: "string \<Rightarrow> string \<Rightarrow> bool" where
  "under_prefix pre path \<longleftrightarrow> path = pre \<or> prefix (pre @ ''/'') path"

definition path_matches :: "bool \<Rightarrow> (string \<times> json) list \<Rightarrow> string \<Rightarrow> bool" where
  "path_matches strict o' path =
     (case str_field o' ''path_prefix'' of
        Some p \<Rightarrow>
          (let p = trim_end_slashes p
           in \<not> (strict \<and> (p = [] \<or> \<not> prefix ''/'' p)) \<and> under_prefix p path)
      | None \<Rightarrow> \<not> strict)"

definition body_flag :: "bool \<Rightarrow> (string \<times> json) list \<Rightarrow> string \<Rightarrow> string \<Rightarrow> bool option" where
  "body_flag strict o' k no =
     (case str_field o' k of
        Some v \<Rightarrow> if v = ''allow'' then Some True else if v = no then Some False else None
      | None \<Rightarrow> if strict then None else Some True)"

definition listed_headers :: "(string \<times> json) list \<Rightarrow> string list option" where
  "listed_headers o' =
     map_option (\<lambda>values. filter (\<lambda>v. v \<noteq> [] \<and> \<not> header_forbidden v)
       (map (\<lambda>v. to_ascii_lowercase (trim v)) (List.map_filter as_str values)))
       (array_field o' ''allowed_headers'')"

text \<open>One entry of the list; \<^term>\<open>None\<close> is \<open>continue\<close>.\<close>

definition match_object ::
  "env \<Rightarrow> bool \<Rightarrow> (string \<times> json) list \<Rightarrow> string \<Rightarrow> string \<Rightarrow> string \<Rightarrow> egress_match option" where
  "match_object env strict o' host method path =
     (if strict \<and> list_ex (\<lambda>kv. fst kv \<notin> set EGRESS_FIELDS) o' then None
      else if \<not> host_matches o' host \<or> \<not> method_matches strict o' method \<or> \<not> path_matches strict o' path then None
      else
        Option.bind (body_flag strict o' ''request_body'' ''deny'') (\<lambda>request_body_allowed.
        Option.bind (body_flag strict o' ''response_body'' ''digest_only'') (\<lambda>response_body_allowed.
        let max_request_bytes = filter_option (\<lambda>v. v \<le> 4 * 1024 * 1024) (u64_field o' ''max_request_bytes'');
            max_response_bytes = filter_option (\<lambda>v. 0 < v \<and> v \<le> max_resp_bytes env)
              (u64_field o' ''max_response_bytes'');
            allowed_headers = listed_headers o'
        in if strict \<and> (max_request_bytes = None \<or> max_response_bytes = None \<or> allowed_headers = None) then None
           else Some
             \<lparr>em_inject_credential = str_field o' ''inject_credential'',
              em_request_body_allowed = request_body_allowed,
              em_response_body_allowed = response_body_allowed,
              em_max_request_bytes = (case max_request_bytes of Some v \<Rightarrow> v | None \<Rightarrow> 256 * 1024),
              em_max_response_bytes = (case max_response_bytes of Some v \<Rightarrow> v | None \<Rightarrow> max_resp_bytes env),
              em_allowed_headers = (case allowed_headers of Some hs \<Rightarrow> hs | None \<Rightarrow> [])\<rparr>)))"

definition match_entry :: "env \<Rightarrow> bool \<Rightarrow> string \<Rightarrow> string \<Rightarrow> string \<Rightarrow> json \<Rightarrow> egress_match option" where
  "match_entry env strict host method path entry =
     (case entry of
        JStr s \<Rightarrow>
          if \<not> strict \<and> eq_ignore_ascii_case s host
          then Some \<lparr>em_inject_credential = None, em_request_body_allowed = True, em_response_body_allowed = True,
                 em_max_request_bytes = 256 * 1024, em_max_response_bytes = max_resp_bytes env, em_allowed_headers = []\<rparr>
          else None
      | JObj o' \<Rightarrow> match_object env strict o' host method path
      | _ \<Rightarrow> None)"

fun first_match :: "('a \<Rightarrow> 'b option) \<Rightarrow> 'a list \<Rightarrow> 'b option" where
  "first_match f [] = None"
| "first_match f (x # xs) = (case f x of Some y \<Rightarrow> Some y | None \<Rightarrow> first_match f xs)"

definition egress_matched :: "env \<Rightarrow> json \<Rightarrow> string \<Rightarrow> string \<Rightarrow> string \<Rightarrow> bool \<Rightarrow> egress_match option" where
  "egress_matched env intent host method path strict =
     Option.bind (Option.bind (jget intent ''egress_allowlist'') as_array)
       (first_match (match_entry env strict host method path))"

text \<open>The intent of a live agent of the tenant; text that does not parse is \<open>Value::Null\<close>.\<close>

definition agent_intent ::
  "('z) web_scheme \<Rightarrow> any_env \<Rightarrow> nat \<Rightarrow> string \<Rightarrow> string \<Rightarrow> database \<Rightarrow> (app_error, json) result" where
  "agent_intent W conn k tenant_id agent_id db =
     and_then (require_row conn k
       (map_option ag_intent_json
         (find (\<lambda>r. ag_agent_id r = agent_id \<and> ag_tenant_id r = tenant_id \<and> ag_revoked r = 0) (agents db)))
       (app_error_from 401 (Msg ''agent not found or revoked''))) (\<lambda>s.
     Ok (case json_parse W s of Some v \<Rightarrow> v | None \<Rightarrow> JNull))"

definition egress_credential :: "('z) web_scheme \<Rightarrow> env \<Rightarrow> string \<Rightarrow> (string \<times> string) option" where
  "egress_credential W env name =
     Option.bind (env ''SAURON_EGRESS_CREDENTIALS'') (\<lambda>raw_text.
     Option.bind (json_parse W raw_text) (\<lambda>creds.
     Option.bind (jget creds name) (\<lambda>entry.
     let header = (case Option.bind (jget entry ''header'') as_str of Some h \<Rightarrow> h | None \<Rightarrow> ''authorization'') in
     Option.bind
       (case Option.bind (jget entry ''value_env'') as_str of
          Some env_name \<Rightarrow> env env_name
        | None \<Rightarrow> Option.bind (jget entry ''value'') as_str) (\<lambda>value. Some (header, value)))))"

section \<open>The check at registration\<close>

definition single_quoted :: "string \<Rightarrow> string" where
  "single_quoted s = [CHR 0x27] @ s @ [CHR 0x27]"

definition entry_error :: "nat \<Rightarrow> string \<Rightarrow> arg list \<Rightarrow> (msg, 'a) result" where
  "entry_error index text args = Err (Fmt (''egress_allowlist[{index}]'' @ text) (AInt (int index) # args))"

definition check_methods :: "nat \<Rightarrow> json list \<Rightarrow> (msg, unit) result" where
  "check_methods index = try_all (\<lambda>m.
     case as_str m of
       None \<Rightarrow> entry_error index ''.methods must be strings'' []
     | Some s \<Rightarrow>
         if to_ascii_uppercase s \<in> {''GET'', ''POST'', ''PUT'', ''PATCH'', ''DELETE'', ''HEAD'', ''OPTIONS''} then Ok ()
         else entry_error index ('' forbids method '' @ single_quoted ''{method}'') [AStr (to_ascii_uppercase s)])"

definition check_headers :: "egress_tools \<Rightarrow> nat \<Rightarrow> json list \<Rightarrow> (msg, unit) result" where
  "check_headers E index = try_all (\<lambda>h.
     case as_str h of
       None \<Rightarrow> entry_error index ''.allowed_headers must be strings'' []
     | Some name \<Rightarrow>
         if name = [] \<or> header_forbidden name \<or> \<not> header_name_ok E name
         then entry_error index ('' contains forbidden header '' @ single_quoted ''{name}'') [AStr name] else Ok ())"

definition check_entry_head :: "nat \<Rightarrow> (string \<times> json) list \<Rightarrow> (msg, unit) result" where
  "check_entry_head index o' =
     and_then (case find (\<lambda>(k, _). k \<notin> set EGRESS_FIELDS) o' of
                 Some (field, _) \<Rightarrow> entry_error index ('' has unknown field '' @ single_quoted ''{field}'') [AStr field]
               | None \<Rightarrow> Ok ()) (\<lambda>_.
     let host = (case str_field o' ''host'' of Some h \<Rightarrow> h | None \<Rightarrow> []) in
     and_then (if host = [] \<or> CHR ''*'' \<in> set host \<or> CHR ''/'' \<in> set host \<or> CHR ''@'' \<in> set host
               then entry_error index ''.host must be an exact host'' [] else Ok ()) (\<lambda>_.
     and_then (case array_field o' ''methods'' of
                 Some (m # ms) \<Rightarrow> check_methods index (m # ms)
               | _ \<Rightarrow> entry_error index ''.methods must be non-empty'' []) (\<lambda>_.
     let p = (case str_field o' ''path_prefix'' of Some p \<Rightarrow> p | None \<Rightarrow> [])
     in if \<not> prefix ''/'' p \<or> trim_end_slashes p = []
        then entry_error index (''.path_prefix must be narrower than '' @ single_quoted ''/'') [] else Ok ())))"

definition check_entry_limits :: "egress_tools \<Rightarrow> nat \<Rightarrow> (string \<times> json) list \<Rightarrow> (msg, unit) result" where
  "check_entry_limits E index o' =
     and_then (if str_field o' ''request_body'' \<in> {Some ''allow'', Some ''deny''} then Ok ()
               else entry_error index ''.request_body is required'' []) (\<lambda>_.
     and_then (if str_field o' ''response_body'' \<in> {Some ''allow'', Some ''digest_only''} then Ok ()
               else entry_error index ''.response_body is required'' []) (\<lambda>_.
     and_then (case u64_field o' ''max_request_bytes'' of
                 Some v \<Rightarrow> if v \<le> 4194304 then Ok () else entry_error index ''.max_request_bytes is invalid'' []
               | None \<Rightarrow> entry_error index ''.max_request_bytes is invalid'' []) (\<lambda>_.
     and_then (case u64_field o' ''max_response_bytes'' of
                 Some v \<Rightarrow> if 1 \<le> v \<and> v \<le> 1048576 then Ok () else entry_error index ''.max_response_bytes is invalid'' []
               | None \<Rightarrow> entry_error index ''.max_response_bytes is invalid'' []) (\<lambda>_.
     and_then (case array_field o' ''allowed_headers'' of
                 Some hs \<Rightarrow> check_headers E index hs
               | None \<Rightarrow> entry_error index ''.allowed_headers is required'' []) (\<lambda>_.
     case map_of o' ''inject_credential'' of
       Some credential \<Rightarrow>
         (case as_str credential of
            Some v \<Rightarrow> if trim v \<noteq> [] then Ok () else entry_error index ''.inject_credential is invalid'' []
          | None \<Rightarrow> entry_error index ''.inject_credential is invalid'' [])
     | None \<Rightarrow> Ok ())))))"

definition check_entry :: "egress_tools \<Rightarrow> nat \<times> json \<Rightarrow> (msg, unit) result" where
  "check_entry E ie =
     (case ie of
        (index, JObj o') \<Rightarrow> and_then (check_entry_head index o') (\<lambda>_. check_entry_limits E index o')
      | (index, _) \<Rightarrow> entry_error index '' must be a structured object'' [])"

definition validate_production_egress_policy :: "egress_tools \<Rightarrow> json \<Rightarrow> (msg, unit) result" where
  "validate_production_egress_policy E intent =
     (case jget intent ''egress_allowlist'' of
        None \<Rightarrow> Ok ()
      | Some entries \<Rightarrow>
          (case as_array entries of
             None \<Rightarrow> Err (Msg ''egress_allowlist must be an array'')
           | Some es \<Rightarrow> try_all (check_entry E) (enumerate 0 es)))"

section \<open>The address test is a table of blocks\<close>

text \<open>
  An address as a number, most significant part first, and membership in the block of the addresses that
  share their first \<open>len\<close> bits with \<open>base\<close>.
\<close>

definition base_value :: "nat \<Rightarrow> nat list \<Rightarrow> nat" where
  "base_value B ds = foldl (\<lambda>v d. v * B + d) 0 ds"

definition in_block :: "nat \<Rightarrow> nat \<times> nat \<Rightarrow> nat \<Rightarrow> bool" where
  "in_block width block x \<longleftrightarrow>
     (case block of (base, len) \<Rightarrow> x div 2 ^ (width - len) = base div 2 ^ (width - len))"

definition BLOCKED_V4 :: "(nat \<times> nat) list" where
  "BLOCKED_V4 = map (\<lambda>(ds, len). (base_value 256 ds, len))
     [([0, 0, 0, 0], 8), ([10, 0, 0, 0], 8), ([100, 64, 0, 0], 10), ([127, 0, 0, 0], 8), ([169, 254, 0, 0], 16),
      ([172, 16, 0, 0], 12), ([192, 0, 2, 0], 24), ([192, 168, 0, 0], 16), ([198, 51, 100, 0], 24),
      ([203, 0, 113, 0], 24), ([224, 0, 0, 0], 4), ([255, 255, 255, 255], 32)]"

definition BLOCKED_V6 :: "(nat \<times> nat) list" where
  "BLOCKED_V6 = map (\<lambda>(ds, len). (base_value 65536 ds, len))
     [([0x64, 0xff9b, 0, 0, 0, 0, 0, 0], 64), ([0x2001, 0, 0, 0, 0, 0, 0, 0], 32),
      ([0x2002, 0, 0, 0, 0, 0, 0, 0], 16), ([0xfc00, 0, 0, 0, 0, 0, 0, 0], 7), ([0xfe80, 0, 0, 0, 0, 0, 0, 0], 10),
      ([0xff00, 0, 0, 0, 0, 0, 0, 0], 8)]"

fun ip_value :: "ip_addr \<Rightarrow> nat" where
  "ip_value (V4 a b c d) = base_value 256 [unat a, unat b, unat c, unat d]"
| "ip_value (V6 s0 s1 s2 s3 s4 s5 s6 s7) =
     base_value 65536 [unat s0, unat s1, unat s2, unat s3, unat s4, unat s5, unat s6, unat s7]"

definition v4_blocked_value :: "nat \<Rightarrow> bool" where
  "v4_blocked_value x \<longleftrightarrow> (\<exists>b \<in> set BLOCKED_V4. in_block 32 b x)"

fun blocked_by_table :: "ip_addr \<Rightarrow> bool" where
  "blocked_by_table (V4 a b c d) = v4_blocked_value (ip_value (V4 a b c d))"
| "blocked_by_table (V6 s0 s1 s2 s3 s4 s5 s6 s7) =
     (let x = ip_value (V6 s0 s1 s2 s3 s4 s5 s6 s7)
      in if x div 2 ^ 32 \<in> {0, 0xffff} then v4_blocked_value (x mod 2 ^ 32)
         else \<exists>b \<in> set BLOCKED_V6. in_block 128 b x)"

lemma base_value_simps [simp]:
  "base_value B [] = 0" "base_value B (ds @ [d]) = base_value B ds * B + d"
  by (simp_all add: base_value_def)

lemma base_value_div:
  assumes "\<forall>d \<in> set ds. d < B" "k \<le> length ds"
  shows "base_value B ds div B ^ k = base_value B (take (length ds - k) ds)"
  using assms
proof (induction ds arbitrary: k rule: rev_induct)
  case (snoc d ds)
  show ?case
  proof (cases k)
    case (Suc k')
    have "base_value B (ds @ [d]) div B = base_value B ds"
      using snoc.prems(1) by simp
    then have "base_value B (ds @ [d]) div B ^ k = base_value B ds div B ^ k'"
      by (simp only: Suc power_Suc div_mult2_eq)
    then show ?thesis
      using snoc Suc by simp
  qed simp
qed simp

lemma base_value_inject:
  assumes "\<forall>d \<in> set xs. d < B" "\<forall>d \<in> set ys. d < B" "length xs = length ys"
  shows "base_value B xs = base_value B ys \<longleftrightarrow> xs = ys"
  using assms
proof (induction xs arbitrary: ys rule: rev_induct)
  case (snoc x xs)
  then obtain y ys' where ys: "ys = ys' @ [y]"
    by (metis length_0_conv length_append_singleton nat.simps(3) rev_exhaust)
  have "base_value B xs * B + x = base_value B ys' * B + y \<longleftrightarrow> base_value B xs = base_value B ys' \<and> x = y"
    using snoc.prems(1,2) ys by (auto dest: arg_cong [of _ _ "\<lambda>n. n div B"] arg_cong [of _ _ "\<lambda>n. n mod B"])
  then show ?case
    using snoc ys by auto
qed simp

lemma masked_eq_iff:
  fixes w c :: "'a::len word"
  shows "w AND NOT (mask k) = c AND NOT (mask k) \<longleftrightarrow> unat w div 2 ^ k = unat c div 2 ^ k"
proof -
  have "w AND NOT (mask k) = c AND NOT (mask k) \<longleftrightarrow> drop_bit k w = drop_bit k c"
  proof
    assume "w AND NOT (mask k) = c AND NOT (mask k)"
    then have "drop_bit k (w AND NOT (mask k)) = drop_bit k (c AND NOT (mask k))" by simp
    moreover have "drop_bit k (v AND NOT (mask k)) = drop_bit k v" for v :: "'a word"
      by (auto simp: bit_eq_iff bit_simps dest: bit_imp_le_length)
    ultimately show "drop_bit k w = drop_bit k c" by simp
  next
    assume "drop_bit k w = drop_bit k c"
    then have "bit (drop_bit k w) (n - k) = bit (drop_bit k c) (n - k)" for n by simp
    from this have "bit w n = bit c n" if "k \<le> n" for n
      using that by (metis bit_drop_bit_eq comp_apply le_add_diff_inverse)
    then show "w AND NOT (mask k) = c AND NOT (mask k)"
      by (intro bit_word_eqI) (auto simp: bit_simps not_less)
  qed
  then show ?thesis
    by (simp add: word_unat_eq_iff [of "drop_bit k w"] unat_drop_bit_eq drop_bit_eq_div [where 'a = nat])
qed

lemma masks:
  "(0xC0 :: u8) = NOT (mask 6)" "(0xff00 :: u16) = NOT (mask 8)" "(0xfe00 :: u16) = NOT (mask 9)"
  "(0xffc0 :: u16) = NOT (mask 6)"
  by (simp_all add: mask_eq_exp_minus_1 not_eq_complement)

lemma word_eq_unat: "w = numeral n \<longleftrightarrow> unat w = unat (numeral n :: 'a::len word)" "w = 0 \<longleftrightarrow> unat w = 0"
    "w = 1 \<longleftrightarrow> unat w = 1"
  for w :: "'a::len word"
  by (simp_all add: word_unat_eq_iff)

lemma octet_less: "unat (w :: u8) < 256" "unat (s :: u16) < 65536"
proof -
  have "unat w < 2 ^ LENGTH(8)" "unat s < 2 ^ LENGTH(16)" by (rule unsigned_less)+
  then show "unat w < 256" "unat s < 65536" by simp_all
qed

text \<open>A block of \<open>k * w + j\<close> bits of numbers with digits of \<open>w\<close> bits.\<close>

lemma base_value_prefix:
  assumes "\<forall>d \<in> set xs. d < 2 ^ w" "k < length xs" "j \<le> w"
  shows "base_value (2 ^ w) xs div 2 ^ (length xs * w - (k * w + j)) =
    base_value (2 ^ w) (take k xs) * 2 ^ j + xs ! k div 2 ^ (w - j)"
proof -
  let ?B = "2 ^ w :: nat"
  obtain m where m: "length xs = Suc (k + m)"
    using assms(2) less_imp_Suc_add by blast
  have "length xs * w - (k * w + j) = (length xs - Suc k) * w + (w - j)"
    using assms(3) by (simp add: m algebra_simps)
  then have "base_value ?B xs div 2 ^ (length xs * w - (k * w + j)) =
      base_value ?B xs div ?B ^ (length xs - Suc k) div 2 ^ (w - j)"
    by (simp only: power_add power_mult div_mult2_eq mult.commute [of _ w])
  also have "base_value ?B xs div ?B ^ (length xs - Suc k) = base_value ?B (take (Suc k) xs)"
    using assms(2) by (subst base_value_div [OF assms(1)]) simp_all
  also have "take (Suc k) xs = take k xs @ [xs ! k]"
    using assms(2) by (rule take_Suc_conv_app_nth)
  also have "base_value ?B (take k xs @ [xs ! k]) = base_value ?B (take k xs) * 2 ^ j * 2 ^ (w - j) + xs ! k"
    using assms(3) by (simp flip: power_add)
  also have "\<dots> div 2 ^ (w - j) = base_value ?B (take k xs) * 2 ^ j + xs ! k div 2 ^ (w - j)"
    by simp
  finally show ?thesis .
qed

lemma in_block_iff:
  assumes "\<forall>d \<in> set xs. d < 2 ^ w" "\<forall>d \<in> set ds. d < 2 ^ w" "length ds = length xs" "k < length xs" "j \<le> w"
  shows "in_block (length xs * w) (base_value (2 ^ w) ds, k * w + j) (base_value (2 ^ w) xs) \<longleftrightarrow>
    take k xs = take k ds \<and> xs ! k div 2 ^ (w - j) = ds ! k div 2 ^ (w - j)"
proof -
  have small: "ys ! k div 2 ^ (w - j) < 2 ^ j" if "\<forall>d \<in> set ys. d < 2 ^ w" "k < length ys" for ys :: "nat list"
    using that assms(5) by (simp add: less_mult_imp_div_less flip: power_add)
  have "m * 2 ^ j + p = n * 2 ^ j + q \<longleftrightarrow> m = n \<and> p = q" if "p < 2 ^ j" "q < 2 ^ j" for m n p q :: nat
    using that by (auto dest: arg_cong [of _ _ "\<lambda>n. n div 2 ^ j"] arg_cong [of _ _ "\<lambda>n. n mod 2 ^ j"])
  moreover have "base_value (2 ^ w) (take k xs) = base_value (2 ^ w) (take k ds) \<longleftrightarrow> take k xs = take k ds"
    using assms by (intro base_value_inject) (auto dest: in_set_takeD)
  ultimately show ?thesis
    using base_value_prefix [OF assms(1,4,5)] base_value_prefix [OF assms(2), of k j] assms(3-5)
      small [OF assms(1)] small [OF assms(2)]
    by (simp add: in_block_def)
qed

lemma in_block_v4:
  assumes "\<forall>d \<in> set [a, b, c, d]. d < 256" "\<forall>d \<in> set ds. d < 256" "length ds = 4" "k < 4" "j \<le> 8" "len = k * 8 + j"
  shows "in_block 32 (base_value 256 ds, len) (base_value 256 [a, b, c, d]) \<longleftrightarrow>
    take k [a, b, c, d] = take k ds \<and> [a, b, c, d] ! k div 2 ^ (8 - j) = ds ! k div 2 ^ (8 - j)"
  using in_block_iff [of "[a, b, c, d]" 8 ds k j] assms by simp

lemma v4_blocked_value_iff:
  fixes a b c d :: nat
  assumes "a < 256" "b < 256" "c < 256" "d < 256"
  shows "v4_blocked_value (base_value 256 [a, b, c, d]) \<longleftrightarrow>
    a = 0 \<or> a = 10 \<or> a = 100 \<and> b div 64 = 1 \<or> a = 127 \<or> a = 169 \<and> b = 254 \<or> a = 172 \<and> b div 16 = 1 \<or>
    a = 192 \<and> b = 0 \<and> c = 2 \<or> a = 192 \<and> b = 168 \<or> a = 198 \<and> b = 51 \<and> c = 100 \<or>
    a = 203 \<and> b = 0 \<and> c = 113 \<or> a div 16 = 14 \<or> a = 255 \<and> b = 255 \<and> c = 255 \<and> d = 255"
proof -
  have small: "\<forall>d \<in> set [a, b, c, d]. d < 256" using assms by simp
  have b1: "in_block 32 (base_value 256 [0, 0, 0, 0], 8) (base_value 256 [a, b, c, d]) \<longleftrightarrow> a = 0"
    "in_block 32 (base_value 256 [10, 0, 0, 0], 8) (base_value 256 [a, b, c, d]) \<longleftrightarrow> a = 10"
    "in_block 32 (base_value 256 [127, 0, 0, 0], 8) (base_value 256 [a, b, c, d]) \<longleftrightarrow> a = 127"
    by (simp_all add: in_block_v4 [OF small, of _ 0 8 8])
  have b2:
    "in_block 32 (base_value 256 [169, 254, 0, 0], 16) (base_value 256 [a, b, c, d]) \<longleftrightarrow> a = 169 \<and> b = 254"
    "in_block 32 (base_value 256 [192, 168, 0, 0], 16) (base_value 256 [a, b, c, d]) \<longleftrightarrow> a = 192 \<and> b = 168"
    by (simp_all add: in_block_v4 [OF small, of _ 1 8 16])
  have b3:
    "in_block 32 (base_value 256 [192, 0, 2, 0], 24) (base_value 256 [a, b, c, d]) \<longleftrightarrow> a = 192 \<and> b = 0 \<and> c = 2"
    "in_block 32 (base_value 256 [198, 51, 100, 0], 24) (base_value 256 [a, b, c, d]) \<longleftrightarrow> a = 198 \<and> b = 51 \<and> c = 100"
    "in_block 32 (base_value 256 [203, 0, 113, 0], 24) (base_value 256 [a, b, c, d]) \<longleftrightarrow> a = 203 \<and> b = 0 \<and> c = 113"
    by (simp_all add: in_block_v4 [OF small, of _ 2 8 24] numeral_2_eq_2)
  have b4:
    "in_block 32 (base_value 256 [255, 255, 255, 255], 32) (base_value 256 [a, b, c, d]) \<longleftrightarrow>
       a = 255 \<and> b = 255 \<and> c = 255 \<and> d = 255"
    by (simp add: in_block_v4 [OF small, of _ 3 8 32] numeral_3_eq_3)
  have b5:
    "in_block 32 (base_value 256 [100, 64, 0, 0], 10) (base_value 256 [a, b, c, d]) \<longleftrightarrow> a = 100 \<and> b div 64 = 1"
    by (simp add: in_block_v4 [OF small, of _ 1 2 10])
  have b6:
    "in_block 32 (base_value 256 [172, 16, 0, 0], 12) (base_value 256 [a, b, c, d]) \<longleftrightarrow> a = 172 \<and> b div 16 = 1"
    by (simp add: in_block_v4 [OF small, of _ 1 4 12])
  have b7:
    "in_block 32 (base_value 256 [224, 0, 0, 0], 4) (base_value 256 [a, b, c, d]) \<longleftrightarrow> a div 16 = 14"
    by (simp add: in_block_v4 [OF small, of _ 0 4 4])
  show ?thesis
    by (simp only: v4_blocked_value_def BLOCKED_V4_def list.map prod.case list.set bex_simps simp_thms
        b1 b2 b3 b4 b5 b6 b7)
qed

lemma div_eq_range: "0 < m \<Longrightarrow> n div m = k \<longleftrightarrow> k * m \<le> n \<and> n < k * m + m" for n m k :: nat
  by (metis add.commute div_nat_eqI dividend_less_div_times div_times_less_eq_dividend mult.commute mult_Suc)

lemma is_blocked_v4_iff: "is_blocked_v4 a b c d \<longleftrightarrow> v4_blocked_value (base_value 256 [unat a, unat b, unat c, unat d])"
proof -
  have cgnat: "b AND 0xC0 = 64 \<longleftrightarrow> unat b div 64 = 1"
    using masked_eq_iff [of b 6 64, folded masks] by simp
  have ranges: "16 \<le> unat b \<and> unat b \<le> 31 \<longleftrightarrow> unat b div 16 = 1" "224 \<le> unat a \<and> unat a \<le> 239 \<longleftrightarrow> unat a div 16 = 14"
    by (auto simp: div_eq_range)
  have "is_blocked_v4 a b c d \<longleftrightarrow> unat a = 127 \<or>
      (unat a = 10 \<or> unat a = 172 \<and> unat b div 16 = 1 \<or> unat a = 192 \<and> unat b = 168) \<or>
      unat a = 169 \<and> unat b = 254 \<or> (unat a = 255 \<and> unat b = 255 \<and> unat c = 255 \<and> unat d = 255) \<or>
      (unat a = 192 \<and> unat b = 0 \<and> unat c = 2 \<or> unat a = 198 \<and> unat b = 51 \<and> unat c = 100 \<or>
       unat a = 203 \<and> unat b = 0 \<and> unat c = 113) \<or>
      (unat a = 0 \<and> unat b = 0 \<and> unat c = 0 \<and> unat d = 0) \<or> unat a div 16 = 14 \<or> unat a = 0 \<or>
      (unat a = 100 \<and> unat b div 64 = 1)"
    unfolding is_blocked_v4_def v4_is_loopback_def v4_is_private_def v4_is_link_local_def
      v4_is_documentation_def v4_is_multicast_def cgnat ranges [symmetric]
    by (simp add: word_eq_unat word_le_nat_alt)
  then show ?thesis
    unfolding v4_blocked_value_iff [OF octet_less(1) [of a] octet_less(1) [of b] octet_less(1) [of c] octet_less(1) [of d]]
    by argo
qed

lemma in_block_v6:
  assumes "\<forall>d \<in> set xs. d < 65536" "length xs = 8"
    and "\<forall>d \<in> set ds. d < 65536" "length ds = 8" "k < 8" "j \<le> 16" "len = k * 16 + j"
  shows "in_block 128 (base_value 65536 ds, len) (base_value 65536 xs) \<longleftrightarrow>
    take k xs = take k ds \<and> xs ! k div 2 ^ (16 - j) = ds ! k div 2 ^ (16 - j)"
  using in_block_iff [of xs 16 ds k j] assms by simp

lemma v6_blocks_iff:
  assumes "\<forall>d \<in> set [s0, s1, s2, s3, s4, s5, s6, s7]. d < 65536"
  defines "x \<equiv> base_value 65536 [s0, s1, s2, s3, s4, s5, s6, s7]"
  shows "(\<exists>b \<in> set BLOCKED_V6. in_block 128 b x) \<longleftrightarrow>
    s0 = 0x64 \<and> s1 = 0xff9b \<and> s2 = 0 \<and> s3 = 0 \<or> s0 = 0x2001 \<and> s1 = 0 \<or> s0 = 0x2002 \<or>
    s0 div 512 = 126 \<or> s0 div 64 = 1018 \<or> s0 div 256 = 255"
proof -
  note block = in_block_v6 [OF assms(1), folded x_def]
  have b1: "in_block 128 (base_value 65536 [0x64, 0xff9b, 0, 0, 0, 0, 0, 0], 64) x \<longleftrightarrow>
      s0 = 0x64 \<and> s1 = 0xff9b \<and> s2 = 0 \<and> s3 = 0"
    by (simp add: block [of _ 3 16 64] numeral_3_eq_3)
  have b2: "in_block 128 (base_value 65536 [0x2001, 0, 0, 0, 0, 0, 0, 0], 32) x \<longleftrightarrow> s0 = 0x2001 \<and> s1 = 0"
    by (simp add: block [of _ 1 16 32])
  have b3: "in_block 128 (base_value 65536 [0x2002, 0, 0, 0, 0, 0, 0, 0], 16) x \<longleftrightarrow> s0 = 0x2002"
    by (simp add: block [of _ 0 16 16])
  have b4: "in_block 128 (base_value 65536 [0xfc00, 0, 0, 0, 0, 0, 0, 0], 7) x \<longleftrightarrow> s0 div 512 = 126"
    by (simp add: block [of _ 0 7 7])
  have b5: "in_block 128 (base_value 65536 [0xfe80, 0, 0, 0, 0, 0, 0, 0], 10) x \<longleftrightarrow> s0 div 64 = 1018"
    by (simp add: block [of _ 0 10 10])
  have b6: "in_block 128 (base_value 65536 [0xff00, 0, 0, 0, 0, 0, 0, 0], 8) x \<longleftrightarrow> s0 div 256 = 255"
    by (simp add: block [of _ 0 8 8])
  show ?thesis
    by (simp only: BLOCKED_V6_def list.map prod.case list.set bex_simps simp_thms b1 b2 b3 b4 b5 b6)
qed

lemma v6_value_split:
  assumes "\<forall>d \<in> set [s0, s1, s2, s3, s4, s5, s6, s7]. d < 65536"
  defines "x \<equiv> base_value 65536 [s0, s1, s2, s3, s4, s5, s6, s7]"
  shows "x div 2 ^ 32 \<in> {0, 0xffff} \<longleftrightarrow> s0 = 0 \<and> s1 = 0 \<and> s2 = 0 \<and> s3 = 0 \<and> s4 = 0 \<and> (s5 = 0 \<or> s5 = 0xffff)"
    and "x mod 2 ^ 32 = base_value 256 [s6 div 256, s6 mod 256, s7 div 256, s7 mod 256]"
proof -
  let ?h = "base_value 65536 [s0, s1, s2, s3, s4, s5]"
  have x: "x = ?h * 65536 ^ 2 + (s6 * 65536 + s7)"
    by (simp add: x_def base_value_def power2_eq_square algebra_simps)
  have low: "s6 * 65536 + s7 < 65536 ^ 2"
    using assms(1) by simp
  have "x div 2 ^ 32 = ?h" "x mod 2 ^ 32 = s6 * 65536 + s7"
    using low by (simp_all add: x)
  moreover have "?h = base_value 65536 [0, 0, 0, 0, 0, v] \<longleftrightarrow> [s0, s1, s2, s3, s4, s5] = [0, 0, 0, 0, 0, v]"
    if "v < 65536" for v
    using assms(1) that by (intro base_value_inject) auto
  from this [of 0] this [of 65535] have "?h \<in> {0, 0xffff} \<longleftrightarrow>
      s0 = 0 \<and> s1 = 0 \<and> s2 = 0 \<and> s3 = 0 \<and> s4 = 0 \<and> (s5 = 0 \<or> s5 = 0xffff)"
    by (auto simp: base_value_def)
  moreover have "s6 = s6 div 256 * 256 + s6 mod 256" "s7 = s7 div 256 * 256 + s7 mod 256"
    by simp_all
  then have "s6 * 65536 + s7 = base_value 256 [s6 div 256, s6 mod 256, s7 div 256, s7 mod 256]"
    by (simp add: base_value_def)
  ultimately show "x div 2 ^ 32 \<in> {0, 0xffff} \<longleftrightarrow> s0 = 0 \<and> s1 = 0 \<and> s2 = 0 \<and> s3 = 0 \<and> s4 = 0 \<and> (s5 = 0 \<or> s5 = 0xffff)"
    "x mod 2 ^ 32 = base_value 256 [s6 div 256, s6 mod 256, s7 div 256, s7 mod 256]"
    by simp_all
qed

lemma unat_octets: "unat (fst (octets_of s)) = unat s div 256" "unat (snd (octets_of s)) = unat s mod 256"
proof -
  have "unat s div 256 < 256" using octet_less(2) by (simp add: less_mult_imp_div_less)
  then show "unat (fst (octets_of s)) = unat s div 256" "unat (snd (octets_of s)) = unat s mod 256"
    by (simp_all add: octets_of_def unsigned_ucast_eq unat_drop_bit_eq drop_bit_eq_div [where 'a = nat] take_bit_eq_mod)
qed

text \<open>
  C38. The address test of the egress gateway is exactly membership in a table of address blocks.  An IPv4
  address, or an IPv6 address that embeds one (mapped or compatible), is refused if and only if the IPv4
  address lies in one of twelve blocks (this network, private, shared, loopback, link-local with the metadata
  address, documentation, multicast, broadcast); any other IPv6 address if and only if it lies in one of six (NAT64
  with a zero subnet, Teredo, 6to4, unique local, link-local, multicast).
\<close>

theorem blocked_addresses_are_the_table: "is_blocked_ip ip \<longleftrightarrow> blocked_by_table ip"
proof (cases ip)
  case (V4 a b c d)
  then show ?thesis by (simp add: is_blocked_v4_iff)
next
  case (V6 s0 s1 s2 s3 s4 s5 s6 s7)
  let ?n = "[unat s0, unat s1, unat s2, unat s3, unat s4, unat s5, unat s6, unat s7]"
  have small: "\<forall>d \<in> set ?n. d < 65536" using octet_less(2) by simp
  have masked: "s0 AND 0xff00 = 0xff00 \<longleftrightarrow> unat s0 div 256 = 255" "s0 AND 0xfe00 = 0xfc00 \<longleftrightarrow> unat s0 div 512 = 126"
      "s0 AND 0xffc0 = 0xfe80 \<longleftrightarrow> unat s0 div 64 = 1018"
    using masked_eq_iff [of s0 8 "0xff00", folded masks] masked_eq_iff [of s0 9 "0xfc00", folded masks]
      masked_eq_iff [of s0 6 "0xfe80", folded masks] by simp_all
  show ?thesis
  proof (cases "embeds_v4 s0 s1 s2 s3 s4 s5")
    case True
    then show ?thesis
      using v6_value_split [OF small]
      by (simp add: V6 embeds_v4_def is_blocked_v4_iff unat_octets case_prod_unfold Let_def word_eq_unat)
  next
    case False
    have nat: "embeds_v4 s0 s1 s2 s3 s4 s5 \<longleftrightarrow> unat s0 = 0 \<and> unat s1 = 0 \<and> unat s2 = 0 \<and> unat s3 = 0 \<and> unat s4 = 0 \<and>
        (unat s5 = 0 \<or> unat s5 = 0xffff)"
      by (simp add: embeds_v4_def word_eq_unat)
    have "blocked_by_table ip \<longleftrightarrow> unat s0 = 0x64 \<and> unat s1 = 0xff9b \<and> unat s2 = 0 \<and> unat s3 = 0 \<or>
        unat s0 = 0x2001 \<and> unat s1 = 0 \<or> unat s0 = 0x2002 \<or> unat s0 div 512 = 126 \<or> unat s0 div 64 = 1018 \<or>
        unat s0 div 256 = 255"
      using False unfolding nat V6 blocked_by_table.simps ip_value.simps Let_def v6_value_split(1) [OF small]
        v6_blocks_iff [OF small] by (simp only: if_False)
    moreover have "is_blocked_ip ip \<longleftrightarrow> s0 AND 0xff00 = 0xff00 \<or> s0 AND 0xfe00 = 0xfc00 \<or> s0 AND 0xffc0 = 0xfe80 \<or>
        s0 = 0x0064 \<and> s1 = 0xff9b \<and> s2 = 0 \<and> s3 = 0 \<or> s0 = 0x2002 \<or> s0 = 0x2001 \<and> s1 = 0"
      using False unfolding V6 is_blocked_ip.simps if_not_P [OF False] embeds_v4_def by argo
    ultimately show ?thesis
      unfolding masked by (simp add: word_eq_unat) argo
  qed
qed

section \<open>The strict match\<close>

lemma first_match_Some: "first_match f xs = Some y \<Longrightarrow> \<exists>x \<in> set xs. f x = Some y"
  by (induction xs) (auto split: option.splits)

lemma first_match_None_iff: "first_match f xs = None \<longleftrightarrow> (\<forall>x \<in> set xs. f x = None)"
  by (induction xs) (auto split: option.splits)

lemma as_array_Some_iff: "as_array v = Some xs \<longleftrightarrow> v = JArr xs"
  by (cases v) auto

lemma as_str_Some_iff: "as_str v = Some s \<longleftrightarrow> v = JStr s"
  by (cases v) auto

lemma set_map_filter: "set (List.map_filter f xs) = {y. \<exists>x \<in> set xs. f x = Some y}"
  by (force simp: List.map_filter_def)

lemma match_object_strict:
  "match_object env True o' host method path = Some m \<longleftrightarrow>
     (\<forall>kv \<in> set o'. fst kv \<in> set EGRESS_FIELDS) \<and> host_matches o' host \<and> method_matches True o' method \<and>
     path_matches True o' path \<and>
     body_flag True o' ''request_body'' ''deny'' = Some (em_request_body_allowed m) \<and>
     body_flag True o' ''response_body'' ''digest_only'' = Some (em_response_body_allowed m) \<and>
     filter_option (\<lambda>v. v \<le> 4 * 1024 * 1024) (u64_field o' ''max_request_bytes'') = Some (em_max_request_bytes m) \<and>
     filter_option (\<lambda>v. 0 < v \<and> v \<le> max_resp_bytes env) (u64_field o' ''max_response_bytes'') =
       Some (em_max_response_bytes m) \<and>
     listed_headers o' = Some (em_allowed_headers m) \<and> em_inject_credential m = str_field o' ''inject_credential''"
proof -
  have fields: "list_ex (\<lambda>kv. fst kv \<notin> set EGRESS_FIELDS) o' \<longleftrightarrow> \<not> (\<forall>kv \<in> set o'. fst kv \<in> set EGRESS_FIELDS)"
    by auto
  show ?thesis
    by (cases m, cases "body_flag True o' ''request_body'' ''deny''", simp add: match_object_def,
        cases "body_flag True o' ''response_body'' ''digest_only''", simp add: match_object_def,
        cases "filter_option (\<lambda>v. v \<le> 4 * 1024 * 1024) (u64_field o' ''max_request_bytes'')",
        simp add: match_object_def,
        cases "filter_option (\<lambda>v. 0 < v \<and> v \<le> max_resp_bytes env) (u64_field o' ''max_response_bytes'')",
        simp add: match_object_def,
        cases "listed_headers o'", simp add: match_object_def)
       (auto simp: match_object_def fields)
qed

lemma listed_headers_allowed: "listed_headers o' = Some hs \<Longrightarrow> h \<in> set hs \<Longrightarrow> \<not> header_forbidden h"
  by (auto simp: listed_headers_def)


section \<open>Registered policies\<close>

lemma prefix_slash_trim: "prefix ''/'' p \<Longrightarrow> trim_end_slashes p \<noteq> [] \<Longrightarrow> prefix ''/'' (trim_end_slashes p)"
proof -
  assume p: "prefix ''/'' p" "trim_end_slashes p \<noteq> []"
  have "p = trim_end_slashes p @ rev (takeWhile (\<lambda>c. c = CHR ''/'') (rev p))"
    unfolding trim_end_slashes_def
    by (metis rev_append rev_rev_ident takeWhile_dropWhile_id)
  with p show ?thesis
    by (metis Cons_prefix_Cons append_Cons neq_Nil_conv Nil_prefix prefix_order.order_refl)
qed

lemma checked_entry:
  assumes "validate_production_egress_policy E intent = Ok ()"
    and "jget intent ''egress_allowlist'' = Some (JArr es)" "JObj o' \<in> set es"
  obtains i where "check_entry_head i o' = Ok ()" "check_entry_limits E i o' = Ok ()"
proof -
  obtain i where "i < length es" "es ! i = JObj o'"
    using assms(3) by (auto simp: in_set_conv_nth)
  then have "(i, JObj o') \<in> set (enumerate 0 es)"
    by (simp add: in_set_enumerate_eq)
  then have "check_entry E (i, JObj o') = Ok ()"
    using assms(1,2) by (auto simp: validate_production_egress_policy_def try_all_Ok_iff)
  then show thesis
    using that by (auto simp: check_entry_def and_then_eq_Ok_iff)
qed

lemma checked_head:
  assumes "check_entry_head i o' = Ok ()"
  shows "\<forall>kv \<in> set o'. fst kv \<in> set EGRESS_FIELDS"
    and "str_field o' ''path_prefix'' = Some p \<Longrightarrow> trim_end_slashes p \<noteq> [] \<and> prefix ''/'' (trim_end_slashes p)"
proof -
  show "\<forall>kv \<in> set o'. fst kv \<in> set EGRESS_FIELDS"
    using assms by (auto simp: check_entry_head_def and_then_eq_Ok_iff entry_error_def find_None_iff split: option.splits)
  show "trim_end_slashes p \<noteq> [] \<and> prefix ''/'' (trim_end_slashes p)" if "str_field o' ''path_prefix'' = Some p"
    using assms that prefix_slash_trim
    by (auto simp: check_entry_head_def and_then_eq_Ok_iff entry_error_def Let_def split: if_splits)
qed

lemma checked_limits:
  assumes "check_entry_limits E i o' = Ok ()"
  shows "body_flag True o' ''request_body'' ''deny'' \<noteq> None" "body_flag True o' ''response_body'' ''digest_only'' \<noteq> None"
    "\<exists>v. u64_field o' ''max_request_bytes'' = Some v \<and> v \<le> 4 * 1024 * 1024"
    "\<exists>v. u64_field o' ''max_response_bytes'' = Some v \<and> 0 < v" "listed_headers o' \<noteq> None"
  using assms
  by (auto simp: check_entry_limits_def and_then_eq_Ok_iff entry_error_def body_flag_def listed_headers_def
      split: if_splits option.splits)

text \<open>
  C40. An egress policy that passes the registration check has no entry that the gateway silently skips.  For
  every entry of a validated allowlist, a request to its host with one of its methods below its path
  prefix is matched, provided the response limit of the entry is within the limit of the process; an entry with a
  larger response limit, which the registration check accepts up to 1 MiB, is skipped for every request.
\<close>

theorem validated_entries_are_usable:
  assumes "validate_production_egress_policy E intent = Ok ()"
    and "jget intent ''egress_allowlist'' = Some (JArr es)" "JObj o' \<in> set es"
    and "map_of o' ''host'' = Some (JStr h)" "eq_ignore_ascii_case h host"
    and "map_of o' ''methods'' = Some (JArr ms)" "JStr v \<in> set ms" "eq_ignore_ascii_case v method"
    and "map_of o' ''path_prefix'' = Some (JStr p)" "under_prefix (trim_end_slashes p) path"
    and "u64_field o' ''max_response_bytes'' = Some cap"
  shows "(cap \<le> max_resp_bytes env \<longrightarrow> (\<exists>m. egress_matched env intent host method path True = Some m)) \<and>
    (max_resp_bytes env < cap \<longrightarrow> match_entry env True host' method' path' (JObj o') = None)"
proof -
  obtain i where head: "check_entry_head i o' = Ok ()" and limits: "check_entry_limits E i o' = Ok ()"
    using checked_entry [OF assms(1-3)] .
  have "host_matches o' host" "method_matches True o' method"
    using assms(4-8)
    by (auto simp: host_matches_def str_field_def method_matches_def array_field_def set_map_filter as_str_Some_iff)
  moreover have "path_matches True o' path"
    using assms(9,10) checked_head(2) [OF head, of p] by (auto simp: path_matches_def str_field_def Let_def)
  moreover note checked_head(1) [OF head] checked_limits [OF limits]
  ultimately have "match_object env True o' host method path \<noteq> None" if "cap \<le> max_resp_bytes env"
    using that assms(11) by (auto simp: match_object_def filter_option_def)
  moreover have "match_entry env True host method path (JObj o') = match_object env True o' host method path"
    by (simp add: match_entry_def)
  ultimately have "first_match (match_entry env True host method path) es \<noteq> None" if "cap \<le> max_resp_bytes env"
    using that assms(3) by (metis first_match_None_iff)
  then have "cap \<le> max_resp_bytes env \<longrightarrow> (\<exists>m. egress_matched env intent host method path True = Some m)"
    using assms(2) by (auto simp: egress_matched_def)
  moreover have "match_object env True o' host' method' path' = None" if "max_resp_bytes env < cap"
    using that assms(11) by (auto simp: match_object_strict filter_option_Some_iff simp flip: not_Some_eq)
  ultimately show ?thesis
    by (simp add: match_entry_def)
qed

definition demo_entry :: "(string \<times> json) list" where
  "demo_entry =
     [(''host'', JStr ''api.example.com''), (''methods'', JArr [JStr ''POST'']), (''path_prefix'', JStr ''/v1/''),
      (''request_body'', JStr ''allow''), (''response_body'', JStr ''allow''), (''max_request_bytes'', JNum (PosInt 1000)),
      (''max_response_bytes'', JNum (PosInt 2000)), (''allowed_headers'', JArr [])]"

definition demo_egress_tools :: egress_tools where
  "demo_egress_tools =
     \<lparr>re_matches = (\<lambda>re s. False), re_replace_all = (\<lambda>re s r. s), header_name_ok = (\<lambda>s. True), method_ok = (\<lambda>s. True),
      url_parse = (\<lambda>s. Err ''''), uppercase = to_ascii_uppercase\<rparr>"

lemma demo_fields:
  "map_of demo_entry ''host'' = Some (JStr ''api.example.com'')" "map_of demo_entry ''methods'' = Some (JArr [JStr ''POST''])"
  "map_of demo_entry ''path_prefix'' = Some (JStr ''/v1/'')" "map_of demo_entry ''request_body'' = Some (JStr ''allow'')"
  "map_of demo_entry ''response_body'' = Some (JStr ''allow'')"
  "map_of demo_entry ''max_request_bytes'' = Some (JNum (PosInt 1000))"
  "map_of demo_entry ''max_response_bytes'' = Some (JNum (PosInt 2000))"
  "map_of demo_entry ''allowed_headers'' = Some (JArr [])" "map_of demo_entry ''inject_credential'' = None"
  by (simp_all add: demo_entry_def)

lemma demo_entry_known: "kv \<in> set demo_entry \<Longrightarrow> fst kv \<in> set EGRESS_FIELDS"
  by (auto simp: demo_entry_def EGRESS_FIELDS_def)

lemma demo_prefix: "trim_end_slashes ''/v1/'' = ''/v1''"
  by (simp add: trim_end_slashes_def)

lemma demo_entry_head: "check_entry_head 0 demo_entry = Ok ()"
proof -
  have "find (\<lambda>(k, _). k \<notin> set EGRESS_FIELDS) demo_entry = None"
    using demo_entry_known by (fastforce simp: find_None_iff)
  moreover have "check_methods 0 [JStr ''POST''] = Ok ()"
    by (simp add: check_methods_def to_ascii_uppercase_def char_upper_def is_ascii_lower_def byte_def)
  ultimately show ?thesis
    by (simp add: check_entry_head_def str_field_def array_field_def demo_fields demo_prefix)
qed

lemma demo_entry_limits: "check_entry_limits E 0 demo_entry = Ok ()"
  by (simp add: check_entry_limits_def str_field_def array_field_def u64_field_def demo_fields check_headers_def)

lemma demo_entry_valid:
  "validate_production_egress_policy E (JObj [(''egress_allowlist'', JArr [JObj demo_entry])]) = Ok ()"
  by (simp add: validate_production_egress_policy_def check_entry_def demo_entry_head demo_entry_limits)

theorem validated_entries_are_usable_witness:
  "\<exists>m. egress_matched (\<lambda>v. None) (JObj [(''egress_allowlist'', JArr [JObj demo_entry])])
     ''API.example.com'' ''POST'' ''/v1/orders'' True = Some m"
proof -
  have "eq_ignore_ascii_case ''api.example.com'' ''API.example.com''" "eq_ignore_ascii_case ''POST'' ''POST''" by code_simp+
  moreover have "under_prefix (trim_end_slashes ''/v1/'') ''/v1/orders''" "u64_field demo_entry ''max_response_bytes'' = Some 2000"
    by (simp_all add: under_prefix_def demo_prefix u64_field_def demo_fields)
  ultimately show ?thesis
    using validated_entries_are_usable [OF demo_entry_valid, where es = "[JObj demo_entry]" and o' = demo_entry and env = "\<lambda>v. None"
        and h = "''api.example.com''" and v = "''POST''" and p = "''/v1/''" and cap = 2000 and ms = "[JStr ''POST'']"]
    by (simp add: demo_fields max_resp_bytes_def)
qed

end
