(* ===== verification/Egress_Gateway.thy ===== *)
theory Egress_Gateway
  imports Egress_Policy User_Session Risk Action_Guarantees
begin

text \<open>
  The handlers of the egress gateway: \<open>egress_gateway/capability.rs\<close>, which issues a capability for one exact
  outbound request, \<open>egress_gateway/proxy.rs\<close>, which consumes it and makes the request, the log row of
  \<open>egress_gateway/guards.rs\<close>, and the voluntary report of \<open>main/egress.rs\<close>.

  The network is a parameter: the answer of the resolver and the reply of the target.  The state of the
  proxy carries the requests it has sent, so that the theorems can speak about them.  A request is
  sent only for a live agent whose intent grants it, to an address that was vetted, with headers that
  are not forbidden, and for a capability that is consumed by it; a capability is consumed at most once.
\<close>

section \<open>Data\<close>

record egress_env =
  ee_tools :: egress_tools
  ee_token :: token_tools
  ee_gate :: gate_env
  ee_jwt_secret :: string
  ee_conn :: "nat \<Rightarrow> any_env"
  ee_clock :: "nat \<Rightarrow> i64"

record ('s, 'p) egress_capability_request =
  er_agent_id :: string
  er_ajwt :: string
  er_method :: string
  er_url :: string
  er_body_hash_hex :: string
  er_agent_action :: "('s, 'p) agent_action_proof"

record egress_capability_response =
  es_capability :: string
  es_expires_at :: i64
  es_action_receipt :: action_receipt

record egress_proxy_request =
  ep_capability :: string
  ep_method :: string
  ep_url :: string
  ep_headers :: "(string \<times> string) list"
  ep_body :: "string option"

record egress_proxy_response =
  eo_status :: u16
  eo_body :: string
  eo_body_sha256_hex :: string
  eo_body_bytes :: nat
  eo_redacted :: "string list"

text \<open>A request as it leaves the gateway, and the reply: the body arrives in chunks or breaks off with an error.\<close>

record outbound =
  out_addr :: "ip_addr \<times> u16"
  out_url :: string
  out_method :: string
  out_headers :: "(string \<times> string) list"
  out_body :: "string option"

record http_reply =
  hr_status :: u16
  hr_content_length :: "nat option"
  hr_chunks :: "(string, string) result list"

record network =
  nw_lookup :: "string \<Rightarrow> u16 \<Rightarrow> (string, (ip_addr \<times> u16) list) result"
  nw_client :: "(string, unit) result"
  nw_send :: "outbound \<Rightarrow> (string, http_reply) result"

definition sha256_hex :: "('z) digests_scheme \<Rightarrow> string \<Rightarrow> string" where
  "sha256_hex D s = hex_encode D (sha256 D s)"

text \<open>Steps on the database as steps on the state of the handlers.\<close>

type_synonym gateway = "outbound list \<times> audit_sinks \<times> database"

definition on_db :: "(database, 'e, 'a) step \<Rightarrow> (audit_sinks \<times> database, 'e, 'a) step" where
  "on_db m s = (case m (snd s) of (r, db) \<Rightarrow> (r, fst s, db))"

definition on_store :: "(audit_sinks \<times> database, 'e, 'a) step \<Rightarrow> (gateway, 'e, 'a) step" where
  "on_store m s = (case m (snd s) of (r, st) \<Rightarrow> (r, fst s, st))"

section \<open>Issuing a capability\<close>

definition signed_agent :: "request \<Rightarrow> string" where
  "signed_agent rq = (case header_str rq ''x-sauron-agent-id'' of Some a \<Rightarrow> a | None \<Rightarrow> [])"

definition capability_url_ok :: "url \<Rightarrow> bool" where
  "capability_url_ok u \<longleftrightarrow> url_scheme u \<in> {''http'', ''https''} \<and> url_username u = [] \<and> url_password u = None \<and>
     url_query u = None \<and> url_fragment u = None"

definition claimed_intent :: "('z) web_scheme \<Rightarrow> json \<Rightarrow> (app_error, json) result" where
  "claimed_intent W claims =
     (case jget claims ''intent'' of
        Some (JStr s) \<Rightarrow> ok_or (json_parse W s) (app_error_from 401 (Msg ''A-JWT intent is invalid JSON''))
      | Some v \<Rightarrow> Ok v
      | None \<Rightarrow> fail 401 (Msg ''A-JWT missing intent''))"

definition capability_options ::
  "string \<Rightarrow> string \<Rightarrow> string \<Rightarrow> string \<Rightarrow> json \<Rightarrow> string \<Rightarrow> url \<Rightarrow> string \<Rightarrow> validate_agent_action_options" where
  "capability_options tenant_id agent_id human jti intent request_url u pop_jkt =
     \<lparr>op_tenant_id = tenant_id, op_agent_id = agent_id, op_human_key_image = human, op_ajwt_jti = jti,
      op_intent = Some intent, op_expected_action = ''egress'', op_expected_resource = Some request_url,
      op_expected_merchant_id = url_host u, op_expected_amount_minor = Some 0, op_expected_currency = Some '''',
      op_pop_jkt = Some pop_jkt, op_status = ''authorized''\<rparr>"

definition capability_action :: "string \<Rightarrow> i64 \<Rightarrow> url \<Rightarrow> string \<Rightarrow> action" where
  "capability_action receipt_id now u method =
     action_default\<lparr>action_id := ''egress-cap-'' @ receipt_id, tool := ''egress'', amount_usd := None, timestamp := now,
       metadata := [''target_domain'' \<mapsto> JStr (case url_host u of Some h \<Rightarrow> h | None \<Rightarrow> []), ''method'' \<mapsto> JStr method]\<rparr>"

definition delete_capabilities :: "i64 \<Rightarrow> database \<Rightarrow> database" where
  "delete_capabilities now db =
     db\<lparr>agent_egress_capabilities :=
       filter (\<lambda>r. \<not> (cap_expires_at r < now \<or> cap_used_at r \<noteq> None)) (agent_egress_capabilities db)\<rparr>"

definition insert_capability :: "capability_row \<Rightarrow> database \<Rightarrow> database" where
  "insert_capability row db = db\<lparr>agent_egress_capabilities := agent_egress_capabilities db @ [row]\<rparr>"

definition store_capability :: "any_env \<Rightarrow> i64 \<Rightarrow> capability_row \<Rightarrow> (database, app_error, unit) step" where
  "store_capability conn now row =
     locked conn (map_err_step (\<lambda>e. app_error_from 500 (Msg e))
       (and_do (execute conn 0 (\<lambda>db. False) (delete_capabilities now)) (\<lambda>_.
        execute conn 1 (\<lambda>db. list_ex (\<lambda>r. cap_token_hash_hex r = cap_token_hash_hex row) (agent_egress_capabilities db))
          (insert_capability row))))"

text \<open>\<open>hex\<close> and \<open>capability\<close> are the random receipt id and the random bearer value.\<close>

definition issue_egress_capability ::
  "egress_env \<Rightarrow> ('s, 'p, 'z) curve_scheme \<Rightarrow> string \<Rightarrow> string \<Rightarrow> request \<Rightarrow> ('s, 'p) egress_capability_request \<Rightarrow>
   (audit_sinks \<times> database, app_error, egress_capability_response) step" where
  "issue_egress_capability X G hex capability rq req =
     (let env = ge_env (ee_gate X); T = ee_token X; clk = ee_clock X;
          tenant_id = request_tenant rq;
          method = to_ascii_uppercase (trim (er_method req))
      in
      and_do (pure_step (require (egress_gateway_enabled env) 503 (Msg ''egress gateway disabled''))) (\<lambda>_.
      and_do (pure_step (require (signed_agent rq \<noteq> [] \<and> signed_agent rq = er_agent_id req) 401
        (Msg ''capability agent_id does not match the signed caller''))) (\<lambda>_.
      and_do (pure_step (require (method_ok (ee_tools X) method) 400 (Msg ''invalid HTTP method''))) (\<lambda>_.
      and_do (pure_step (map_err (\<lambda>e. app_error_from 400 (Fmt ''bad url: {e}'' [AStr e]))
        (url_parse (ee_tools X) (er_url req)))) (\<lambda>u.
      and_do (pure_step (require (capability_url_ok u) 400
        (Msg ''capability URL must be http(s) without userinfo, query, or fragment''))) (\<lambda>_.
      and_do (pure_step (require (is_hex64 (er_body_hash_hex req)) 400 (Msg ''body_hash_hex must be 32-byte hex''))) (\<lambda>_.
      and_do (pure_step (ok_or (verify_ajwt_for_tenant T env (ee_jwt_secret X) (er_ajwt req) tenant_id (clk 0))
        (app_error_from 401 (Msg ''invalid, expired, or wrong-tenant A-JWT'')))) (\<lambda>claims.
      and_do (pure_step (require ((case str_claim claims ''agent_id'' of Some a \<Rightarrow> a | None \<Rightarrow> []) = er_agent_id req) 401
        (Msg ''A-JWT agent_id mismatch''))) (\<lambda>_.
      and_do (on_db (locked (ee_conn X 0) (map_err_step (\<lambda>_. app_error_from 429
          (Msg ''agent egress capability rate limit exceeded''))
        (check_and_increment env (ee_conn X 0) (bucket_egress_capability (tt_crypto T) tenant_id (er_agent_id req)) (clk 1)
          (limit_egress_capability env))))) (\<lambda>_.
      and_do (pure_step (ok_or (str_claim claims ''sub'') (app_error_from 401 (Msg ''A-JWT missing sub'')))) (\<lambda>human.
      and_do (pure_step (ok_or (str_claim claims ''jti'') (app_error_from 401 (Msg ''A-JWT missing jti'')))) (\<lambda>jti.
      and_do (pure_step (ok_or (claim_i64 claims ''exp'') (app_error_from 401 (Msg ''A-JWT missing exp'')))) (\<lambda>exp'.
      and_do (pure_step (claimed_intent (tt_web T) claims)) (\<lambda>intent.
      let pop_jkt = (case Option.bind (Option.bind (jget claims ''cnf'') (\<lambda>c. jget c ''jkt'')) as_str of
                       Some s \<Rightarrow> s | None \<Rightarrow> [])
      in
      and_do (on_db (validate_agent_action (tt_crypto T) G (ee_conn X 1) (ee_jwt_secret X) hex (clk 2) (clk 3)
        (er_agent_action req) (capability_options tenant_id (er_agent_id req) human jti intent (er_url req) u pop_jkt))) (\<lambda>validated.
      let receipt_id = rc_receipt_id (av_receipt validated) in
      and_do (gate_action_on_bound_policy (ee_gate X) tenant_id (er_agent_id req)
        (capability_action receipt_id (clk 4) u method)) (\<lambda>_.
      let now = clk 5;
          expires_at = min (min exp' (ev_expires_at (pf_envelope (er_agent_action req)))) (i64_wrap (now + 120))
      in
      and_do (pure_step (require (now < expires_at) 401 (Msg ''capability would already be expired''))) (\<lambda>_.
      and_do (on_db (store_capability (ee_conn X 2) now
        \<lparr>cap_token_hash_hex = sha256_hex (tt_crypto T) capability, cap_tenant_id = tenant_id,
         cap_agent_id = er_agent_id req, cap_method = method, cap_url = er_url req,
         cap_body_hash_hex = to_ascii_lowercase (er_body_hash_hex req), cap_action_receipt_id = receipt_id,
         cap_expires_at = expires_at, cap_used_at = None\<rparr>)) (\<lambda>_.
      pure_step (Ok \<lparr>es_capability = capability, es_expires_at = expires_at,
        es_action_receipt = av_receipt validated\<rparr>)))))))))))))))))))"

section \<open>The proxy\<close>

text \<open>\<open>new_id\<close> is the row id that the insert returns.\<close>

definition record_egress ::
  "any_env \<Rightarrow> nat \<Rightarrow> i64 \<Rightarrow> egress_row \<Rightarrow> (database, string, i64) step" where
  "record_egress conn k new_id row =
     and_do (map_err_step (\<lambda>e. ''insert agent_egress_log: '' @ e)
       (execute conn k (\<lambda>db. False) (\<lambda>db. db\<lparr>agent_egress_log := agent_egress_log db @ [row]\<rparr>))) (\<lambda>_.
     pure_step (Ok new_id))"

definition egress_entry :: "string \<Rightarrow> string \<Rightarrow> string \<Rightarrow> string \<Rightarrow> string \<Rightarrow> string \<Rightarrow> i64 \<Rightarrow> bool \<Rightarrow> i64 \<Rightarrow> egress_row" where
  "egress_entry tenant_id agent_id host path method body_hash status_code allowed now =
     \<lparr>eg_tenant_id = tenant_id, eg_agent_id = agent_id, eg_target_host = host, eg_target_path = path,
      eg_method = method, eg_body_hash_hex = body_hash, eg_status_code = status_code, eg_ts = now,
      eg_allowed = (if allowed then 1 else 0)\<rparr>"

text \<open>A denial: best effort log row and audit event, then 403 with a stable code.\<close>

definition deny ::
  "egress_env \<Rightarrow> string \<Rightarrow> string \<Rightarrow> string \<Rightarrow> string \<Rightarrow> string \<Rightarrow> i64 \<Rightarrow> msg \<Rightarrow>
   (audit_sinks \<times> database, app_error, 'a) step" where
  "deny X tenant_id agent_id host path method now reason s =
     (let G = ee_gate X; conn = ee_conn X 3
      in if lock_fault conn \<noteq> None then (Err Panicked, s)
         else
           (Err (Detailed 403 ''egress_denied'' reason),
            record_event (ge_audit G) (ge_env G) (ge_rivals G) (ge_audit_id G) now
              (EgressDenied tenant_id agent_id host method path reason)
              (fst s, snd (record_egress conn 0 0 (egress_entry tenant_id agent_id host path method [] 0 False now) (snd s)))))"

definition content_type_of :: "(string \<times> string) list \<Rightarrow> string" where
  "content_type_of headers =
     (case find (\<lambda>(k, _). eq_ignore_ascii_case (trim k) ''content-type'') headers of
        Some (_, v) \<Rightarrow> v
      | None \<Rightarrow> ''application/octet-stream'')"

definition proxy_action ::
  "egress_env \<Rightarrow> string \<Rightarrow> string \<Rightarrow> string \<Rightarrow> i64 \<Rightarrow> egress_proxy_request \<Rightarrow> action" where
  "proxy_action X agent_id host method now req =
     (let declared_body = (case ep_body req of Some b \<Rightarrow> b | None \<Rightarrow> []);
          pii_classes = snd (redact_pii (ee_tools X) declared_body)
      in action_default\<lparr>action_id := ''egress-'' @ sha256_hex (tt_crypto (ee_token X)) (agent_id @ int_to_string now @ ep_url req),
           tool := ''egress'', amount_usd := None, timestamp := now,
           metadata := [''target_domain'' \<mapsto> JStr host, ''method'' \<mapsto> JStr method,
             ''payload_bytes'' \<mapsto> JNum (PosInt (of_nat (length declared_body))),
             ''pii_detected'' \<mapsto> JBool (pii_classes \<noteq> []),
             ''content_type'' \<mapsto> JStr (content_type_of (ep_headers req))]\<rparr>)"

text \<open>The conditional write that consumes a capability.\<close>

definition usable_capability ::
  "string \<Rightarrow> string \<Rightarrow> string \<Rightarrow> string \<Rightarrow> string \<Rightarrow> string \<Rightarrow> i64 \<Rightarrow> capability_row \<Rightarrow> bool" where
  "usable_capability token_hash tenant_id agent_id method request_url body_hash now r \<longleftrightarrow>
     cap_token_hash_hex r = token_hash \<and> cap_tenant_id r = tenant_id \<and> cap_agent_id r = agent_id \<and>
     cap_method r = method \<and> cap_url r = request_url \<and> cap_body_hash_hex r = body_hash \<and>
     cap_used_at r = None \<and> now \<le> cap_expires_at r"

definition mark_capabilities :: "(capability_row \<Rightarrow> bool) \<Rightarrow> i64 \<Rightarrow> database \<Rightarrow> database" where
  "mark_capabilities P now db =
     db\<lparr>agent_egress_capabilities :=
       map (\<lambda>r. if P r then r\<lparr>cap_used_at := Some now\<rparr> else r) (agent_egress_capabilities db)\<rparr>"

definition consume_capability :: "any_env \<Rightarrow> (capability_row \<Rightarrow> bool) \<Rightarrow> i64 \<Rightarrow> (database, app_error, unit) step" where
  "consume_capability conn P now =
     locked conn (\<lambda>db.
       case run_stmt conn 0 False () of
         Inl e \<Rightarrow> (fail 500 (Msg e), db)
       | Inr _ \<Rightarrow>
           (require (length (filter P (agent_egress_capabilities db)) = 1) 401
              (Msg ''egress capability is invalid, expired, already used, or not bound to this exact request''),
            mark_capabilities P now db))"

text \<open>
  The header loop: \<open>Inl k\<close> is the name of the first header that the target policy does not allow.
\<close>

fun forward_headers ::
  "bool \<Rightarrow> string list \<Rightarrow> string option \<Rightarrow> (string \<times> string) list \<Rightarrow> (string, (string \<times> string) list) result" where
  "forward_headers strict allowed injected [] = Ok []"
| "forward_headers strict allowed injected ((k, v) # hs) =
     (let name = to_ascii_lowercase (trim k)
      in if header_forbidden k then forward_headers strict allowed injected hs
         else if strict \<and> name \<notin> set allowed then Err (trim k)
         else and_then (forward_headers strict allowed injected hs) (\<lambda>rest.
           Ok (if injected = Some name then rest else (k, v) # rest)))"

fun read_chunks :: "nat \<Rightarrow> string \<Rightarrow> (string, string) result list \<Rightarrow> (app_error, string) result" where
  "read_chunks cap buf [] = Ok buf"
| "read_chunks cap buf (Inl e # cs) = fail 502 (Fmt ''read response failed: {e}'' [AStr e])"
| "read_chunks cap buf (Inr c # cs) =
     (if cap < length buf + length c
      then fail 413 (Fmt ''upstream response exceeds SAURON_EGRESS_MAX_RESP_BYTES ({cap})'' [AInt (int cap)])
      else read_chunks cap (buf @ c) cs)"

definition read_reply :: "nat \<Rightarrow> http_reply \<Rightarrow> (app_error, string) result" where
  "read_reply cap reply =
     and_then (case hr_content_length reply of
                 Some len \<Rightarrow>
                   if cap < len
                   then fail 413 (Fmt ''upstream response {len} bytes exceeds SAURON_EGRESS_MAX_RESP_BYTES ({cap})''
                     [AInt (int len), AInt (int cap)])
                   else Ok ()
               | None \<Rightarrow> Ok ()) (\<lambda>_.
     read_chunks cap [] (hr_chunks reply))"

text \<open>
  \<open>String::from_utf8_lossy\<close>: a maximal ill-formed sequence becomes the replacement character.
\<close>

definition replacement :: string where
  "replacement = [CHR 0xEF, CHR 0xBF, CHR 0xBD]"

fun utf8_lossy_from :: "(char \<Rightarrow> bool) list \<Rightarrow> string \<Rightarrow> string \<Rightarrow> string" where
  "utf8_lossy_from [] acc [] = acc"
| "utf8_lossy_from (p # ps) acc [] = replacement"
| "utf8_lossy_from [] acc (c # s) =
     acc @ (case utf8_tail c of
              Some ps \<Rightarrow> utf8_lossy_from ps [c] s
            | None \<Rightarrow> replacement @ utf8_lossy_from [] [] s)"
| "utf8_lossy_from (p # ps) acc (c # s) =
     (if p c then utf8_lossy_from ps (acc @ [c]) s
      else replacement @
        (case utf8_tail c of
           Some qs \<Rightarrow> utf8_lossy_from qs [c] s
         | None \<Rightarrow> replacement @ utf8_lossy_from [] [] s))"

definition from_utf8_lossy :: "string \<Rightarrow> string" where
  "from_utf8_lossy s = utf8_lossy_from [] [] s"

text \<open>Sending: the request becomes part of the state.\<close>

definition send_out :: "network \<Rightarrow> outbound \<Rightarrow> (gateway, app_error, http_reply) step" where
  "send_out N out s =
     (map_err (\<lambda>e. app_error_from 502 (Fmt ''forward failed: {e}'' [AStr e])) (nw_send N out), out # fst s, snd s)"

text \<open>\<open>let _ = \<dots>\<close>.\<close>

definition ignore_result :: "('s, 'e, 'a) step \<Rightarrow> ('s, 'd, unit) step" where
  "ignore_result m s = (Ok (), snd (m s))"

text \<open>The exchange with the target, after the capability is consumed.\<close>

definition proxy_exchange ::
  "egress_env \<Rightarrow> network \<Rightarrow> string \<Rightarrow> string \<Rightarrow> string \<Rightarrow> string \<Rightarrow> string \<Rightarrow> i64 \<Rightarrow> egress_proxy_request \<Rightarrow>
   egress_match \<Rightarrow> (string \<times> string) option \<Rightarrow> string \<Rightarrow> string list \<Rightarrow> ip_addr \<times> u16 \<Rightarrow>
   (gateway, app_error, egress_proxy_response) step" where
  "proxy_exchange X N tenant_id agent_id host path method now req m injected fwd_body redacted pinned =
     (let env = ge_env (ee_gate X); D = tt_crypto (ee_token X)
      in
      and_do (pure_step (require (method_ok (ee_tools X) method) 400 (Msg ''bad HTTP method''))) (\<lambda>_.
      and_do (pure_step (map_err (\<lambda>e. app_error_from 500 (Msg e)) (nw_client N))) (\<lambda>_.
      case forward_headers (\<not> is_development_runtime env) (em_allowed_headers m)
             (map_option (\<lambda>hv. to_ascii_lowercase (fst hv)) injected) (ep_headers req) of
        Inl k \<Rightarrow> on_store (deny X tenant_id agent_id host path method now
          (Fmt (''request header '' @ single_quoted ''{}'' @ '' is not explicitly allowed by target policy'') [AStr k]))
      | Inr hs \<Rightarrow>
          and_do (send_out N \<lparr>out_addr = pinned, out_url = ep_url req, out_method = method,
            out_headers = hs @ (case injected of Some hv \<Rightarrow> [hv] | None \<Rightarrow> []),
            out_body = map_option (\<lambda>_. fwd_body) (ep_body req)\<rparr>) (\<lambda>reply.
          and_do (on_store (on_db (locked (ee_conn X 2) (ignore_result (record_egress (ee_conn X 2) 0 0
            (egress_entry tenant_id agent_id host path method (sha256_hex D fwd_body) (int (unat (hr_status reply))) True now)))))) (\<lambda>_.
          and_do (pure_step (read_reply (min (em_max_response_bytes m) (max_resp_bytes env)) reply)) (\<lambda>buf.
          pure_step (Ok \<lparr>eo_status = hr_status reply,
            eo_body = (if em_response_body_allowed m then from_utf8_lossy buf else []),
            eo_body_sha256_hex = sha256_hex D buf, eo_body_bytes = length buf, eo_redacted = redacted\<rparr>)))))))"

text \<open>Vetting of the target, the limits on the body, and the consumption of the capability.\<close>

definition proxy_vetted ::
  "egress_env \<Rightarrow> network \<Rightarrow> string \<Rightarrow> string \<Rightarrow> string \<Rightarrow> u16 \<Rightarrow> string \<Rightarrow> string \<Rightarrow> i64 \<Rightarrow> egress_proxy_request \<Rightarrow>
   egress_match \<Rightarrow> (string \<times> string) option \<Rightarrow> (gateway, app_error, egress_proxy_response) step" where
  "proxy_vetted X N tenant_id agent_id host port path method now req m injected =
     (let env = ge_env (ee_gate X); D = tt_crypto (ee_token X);
          original_body = (case ep_body req of Some b \<Rightarrow> b | None \<Rightarrow> []);
          (fwd_body, redacted) = (if redact_enabled env then redact_pii (ee_tools X) original_body else (original_body, []))
      in
      case resolve_and_vet (nw_lookup N host port) of
        Inl reason \<Rightarrow> on_store (deny X tenant_id agent_id host path method now reason)
      | Inr vetted \<Rightarrow>
          if \<not> em_request_body_allowed m \<and> original_body \<noteq> []
          then on_store (deny X tenant_id agent_id host path method now
                 (Msg ''egress policy forbids a request body for this target''))
          else
            and_do (pure_step (require (length original_body \<le> em_max_request_bytes m) 413
              (Fmt ''request body exceeds target policy max_request_bytes ({})'' [AInt (int (em_max_request_bytes m))]))) (\<lambda>_.
            and_do (on_store (on_db (consume_capability (ee_conn X 1)
              (usable_capability (sha256_hex D (trim (ep_capability req))) tenant_id agent_id method (ep_url req)
                 (sha256_hex D original_body) now) now))) (\<lambda>_.
            proxy_exchange X N tenant_id agent_id host path method now req m injected fwd_body redacted (hd vetted))))"

text \<open>The target of a request.\<close>

definition proxy_target :: "egress_env \<Rightarrow> request \<Rightarrow> egress_proxy_request \<Rightarrow> (app_error, url \<times> string \<times> u16) result" where
  "proxy_target X rq req =
     and_then (require (egress_gateway_enabled (ge_env (ee_gate X))) 503
       (Msg ''egress gateway disabled (set SAURON_EGRESS_GATEWAY=1)'')) (\<lambda>_.
     and_then (require (signed_agent rq \<noteq> []) 401 (Msg ''missing x-sauron-agent-id'')) (\<lambda>_.
     and_then (map_err (\<lambda>e. app_error_from 400 (Fmt ''bad url: {e}'' [AStr e])) (url_parse (ee_tools X) (ep_url req))) (\<lambda>u.
     and_then (require (url_scheme u \<in> {''http'', ''https''}) 400 (Msg ''only http/https targets allowed'')) (\<lambda>_.
     and_then (ok_or (url_host u) (app_error_from 400 (Msg ''url has no host''))) (\<lambda>host.
     and_then (ok_or (url_port_or_default u) (app_error_from 400 (Msg ''url has no port''))) (\<lambda>port.
     Ok (u, host, port)))))))"

text \<open>The credential that the matched entry names, resolved by the server.\<close>

definition proxy_credential :: "egress_env \<Rightarrow> egress_match \<Rightarrow> (app_error, (string \<times> string) option) result" where
  "proxy_credential X m =
     (case em_inject_credential m of
        None \<Rightarrow> Ok None
      | Some cred_name \<Rightarrow>
          (case egress_credential (tt_web (ee_token X)) (ge_env (ee_gate X)) cred_name of
             Some hv \<Rightarrow> Ok (Some hv)
           | None \<Rightarrow> fail 500 (Fmt (''egress allowlist references credential '' @ single_quoted ''{cred_name}'' @
               '' but it is not configured (SAURON_EGRESS_CREDENTIALS)'') [AStr cred_name])))"

text \<open>A request that the allowlist grants: the credential, the bound policy, and the rest.\<close>

definition proxy_granted ::
  "egress_env \<Rightarrow> network \<Rightarrow> request \<Rightarrow> egress_proxy_request \<Rightarrow> url \<Rightarrow> string \<Rightarrow> u16 \<Rightarrow> egress_match \<Rightarrow>
   (gateway, app_error, egress_proxy_response) step" where
  "proxy_granted X N rq req u host port m =
     (let tenant_id = request_tenant rq; agent_id = signed_agent rq;
          method = uppercase (ee_tools X) (ep_method req); now = ee_clock X 0
      in
      and_do (pure_step (proxy_credential X m)) (\<lambda>injected.
      and_do (on_store (gate_action_on_bound_policy (ee_gate X) tenant_id agent_id
        (proxy_action X agent_id host method now req))) (\<lambda>_.
      proxy_vetted X N tenant_id agent_id host port (url_path u) method now req m injected)))"

definition agent_egress_proxy ::
  "egress_env \<Rightarrow> network \<Rightarrow> request \<Rightarrow> egress_proxy_request \<Rightarrow> (gateway, app_error, egress_proxy_response) step" where
  "agent_egress_proxy X N rq req =
     (let env = ge_env (ee_gate X); tenant_id = request_tenant rq; agent_id = signed_agent rq;
          method = uppercase (ee_tools X) (ep_method req); now = ee_clock X 0
      in
      and_do (pure_step (proxy_target X rq req)) (\<lambda>(u, host, port).
      let path = url_path u
      in
      if url_username u \<noteq> [] \<or> url_password u \<noteq> None
      then on_store (deny X tenant_id agent_id host path method now (Msg ''URL userinfo is not permitted''))
      else if url_query u \<noteq> None
      then on_store (deny X tenant_id agent_id host path method now
             (Msg ''query parameters are not permitted by the Phase 1 egress policy''))
      else
        and_do (on_store (on_db (locked (ee_conn X 0) (read_step
          (agent_intent (tt_web (ee_token X)) (ee_conn X 0) 0 tenant_id agent_id))))) (\<lambda>intent.
        case egress_matched env intent host method path (\<not> is_development_runtime env) of
          None \<Rightarrow> on_store (deny X tenant_id agent_id host path method now
            (Fmt (''egress {method_str} {host}{path} not permitted by the agent'' @ [CHR 0x27] @ ''s egress_allowlist'')
               [AStr method, AStr host, AStr path]))
        | Some m \<Rightarrow> proxy_granted X N rq req u host port m)))"

section \<open>The voluntary report\<close>

record agent_egress_log_body =
  el_agent_id :: string
  el_target_host :: string
  el_target_path :: string
  el_method :: string
  el_body_hash_hex :: string
  el_status_code :: i64

definition agent_egress_log_handler ::
  "env \<Rightarrow> any_env \<Rightarrow> i64 \<Rightarrow> i64 \<Rightarrow> request \<Rightarrow> agent_egress_log_body \<Rightarrow> (database, app_error, i64 \<times> i64) step" where
  "agent_egress_log_handler env conn new_id now rq body =
     and_do (pure_step (require (require_or_default env ''SAURON_ENABLE_VOLUNTARY_EGRESS_LOG'' True False) 503
       (Msg ''voluntary egress telemetry is disabled in production; use the one-use capability gateway''))) (\<lambda>_.
     and_do (pure_step (require (el_agent_id body \<noteq> [] \<and> el_target_host body \<noteq> [] \<and> el_method body \<noteq> []) 400
       (Msg ''agent_id, target_host, method are required''))) (\<lambda>_.
     and_do (pure_step (require (signed_agent rq = el_agent_id body) 401
       (Msg ''egress log agent_id does not match signed caller''))) (\<lambda>_.
     and_do (pure_step (require (el_body_hash_hex body = [] \<or> is_hex64 (el_body_hash_hex body)) 400
       (Msg ''body_hash_hex must be empty or 32-byte hex''))) (\<lambda>_.
     and_do (locked conn (map_err_step (\<lambda>e. app_error_from 500 (Msg e))
       (record_egress conn 0 new_id (egress_entry (request_tenant rq) (el_agent_id body) (el_target_host body)
         (el_target_path body) (el_method body) (el_body_hash_hex body) (el_status_code body) True now)))) (\<lambda>row_id.
     pure_step (Ok (row_id, now)))))))"

section \<open>What the handlers leave alone\<close>

text \<open>
  The components the handlers call do not touch the table of capabilities.  Rival writers of the audit
  chain are other processes; they do not either.
\<close>

abbreviation caps :: "database \<Rightarrow> capability_row list" where
  "caps \<equiv> agent_egress_capabilities"

definition rivals_spare :: "egress_env \<Rightarrow> bool" where
  "rivals_spare X \<longleftrightarrow> (\<forall>k db. caps (ge_rivals (ee_gate X) k db) = caps db)"

lemma append_attempts_caps:
  assumes "\<forall>k db. caps (rivals k db) = caps db"
  shows "caps (snd (append_attempts H key uq conn rivals rec j ks db)) = caps db"
  using assms
  by (induction ks arbitrary: db) (auto simp: Let_def audit_insert_def split: sum.splits)

lemma record_event_caps:
  assumes "\<forall>k db. caps (rivals k db) = caps db"
  shows "caps (snd (record_event H env rivals audit_id now event st)) = caps (snd st)"
proof -
  have "caps db' = caps (snd st)" if "append_attempts H key uq conn rivals rec j ks (snd st) = (r, db')"
    for key uq conn rec j ks r db'
    using append_attempts_caps [OF assms, of H key uq conn rec j ks "snd st"] that by simp
  then show ?thesis
    by (auto simp: record_event_def write_db_sink_def Let_def split: option.splits sum.splits prod.splits)
qed

lemma gate_caps:
  assumes "\<forall>k db. caps (ge_rivals G k db) = caps db" "gate_action_on_bound_policy G t a act st = (r, st')"
  shows "caps (snd st') = caps (snd st)"
  using assms(2)
  by (auto simp: gate_action_on_bound_policy_def Let_def record_event_caps [OF assms(1)] split: if_splits sum.splits bound_policy_outcome.splits)

lemma check_and_increment_caps:
  assumes "check_and_increment env conn b now m db = (r, db')"
  shows "caps db' = caps db"
proof -
  have "caps db1 = caps db" if "any_transaction conn 0 3 (counted_body conn k) db = (x, db1)" for k x db1
    using that
    by (cases rule: any_transaction_cases)
       (auto simp: counted_body_def and_then_eq_Ok_iff run_stmt_def upsert_counter_def split: option.splits)
  then show ?thesis
    using assms
    by (auto simp: check_and_increment_def Let_def delete_counters_before_def split: if_splits prod.splits sum.splits)
qed

lemma validate_agent_action_caps:
  assumes "validate_agent_action H G conn jwt hex now0 now pf opts db = (r, db')"
  shows "caps db' = caps db"
proof -
  have nonce: "caps db2 = caps db1" if "consume_action_nonce conn k replay now nonce row db1 = (x, db2)"
    for k replay now nonce row db1 x db2
    using that by (cases rule: consume_action_nonce_cases) simp_all
  from assms show ?thesis
  proof (cases rule: validate_agent_action_cases)
    case (refused x)
    then show ?thesis using nonce by blast
  next
    case (accepted v ring db1)
    have "caps db' = caps db1"
      using accepted(7)
      by (cases rule: issue_receipt_cases) (auto simp: store_receipt_def run_stmt_def split: option.splits)
    then show ?thesis using nonce [OF accepted(6)] by simp
  qed
qed

lemma record_egress_caps: "caps (snd (record_egress conn k new_id row db)) = caps db"
proof -
  obtain r db' where run: "record_egress conn k new_id row db = (r, db')" by fastforce
  then have "caps db' = caps db"
    unfolding record_egress_def
    by (cases rule: and_do_cases) (auto simp: map_err_step_def execute_def split: option.splits prod.splits if_splits)
  then show ?thesis by (simp add: run)
qed

lemma deny_cases:
  assumes "on_store (deny X t a h p m now reason) s = (r, s')" "rivals_spare X"
  shows "fst s' = fst s" "caps (snd (snd s')) = caps (snd (snd s))" "\<not> is_ok r"
  using assms
  by (auto simp: on_store_def deny_def Let_def rivals_spare_def record_event_caps record_egress_caps
      split: if_splits prod.splits)

section \<open>What the proxy sends\<close>

lemma forward_headers_Ok:
  "forward_headers strict allowed injected hs = Ok out \<Longrightarrow> kv \<in> set out \<Longrightarrow>
     kv \<in> set hs \<and> \<not> header_forbidden (fst kv) \<and> (strict \<longrightarrow> to_ascii_lowercase (trim (fst kv)) \<in> set allowed) \<and>
     injected \<noteq> Some (to_ascii_lowercase (trim (fst kv)))"
  by (induction hs arbitrary: out)
     (auto simp: Let_def and_then_eq_Ok_iff split: if_splits)

lemma on_store_simps:
  "on_store m (out, st) = (r, s') \<longleftrightarrow> (\<exists>st'. m st = (r, st') \<and> s' = (out, st'))"
  "on_db m' (a, db) = (r', st') \<longleftrightarrow> (\<exists>db'. m' db = (r', db') \<and> st' = (a, db'))"
  by (auto simp: on_store_def on_db_def split: prod.splits)

definition outbound_request ::
  "(string \<times> string) list \<Rightarrow> (string \<times> string) option \<Rightarrow> string \<Rightarrow> egress_proxy_request \<Rightarrow> string \<Rightarrow> ip_addr \<times> u16 \<Rightarrow> outbound" where
  "outbound_request hs injected method req fwd_body pinned =
     \<lparr>out_addr = pinned, out_url = ep_url req, out_method = method,
      out_headers = hs @ (case injected of Some hv \<Rightarrow> [hv] | None \<Rightarrow> []),
      out_body = map_option (\<lambda>_. fwd_body) (ep_body req)\<rparr>"

lemma exchange_tail:
  assumes "and_do (send_out N out) (\<lambda>reply.
      and_do (on_store (on_db (locked conn (ignore_result (record_egress conn 0 0 (row reply)))))) (\<lambda>_.
      and_do (pure_step (f reply)) (\<lambda>buf. pure_step (g reply buf)))) (sent, au, db) = (r, sent', au', db')"
  shows "caps db' = caps db \<and> sent' = out # sent"
proof -
  have tail: "s2 = s1" if "and_do (pure_step (f reply)) (\<lambda>buf. pure_step (g reply buf)) s1 = (r, s2)" for reply s1 s2
    using that by (cases rule: and_do_cases) auto
  have log: "caps db2 = caps db1" if "locked conn (ignore_result (record_egress conn 0 0 x)) db1 = (y, db2)" for x y db1 db2
    using that record_egress_caps [of conn 0 0 x db1] by (auto simp: locked_def ignore_result_def split: if_splits)
  from assms show ?thesis
  proof (cases rule: and_do_cases)
    case (stop e)
    then show ?thesis by (auto simp: send_out_def)
  next
    case (go reply s1)
    have s1: "s1 = (out # sent, au, db)" using go(1) by (auto simp: send_out_def)
    from go(2) [unfolded s1] show ?thesis
    proof (cases rule: and_do_cases)
      case (stop e)
      then show ?thesis by (simp add: on_store_simps) (metis log)
    next
      case (go u s2)
      obtain db2 where db2: "s2 = (out # sent, au, db2)" "locked conn (ignore_result (record_egress conn 0 0 (row reply))) db = (Ok u, db2)"
        using go(1) by (auto simp: on_store_simps)
      then show ?thesis using log [OF db2(2)] tail [OF go(2)] by simp
    qed
  qed
qed

lemma proxy_exchange_cases:
  assumes "proxy_exchange X N t a h p m now req em injected fwd red pinned (sent, au, db) = (r, sent', au', db')"
    and "rivals_spare X"
  obtains (quiet) "sent' = sent" "caps db' = caps db"
    | (sent) hs where "caps db' = caps db" "sent' = outbound_request hs injected m req fwd pinned # sent"
        "forward_headers (\<not> is_development_runtime (ge_env (ee_gate X))) (em_allowed_headers em)
           (map_option (\<lambda>hv. to_ascii_lowercase (fst hv)) injected) (ep_headers req) = Ok hs"
proof -
  let ?fwd = "forward_headers (\<not> is_development_runtime (ge_env (ee_gate X))) (em_allowed_headers em)
    (map_option (\<lambda>hv. to_ascii_lowercase (fst hv)) injected) (ep_headers req)"
  from assms(1) [unfolded proxy_exchange_def Let_def] show thesis
  proof (cases rule: and_do_cases)
    case (stop e)
    then show thesis using quiet by simp
  next
    case (go u s1)
    have s1: "s1 = (sent, au, db)" using go(1) by simp
    from go(2) [unfolded s1] show thesis
    proof (cases rule: and_do_cases)
      case (stop e)
      then show thesis using quiet by simp
    next
      case (go u' s2)
      have s2: "s2 = (sent, au, db)" using go(1) by simp
      show thesis
      proof (cases ?fwd)
        case (Inl k)
        with go(2) [unfolded s2] show thesis
          using quiet deny_cases [OF _ assms(2)] by (auto simp: on_store_simps) fastforce
      next
        case (Inr hs)
        have "caps db' = caps db \<and> sent' = outbound_request hs injected m req fwd pinned # sent"
          using go(2) [unfolded s2 Inr sum.case, folded outbound_request_def] by (rule exchange_tail)
        then show thesis using Inr sent by blast
      qed
    qed
  qed
qed

definition proxy_capability :: "egress_env \<Rightarrow> request \<Rightarrow> egress_proxy_request \<Rightarrow> capability_row \<Rightarrow> bool" where
  "proxy_capability X rq req =
     usable_capability (sha256_hex (tt_crypto (ee_token X)) (trim (ep_capability req))) (request_tenant rq) (signed_agent rq)
       (uppercase (ee_tools X) (ep_method req)) (ep_url req)
       (sha256_hex (tt_crypto (ee_token X)) (case ep_body req of Some b \<Rightarrow> b | None \<Rightarrow> [])) (ee_clock X 0)"

lemma consume_capability_cases:
  assumes "consume_capability conn P now db = (r, db')"
  obtains (failed) e where "r = Err e" "db' = db \<or> db' = mark_capabilities P now db"
    | (consumed) row where "r = Ok ()" "filter P (caps db) = [row]" "db' = mark_capabilities P now db"
proof -
  obtain m where m: "run_stmt conn 0 False () = m" by blast
  consider (locked) y where "lock_fault conn = Some y" | (fault) e where "lock_fault conn = None" "m = Err e"
    | (one) row where "lock_fault conn = None" "m = Ok ()" "filter P (caps db) = [row]"
    | (other) "lock_fault conn = None" "m = Ok ()" "length (filter P (caps db)) \<noteq> 1"
    by (cases "lock_fault conn"; cases m) (auto simp: length_Suc_conv)
  then show thesis
  proof cases
    case (locked y)
    then have "r = Err Panicked" "db' = db" using assms by (simp_all add: consume_capability_def locked_def)
    then show thesis by (intro failed) simp_all
  next
    case (fault e)
    then have "r = fail 500 (Msg e)" "db' = db" using assms by (simp_all add: consume_capability_def locked_def m)
    then show thesis by (intro failed) simp_all
  next
    case (one row)
    then have "r = Ok ()" "db' = mark_capabilities P now db" using assms by (simp_all add: consume_capability_def locked_def m)
    then show thesis using one(3) by (intro consumed)
  next
    case other
    then have "\<not> is_ok r" "db' = mark_capabilities P now db"
      using assms by (auto simp: consume_capability_def locked_def m require_def)
    then show thesis using failed by (cases r) auto
  qed
qed

lemma proxy_vetted_cases:
  assumes run: "proxy_vetted X N (request_tenant rq) (signed_agent rq) h port p (uppercase (ee_tools X) (ep_method req))
      (ee_clock X 0) req em injected (sent, au, db) = (r, sent', au', db')"
    and spare: "rivals_spare X"
  obtains (quiet) "sent' = sent" "caps db' = caps db \<or> caps db' = caps (mark_capabilities (proxy_capability X rq req) (ee_clock X 0) db)"
    | (sent) addrs row hs fwd where "nw_lookup N h port = Ok addrs" "addrs \<noteq> []" "\<forall>a \<in> set addrs. \<not> is_blocked_ip (fst a)"
        "filter (proxy_capability X rq req) (caps db) = [row]"
        "caps db' = caps (mark_capabilities (proxy_capability X rq req) (ee_clock X 0) db)"
        "sent' = outbound_request hs injected (uppercase (ee_tools X) (ep_method req)) req fwd (hd addrs) # sent"
        "forward_headers (\<not> is_development_runtime (ge_env (ee_gate X))) (em_allowed_headers em)
           (map_option (\<lambda>hv. to_ascii_lowercase (fst hv)) injected) (ep_headers req) = Ok hs"
        "length (case ep_body req of Some b \<Rightarrow> b | None \<Rightarrow> []) \<le> em_max_request_bytes em"
proof -
  let ?body = "case ep_body req of Some b \<Rightarrow> b | None \<Rightarrow> []"
  obtain fwd red where fr: "(if redact_enabled (ge_env (ee_gate X)) then redact_pii (ee_tools X) ?body else (?body, [])) = (fwd, red)"
    by fastforce
  note run' = run [unfolded proxy_vetted_def Let_def fr prod.case]
  show thesis
  proof (cases "resolve_and_vet (nw_lookup N h port)")
    case (Inl reason)
    then have "on_store (deny X (request_tenant rq) (signed_agent rq) h p (uppercase (ee_tools X) (ep_method req)) (ee_clock X 0) reason)
        (sent, au, db) = (r, sent', au', db')" using run' by simp
    from deny_cases [OF this spare] show thesis by (intro quiet) simp_all
  next
    case (Inr vetted)
    then have vet: "nw_lookup N h port = Ok vetted" "vetted \<noteq> []" "\<forall>a \<in> set vetted. \<not> is_blocked_ip (fst a)"
      by (auto simp: resolve_and_vet_def and_then_eq_Ok_iff find_None_iff split: if_splits option.splits)
    show thesis
    proof (cases "\<not> em_request_body_allowed em \<and> ?body \<noteq> []")
      case True
      then have "on_store (deny X (request_tenant rq) (signed_agent rq) h p (uppercase (ee_tools X) (ep_method req)) (ee_clock X 0)
          (Msg ''egress policy forbids a request body for this target'')) (sent, au, db) = (r, sent', au', db')"
        using run' Inr by simp
      from deny_cases [OF this spare] show thesis by (intro quiet) simp_all
    next
      case False
      note run2 = run' [unfolded Inr sum.case if_not_P [OF False]]
      from run2 show thesis
      proof (cases rule: and_do_cases)
        case (stop e)
        then show thesis by (intro quiet) simp_all
      next
        case (go u s1)
        have s1: "s1 = (sent, au, db)" and len: "length ?body \<le> em_max_request_bytes em"
          using go(1) by (auto simp: require_def split: if_splits)
        from go(2) [unfolded s1, folded proxy_capability_def] show thesis
        proof (cases rule: and_do_cases)
          case (stop e)
          then obtain db1 where "sent' = sent" "consume_capability (ee_conn X 1) (proxy_capability X rq req) (ee_clock X 0) db = (Err e, db1)"
              "db' = db1" by (auto simp: on_store_simps)
          then show thesis
            by (intro quiet) (auto elim!: consume_capability_cases)
        next
          case (go u2 s2)
          then obtain db1 where s2: "s2 = (sent, au, db1)"
              and consume: "consume_capability (ee_conn X 1) (proxy_capability X rq req) (ee_clock X 0) db = (Ok u2, db1)"
            by (auto simp: on_store_simps)
          obtain row where row: "filter (proxy_capability X rq req) (caps db) = [row]"
              "db1 = mark_capabilities (proxy_capability X rq req) (ee_clock X 0) db"
            using consume by (cases rule: consume_capability_cases) auto
          from go(2) [unfolded s2] spare show thesis
          proof (cases rule: proxy_exchange_cases)
            case quiet
            then show thesis using row that(1) by simp
          next
            case (sent hs)
            then show thesis using row vet len that(2) by simp
          qed
        qed
      qed
    qed
  qed
qed

abbreviation mark_row :: "(capability_row \<Rightarrow> bool) \<Rightarrow> i64 \<Rightarrow> capability_row \<Rightarrow> capability_row" where
  "mark_row P now r \<equiv> (if P r then r\<lparr>cap_used_at := Some now\<rparr> else r)"

lemma caps_mark: "caps (mark_capabilities P now db) = map (mark_row P now) (caps db)"
  by (simp add: mark_capabilities_def)

text \<open>What holds of a request that was sent, from the credential on.\<close>

definition sent_checked ::
  "egress_env \<Rightarrow> network \<Rightarrow> request \<Rightarrow> egress_proxy_request \<Rightarrow> string \<Rightarrow> u16 \<Rightarrow> egress_match \<Rightarrow>
   audit_sinks \<times> database \<Rightarrow> outbound \<Rightarrow> bool" where
  "sent_checked X N rq req host port m st out \<longleftrightarrow>
     (let method = uppercase (ee_tools X) (ep_method req); prod = \<not> is_development_runtime (ge_env (ee_gate X)) in
     \<exists>addrs row injected hs.
      nw_lookup N host port = Ok addrs \<and> addrs \<noteq> [] \<and> (\<forall>a \<in> set addrs. \<not> is_blocked_ip (fst a)) \<and> out_addr out = hd addrs \<and>
      out_url out = ep_url req \<and> out_method out = method \<and>
      proxy_credential X m = Ok injected \<and> out_headers out = hs @ (case injected of Some hv \<Rightarrow> [hv] | None \<Rightarrow> []) \<and>
      (\<forall>kv \<in> set hs. kv \<in> set (ep_headers req) \<and> \<not> header_forbidden (fst kv) \<and>
         (prod \<longrightarrow> to_ascii_lowercase (trim (fst kv)) \<in> set (em_allowed_headers m))) \<and>
      length (case ep_body req of Some b \<Rightarrow> b | None \<Rightarrow> []) \<le> em_max_request_bytes m \<and>
      fst (gate_action_on_bound_policy (ee_gate X) (request_tenant rq) (signed_agent rq)
        (proxy_action X (signed_agent rq) host method (ee_clock X 0) req) st) = Ok () \<and>
      filter (proxy_capability X rq req) (caps (snd st)) = [row])"

lemma proxy_granted_cases:
  assumes run: "proxy_granted X N rq req u host port m (sent, au, db) = (r, sent', au', db')" and spare: "rivals_spare X"
  obtains (quiet) "sent' = sent" "caps db' = caps db \<or> caps db' = map (mark_row (proxy_capability X rq req) (ee_clock X 0)) (caps db)"
    | (sent) out where "sent' = out # sent" "sent_checked X N rq req host port m (au, db) out"
        "caps db' = map (mark_row (proxy_capability X rq req) (ee_clock X 0)) (caps db)"
proof -
  let ?gate = "gate_action_on_bound_policy (ee_gate X) (request_tenant rq) (signed_agent rq)
    (proxy_action X (signed_agent rq) host (uppercase (ee_tools X) (ep_method req)) (ee_clock X 0) req)"
  have gate: "caps (snd st') = caps db" if "?gate (au, db) = (x, st')" for x st'
    using gate_caps [OF _ that] spare by (simp add: rivals_spare_def)
  from run [unfolded proxy_granted_def Let_def] show thesis
  proof (cases rule: and_do_cases)
    case (stop e)
    then show thesis by (intro quiet) simp_all
  next
    case (go injected s1)
    then have s1: "s1 = (sent, au, db)" and cred: "proxy_credential X m = Ok injected" by simp_all
    from go(2) [unfolded s1] show thesis
    proof (cases rule: and_do_cases)
      case (stop e)
      then obtain st' where "?gate (au, db) = (Err e, st')" "(sent', au', db') = (sent, st')" by (auto simp: on_store_simps)
      then show thesis using gate by (intro quiet) auto
    next
      case (go u2 s2)
      then obtain au1 db1 where s2: "s2 = (sent, au1, db1)" and ok: "?gate (au, db) = (Ok u2, au1, db1)"
        by (auto simp: on_store_simps)
      have same: "caps db1 = caps db" using gate [OF ok] by simp
      from go(2) [unfolded s2] spare show thesis
      proof (cases rule: proxy_vetted_cases)
        case quiet
        then show thesis using that(1) by (simp add: caps_mark same)
      next
        case (sent addrs row hs fwd)
        then have "sent_checked X N rq req host port m (au, db)
            (outbound_request hs injected (uppercase (ee_tools X) (ep_method req)) req fwd (hd addrs))"
          using cred ok forward_headers_Ok [OF sent(7)] same
          by (auto simp: sent_checked_def Let_def outbound_request_def)
        then show thesis using sent that(2) by (simp add: caps_mark same)
      qed
    qed
  qed
qed

lemma agent_egress_proxy_cases:
  assumes run: "agent_egress_proxy X N rq req (sent, au, db) = (r, sent', au', db')" and spare: "rivals_spare X"
  obtains (quiet) "sent' = sent" "caps db' = caps db \<or> caps db' = map (mark_row (proxy_capability X rq req) (ee_clock X 0)) (caps db)"
    | (sent) u host port intent m out where
        "proxy_target X rq req = Ok (u, host, port)" "url_username u = []" "url_password u = None" "url_query u = None"
        "agent_intent (tt_web (ee_token X)) (ee_conn X 0) 0 (request_tenant rq) (signed_agent rq) db = Ok intent"
        "egress_matched (ge_env (ee_gate X)) intent host (uppercase (ee_tools X) (ep_method req)) (url_path u)
           (\<not> is_development_runtime (ge_env (ee_gate X))) = Some m"
        "sent' = out # sent" "sent_checked X N rq req host port m (au, db) out"
        "caps db' = map (mark_row (proxy_capability X rq req) (ee_clock X 0)) (caps db)"
proof -
  from run [unfolded agent_egress_proxy_def Let_def] show thesis
  proof (cases rule: and_do_cases)
    case (stop e)
    then show thesis by (intro quiet) simp_all
  next
    case (go x s1)
    obtain u host port where x: "x = (u, host, port)" by (cases x) auto
    have s1: "s1 = (sent, au, db)" and target: "proxy_target X rq req = Ok (u, host, port)" using go(1) x by simp_all
    note rest = go(2) [unfolded s1 x prod.case]
    show thesis
    proof (cases "url_username u = [] \<and> url_password u = None \<and> url_query u = None")
      case False
      with rest show thesis
        using deny_cases [OF _ spare, of _ _ _ _ _ _ _ "(sent, au, db)" r "(sent', au', db')"]
        by (intro quiet) (auto split: if_splits)
    next
      case True
      then have "\<not> (url_username u \<noteq> [] \<or> url_password u \<noteq> None)" "\<not> url_query u \<noteq> None" by simp_all
      from rest [unfolded if_not_P [OF this(1)] if_not_P [OF this(2)]] show thesis
      proof (cases rule: and_do_cases)
        case (stop e)
        then show thesis by (intro quiet) (auto simp: on_store_simps locked_def split: if_splits)
      next
        case (go intent s2)
        then have s2: "s2 = (sent, au, db)"
            and intent: "agent_intent (tt_web (ee_token X)) (ee_conn X 0) 0 (request_tenant rq) (signed_agent rq) db = Ok intent"
          using go(1) by (auto simp: on_store_simps locked_def split: if_splits)
        show thesis
        proof (cases "egress_matched (ge_env (ee_gate X)) intent host (uppercase (ee_tools X) (ep_method req)) (url_path u)
            (\<not> is_development_runtime (ge_env (ee_gate X)))")
          case None
          with go(2) [unfolded s2] show thesis
            using deny_cases [OF _ spare, of _ _ _ _ _ _ _ "(sent, au, db)" r "(sent', au', db')"] by (intro quiet) auto
        next
          case (Some m)
          with go(2) [unfolded s2] have "proxy_granted X N rq req u host port m (sent, au, db) = (r, sent', au', db')" by simp
          then show thesis
            using spare by (cases rule: proxy_granted_cases) (use that target True intent Some in auto)
        qed
      qed
    qed
  qed
qed

lemma marked_unusable: "r \<in> set (map (mark_row (proxy_capability X rq req) now) cs) \<Longrightarrow> \<not> proxy_capability X rq req r"
  by (auto simp: proxy_capability_def usable_capability_def)

lemma agent_intent_OkD:
  assumes "agent_intent W conn k t a db = Ok intent"
  shows "\<exists>ag \<in> set (agents db). ag_agent_id ag = a \<and> ag_tenant_id ag = t \<and> ag_revoked ag = 0 \<and>
    intent = (case json_parse W (ag_intent_json ag) of Some v \<Rightarrow> v | None \<Rightarrow> JNull)"
  using assms
  by (auto simp: agent_intent_def and_then_eq_Ok_iff require_row_def scalar_or_def ok_or_def find_Some_iff
      split: if_splits option.splits)

lemma proxy_target_OkD:
  assumes "proxy_target X rq req = Ok (u, host, port)"
  shows "egress_gateway_enabled (ge_env (ee_gate X))" "signed_agent rq \<noteq> []" "url_parse (ee_tools X) (ep_url req) = Ok u"
    "url_scheme u \<in> {''http'', ''https''}" "url_host u = Some host" "url_port_or_default u = Some port"
  using assms
  by (auto simp: proxy_target_def and_then_eq_Ok_iff require_def ok_or_def split: if_splits option.splits)


section \<open>A capability is used once\<close>

datatype ('s, 'p) egress_event =
    Proxy egress_env network request egress_proxy_request
  | Issue egress_env string string request "('s, 'p) egress_capability_request"

text \<open>A capability is known to the server by its hash.\<close>

fun capability_key :: "('s, 'p) egress_event \<Rightarrow> string option" where
  "capability_key (Proxy X N rq req) = Some (sha256_hex (tt_crypto (ee_token X)) (trim (ep_capability req)))"
| "capability_key (Issue X hex capability rq req) = None"

text \<open>A call of the proxy is accepted when it sends a request; the state keeps the hashes used so.\<close>

fun present_capability ::
  "('s, 'p, 'z) curve_scheme \<Rightarrow> ('s, 'p) egress_event \<Rightarrow> gateway \<times> string list \<Rightarrow> bool \<times> gateway \<times> string list" where
  "present_capability G (Proxy X N rq req) (s, used) =
     (case agent_egress_proxy X N rq req s of
        (r, s') \<Rightarrow> (fst s' \<noteq> fst s, s', (if fst s' \<noteq> fst s then [sha256_hex (tt_crypto (ee_token X)) (trim (ep_capability req))] else []) @ used))"
| "present_capability G (Issue X hex capability rq req) (s, used) =
     (False, snd (on_store (issue_egress_capability X G hex capability rq req) s), used)"

definition open_capability :: "database \<Rightarrow> string \<Rightarrow> bool" where
  "open_capability db k \<longleftrightarrow> (\<exists>r \<in> set (caps db). cap_token_hash_hex r = k \<and> cap_used_at r = None)"

definition capability_spent :: "gateway \<times> string list \<Rightarrow> string option \<Rightarrow> bool" where
  "capability_spent s k \<longleftrightarrow>
     (case k of None \<Rightarrow> False | Some k \<Rightarrow> k \<in> set (snd s) \<and> \<not> open_capability (snd (snd (fst s))) k)"

text \<open>
  The table has its primary key, other processes leave it alone, and the random bearer value of a new capability does
  not have the hash of one that was used.
\<close>

fun capability_timely :: "gateway \<times> string list \<Rightarrow> ('s, 'p) egress_event \<Rightarrow> bool" where
  "capability_timely (s, used) (Proxy X N rq req) \<longleftrightarrow>
     rivals_spare X \<and> distinct (map cap_token_hash_hex (caps (snd (snd s))))"
| "capability_timely (s, used) (Issue X hex capability rq req) \<longleftrightarrow>
     rivals_spare X \<and> sha256_hex (tt_crypto (ee_token X)) capability \<notin> set used"

lemma open_after_mark: "caps db' = map (mark_row P now) (caps db) \<Longrightarrow> open_capability db' k \<Longrightarrow> open_capability db k"
  by (auto simp: open_capability_def split: if_splits)

lemma spent_after_mark:
  assumes "distinct (map cap_token_hash_hex (caps db))" "filter P (caps db) = [row]" "cap_token_hash_hex row = k"
    and "caps db' = map (mark_row P now) (caps db)"
  shows "\<not> open_capability db' k"
proof -
  have "row \<in> set (filter P (caps db))" by (simp only: assms(2)) simp
  then have row: "row \<in> set (caps db)" "P row" by simp_all
  have "r = row" if "r \<in> set (caps db)" "cap_token_hash_hex r = k" for r
    using that row assms(1,3) by (auto simp: distinct_map inj_on_def)
  then show ?thesis
    using assms(4) row(2) by (auto simp: open_capability_def split: if_splits)
qed

lemma present_proxy_cases:
  assumes "present_capability G (Proxy X N rq req) ((sent, au, db), used) = (ok, (sent', au', db'), used')" "rivals_spare X"
  defines "k \<equiv> sha256_hex (tt_crypto (ee_token X)) (trim (ep_capability req))"
  obtains (refused) "\<not> ok" "used' = used" "\<And>k. open_capability db' k \<Longrightarrow> open_capability db k"
    | (accepted) row where "ok" "used' = k # used" "filter (proxy_capability X rq req) (caps db) = [row]"
        "cap_token_hash_hex row = k" "cap_used_at row = None"
        "caps db' = map (mark_row (proxy_capability X rq req) (ee_clock X 0)) (caps db)"
proof -
  obtain r where r: "agent_egress_proxy X N rq req (sent, au, db) = (r, sent', au', db')" "ok = (sent' \<noteq> sent)"
      "used' = (if sent' \<noteq> sent then [k] else []) @ used"
    using assms(1) by (auto simp: k_def split: prod.splits)
  from r(1) assms(2) show thesis
  proof (cases rule: agent_egress_proxy_cases)
    case quiet
    then show thesis
      using r(2,3) open_after_mark [of db' "proxy_capability X rq req" "ee_clock X 0" db]
      by (intro refused) (auto simp: open_capability_def)
  next
    case (sent u host port intent m out)
    then obtain row where row: "filter (proxy_capability X rq req) (caps db) = [row]"
      by (auto simp: sent_checked_def Let_def)
    have "row \<in> set (filter (proxy_capability X rq req) (caps db))" by (simp only: row) simp
    then have "proxy_capability X rq req row" by simp
    then show thesis
      using r(2,3) sent row by (intro accepted [of row]) (auto simp: k_def proxy_capability_def usable_capability_def)
  qed
qed

text \<open>A step that relates the states before and after it, whatever its result.\<close>

definition steps_in :: "('s \<Rightarrow> 's \<Rightarrow> bool) \<Rightarrow> ('s, 'e, 'a) step \<Rightarrow> bool" where
  "steps_in R m \<longleftrightarrow> (\<forall>s r s'. m s = (r, s') \<longrightarrow> R s s')"

lemma steps_in_and_do:
  assumes "transp R" "steps_in R m" "\<And>x. steps_in R (f x)"
  shows "steps_in R (and_do m f)"
  unfolding steps_in_def
proof (intro allI impI)
  fix s r s' assume "and_do m f s = (r, s')"
  then show "R s s'"
  proof (cases rule: and_do_cases)
    case (stop e)
    then show ?thesis using assms(2) by (auto simp: steps_in_def)
  next
    case (go x s1)
    then have "R s s1" "R s1 s'" using assms(2,3) unfolding steps_in_def by blast+
    then show ?thesis using assms(1) by (blast dest: transpD)
  qed
qed

lemma steps_in_pure: "reflp R \<Longrightarrow> steps_in R (pure_step x)"
  by (simp add: steps_in_def reflp_def)

definition opens_only :: "string \<Rightarrow> audit_sinks \<times> database \<Rightarrow> audit_sinks \<times> database \<Rightarrow> bool" where
  "opens_only h s s' \<longleftrightarrow> (\<forall>k. open_capability (snd s') k \<longrightarrow> open_capability (snd s) k \<or> k = h)"

lemma opens_only_preorder: "transp (opens_only h)" "reflp (opens_only h)"
  by (auto simp: opens_only_def transp_def reflp_def)

lemma steps_in_opens_only:
  "(\<And>db r db'. m db = (r, db') \<Longrightarrow> caps db' = caps db) \<Longrightarrow> steps_in (opens_only h) (on_db m)"
  by (auto simp: steps_in_def opens_only_def on_db_def open_capability_def split: prod.splits)

lemma store_capability_opens:
  assumes "store_capability conn now row db = (r, db')" "open_capability db' k"
  shows "open_capability db k \<or> k = cap_token_hash_hex row"
proof -
  have del: "open_capability (delete_capabilities now db) k \<Longrightarrow> open_capability db k" for db
    by (auto simp: open_capability_def delete_capabilities_def)
  have ins: "open_capability (insert_capability row db) k \<Longrightarrow> open_capability db k \<or> k = cap_token_hash_hex row" for db
    by (auto simp: open_capability_def insert_capability_def)
  show ?thesis
  proof (cases "lock_fault conn")
    case None
    obtain r1 where "and_do (execute conn 0 (\<lambda>db. False) (delete_capabilities now)) (\<lambda>_.
        execute conn 1 (\<lambda>db. list_ex (\<lambda>r. cap_token_hash_hex r = cap_token_hash_hex row) (caps db))
          (insert_capability row)) db = (r1, db')"
      using assms(1) None by (auto simp: store_capability_def map_err_step_def split: prod.splits)
    then show ?thesis
      using assms(2) del [of db] ins [of "delete_capabilities now db"]
      by (cases rule: and_do_cases) (auto simp: execute_def split: option.splits if_splits)
  next
    case (Some e)
    then show ?thesis using assms by (simp add: store_capability_def locked_def)
  qed
qed

lemma issue_opens_only:
  assumes "rivals_spare X"
  shows "steps_in (opens_only (sha256_hex (tt_crypto (ee_token X)) capability)) (issue_egress_capability X G hex capability rq req)"
proof -
  let ?R = "opens_only (sha256_hex (tt_crypto (ee_token X)) capability)"
  note refl = steps_in_pure [OF opens_only_preorder(2)]
  have gate: "steps_in ?R (gate_action_on_bound_policy (ee_gate X) t a act)" for t a act
    using gate_caps assms by (auto simp: steps_in_def opens_only_def rivals_spare_def open_capability_def)
  have rate: "steps_in ?R (on_db (locked conn (map_err_step f (check_and_increment env conn b now m))))" for conn and f :: "string \<Rightarrow> app_error" and env b now m
    by (rule steps_in_opens_only)
       (auto simp: locked_def map_err_step_def dest: check_and_increment_caps split: if_splits prod.splits)
  have action: "steps_in ?R (on_db (validate_agent_action H G conn jwt hex now0 now pf opts))" for H conn jwt hex now0 now pf opts
    by (rule steps_in_opens_only) (rule validate_agent_action_caps)
  have store: "steps_in ?R (on_db (store_capability conn now row))"
    if "cap_token_hash_hex row = sha256_hex (tt_crypto (ee_token X)) capability" for conn now row
    using that by (auto simp: steps_in_def opens_only_def on_db_def split: prod.splits dest: store_capability_opens)
  show ?thesis
    unfolding issue_egress_capability_def Let_def
    by (intro steps_in_and_do [OF opens_only_preorder(1)] refl gate rate action store) simp
qed

interpretation capabilities: single_use capability_spent "present_capability G" capability_key capability_timely
  for G :: "('s, 'p, 'z) curve_scheme"
proof (unfold_locales, goal_cases)
  case (1 s e s')
  show ?case
  proof (cases e)
    case (Proxy X N rq req)
    obtain sent au db used where s: "s = ((sent, au, db), used)" by (metis surj_pair)
    obtain sent' au' db' used' where s': "s' = ((sent', au', db'), used')" by (metis surj_pair)
    have pre: "rivals_spare X" "distinct (map cap_token_hash_hex (caps db))" using 1(1) by (simp_all add: Proxy s)
    from 1(2) [unfolded Proxy s s'] pre(1) show ?thesis
    proof (cases rule: present_proxy_cases)
      case (accepted row)
      then show ?thesis
        using spent_after_mark [OF pre(2) accepted(3,4,6)] by (simp add: Proxy s' capability_spent_def)
    qed simp
  qed (use 1 in \<open>cases s; simp\<close>)
next
  case (2 s e)
  show ?case
  proof (cases e)
    case (Proxy X N rq req)
    obtain sent au db used where s: "s = ((sent, au, db), used)" by (metis surj_pair)
    obtain ok sent' au' db' used' where run: "present_capability G (Proxy X N rq req) ((sent, au, db), used) = (ok, (sent', au', db'), used')"
      by (metis surj_pair)
    have "rivals_spare X" using 2(1) by (simp add: Proxy s)
    with run show ?thesis
    proof (cases rule: present_proxy_cases)
      case refused
      then show ?thesis by (simp only: Proxy s run) simp
    next
      case (accepted row)
      have "row \<in> set (filter (proxy_capability X rq req) (caps db))" by (simp only: accepted) simp
      then have "open_capability db (cap_token_hash_hex row)" using accepted(5) by (auto simp: open_capability_def)
      then show ?thesis using 2(2) accepted(4) by (simp add: Proxy s capability_spent_def)
    qed
  qed (cases s; simp)
next
  case (3 s e k)
  obtain sent au db used where s: "s = ((sent, au, db), used)" by (metis surj_pair)
  obtain ok sent' au' db' used' where run: "present_capability G e ((sent, au, db), used) = (ok, (sent', au', db'), used')"
    by (metis surj_pair)
  obtain c where c: "k = Some c" "c \<in> set used" "\<not> open_capability db c"
    using 3(2) by (auto simp: s capability_spent_def split: option.splits)
  have "c \<in> set used' \<and> \<not> open_capability db' c"
  proof (cases e)
    case (Proxy X N rq req)
    have "rivals_spare X" using 3(1) by (simp add: Proxy s)
    with run [unfolded Proxy] show ?thesis
      by (cases rule: present_proxy_cases) (use c in \<open>auto dest: open_after_mark\<close>)
  next
    case (Issue X hex capability rq req)
    have pre: "rivals_spare X" "sha256_hex (tt_crypto (ee_token X)) capability \<notin> set used"
      using 3(1) by (simp_all add: Issue s)
    obtain r where "issue_egress_capability X G hex capability rq req (au, db) = (r, au', db')" "used' = used"
      using run by (auto simp: Issue on_store_def split: prod.splits)
    then show ?thesis
      using issue_opens_only [OF pre(1)] c pre(2) unfolding steps_in_def opens_only_def
      by (metis snd_conv)
  qed
  then show ?case
    by (simp add: s run c capability_spent_def)
qed

text \<open>
  C37. Over any sequence of capabilities issued and requests proxied, by whatever agents and tenants, with any faults, a capability
  lets at most one request through: the hashes of the capabilities of the calls that send a request are pairwise
  distinct.
\<close>

theorem egress_capability_used_once:
  assumes "timely_run capability_timely (present_capability G) es (s, used)"
  shows "distinct (map capability_key (accepted (present_capability G) es (s, used)))"
  using assms by (rule capabilities.accepted_once)

definition demo_url :: url where
  "demo_url = \<lparr>url_scheme = ''https'', url_username = [], url_password = None, url_host = Some ''api.example.com'',
     url_port_or_default = Some 443, url_path = ''/v1/orders'', url_query = None, url_fragment = None\<rparr>"

definition demo_egress_env :: egress_env where
  "demo_egress_env =
     \<lparr>ee_tools = demo_egress_tools\<lparr>url_parse := (\<lambda>s. Ok demo_url), uppercase := (\<lambda>s. s)\<rparr>,
      ee_token = demo_token_tools\<lparr>tt_web := (tt_web demo_token_tools)\<lparr>json_parse :=
        (\<lambda>s. Some (JObj [(''egress_allowlist'', JArr [JObj demo_entry])]))\<rparr>\<rparr>,
      ee_gate = (demo_gate healthy)\<lparr>ge_env := (\<lambda>v. if v = ''SAURON_POLICY_ENFORCEMENT_MODE'' then Some ''off'' else None)\<rparr>,
      ee_jwt_secret = ''k'', ee_conn = (\<lambda>_. healthy), ee_clock = (\<lambda>_. 10)\<rparr>"

definition demo_network :: network where
  "demo_network =
     \<lparr>nw_lookup = (\<lambda>h p. Ok [(V4 93 184 216 34, 443)]), nw_client = Ok (),
      nw_send = (\<lambda>out. Ok \<lparr>hr_status = 200, hr_content_length = None, hr_chunks = []\<rparr>)\<rparr>"

definition demo_egress_db :: database where
  "demo_egress_db = empty_database
     \<lparr>agents := [demo_agent\<lparr>ag_agent_id := ''agt'', ag_tenant_id := ''t'', ag_revoked := 0\<rparr>],
      agent_egress_capabilities := [\<lparr>cap_token_hash_hex = ''egc'', cap_tenant_id = ''t'', cap_agent_id = ''agt'',
        cap_method = ''POST'', cap_url = ''u'', cap_body_hash_hex = '''', cap_action_receipt_id = ''r'',
        cap_expires_at = 20, cap_used_at = None\<rparr>]\<rparr>"

definition demo_proxy_call :: request where
  "demo_proxy_call = \<lparr>rq_method = ''POST'', rq_path = ''/agent/egress/proxy'', rq_path_and_query = None,
     rq_headers = [(''x-sauron-agent-id'', ''agt'')], rq_body = [], rq_tenant = Some ''t''\<rparr>"

definition demo_proxy_request :: egress_proxy_request where
  "demo_proxy_request = \<lparr>ep_capability = ''egc'', ep_method = ''POST'', ep_url = ''u'', ep_headers = [], ep_body = None\<rparr>"

definition demo_match :: egress_match where
  "demo_match = \<lparr>em_inject_credential = None, em_request_body_allowed = True, em_response_body_allowed = True,
     em_max_request_bytes = 1000, em_max_response_bytes = 2000, em_allowed_headers = []\<rparr>"

lemma demo_matched:
  assumes "env ''SAURON_EGRESS_MAX_RESP_BYTES'' = None"
  shows "egress_matched env (JObj [(''egress_allowlist'', JArr [JObj demo_entry])]) ''api.example.com'' ''POST'' ''/v1/orders'' True =
    Some demo_match"
proof -
  have "host_matches demo_entry ''api.example.com''" "method_matches True demo_entry ''POST''"
      "path_matches True demo_entry ''/v1/orders''"
    by (simp_all add: host_matches_def method_matches_def path_matches_def str_field_def array_field_def demo_fields
        eq_ignore_ascii_case_def List.map_filter_simps under_prefix_def demo_prefix)
  then have "match_object env True demo_entry ''api.example.com'' ''POST'' ''/v1/orders'' = Some demo_match"
    using demo_entry_known assms
    by (auto simp: match_object_def str_field_def u64_field_def array_field_def body_flag_def filter_option_def max_resp_bytes_def
        listed_headers_def demo_fields demo_match_def List.map_filter_simps)
  then show ?thesis
    by (simp add: egress_matched_def match_entry_def)
qed

lemma demo_egress_runtime:
  "egress_gateway_enabled (ge_env (ee_gate demo_egress_env))" "\<not> is_development_runtime (ge_env (ee_gate demo_egress_env))"
  "\<not> redact_enabled (ge_env (ee_gate demo_egress_env))" "rivals_spare demo_egress_env"
  by (simp_all add: demo_egress_env_def demo_gate_def egress_gateway_enabled_def require_or_default_def env_truthy_def
      is_development_runtime_def runtime_environment_def to_ascii_lowercase_def char_lower_def is_ascii_upper_def byte_def
      redact_enabled_def env_on_def rivals_spare_def solo_def)

lemma demo_egress_gate: "gate_action_on_bound_policy (ee_gate demo_egress_env) t a act st = (Ok (), st)"
proof -
  have "policy_enforcement_mode_of (ge_env (ee_gate demo_egress_env)) = Off"
    by (simp add: policy_enforcement_mode_of_def demo_egress_env_def trim_graphic is_graphic_def byte_def
        to_ascii_lowercase_def char_lower_def is_ascii_upper_def)
  then show ?thesis
    by (simp add: gate_action_on_bound_policy_def)
qed

lemma demo_egress_parts:
  "request_tenant demo_proxy_call = ''t''" "signed_agent demo_proxy_call = ''agt''"
  "proxy_target demo_egress_env demo_proxy_call demo_proxy_request = Ok (demo_url, ''api.example.com'', 443)"
  "agent_intent (tt_web (ee_token demo_egress_env)) healthy 0 ''t'' ''agt'' demo_egress_db =
     Ok (JObj [(''egress_allowlist'', JArr [JObj demo_entry])])"
  "proxy_credential demo_egress_env demo_match = Ok None"
  "resolve_and_vet (nw_lookup demo_network h p) = Ok [(V4 93 184 216 34, 443)]"
proof -
  show agent_id: "signed_agent demo_proxy_call = ''agt''"
    by (simp add: signed_agent_def header_str_def demo_proxy_call_def to_str_ok_def byte_def)
  show "request_tenant demo_proxy_call = ''t''"
    by (simp add: request_tenant_def demo_proxy_call_def)
  have "url_parse (ee_tools demo_egress_env) u = Ok demo_url" for u
    by (simp add: demo_egress_env_def)
  then show "proxy_target demo_egress_env demo_proxy_call demo_proxy_request = Ok (demo_url, ''api.example.com'', 443)"
    by (simp add: proxy_target_def demo_egress_runtime agent_id demo_url_def ok_or_def)
  show "agent_intent (tt_web (ee_token demo_egress_env)) healthy 0 ''t'' ''agt'' demo_egress_db =
     Ok (JObj [(''egress_allowlist'', JArr [JObj demo_entry])])"
    by (simp add: agent_intent_def demo_egress_env_def demo_egress_db_def require_row_def scalar_or_def healthy_def ok_or_def)
  show "proxy_credential demo_egress_env demo_match = Ok None"
    by (simp add: proxy_credential_def demo_match_def)
  show "resolve_and_vet (nw_lookup demo_network h p) = Ok [(V4 93 184 216 34, 443)]"
    by (simp add: resolve_and_vet_def demo_network_def is_blocked_v4_def v4_is_loopback_def v4_is_private_def
        v4_is_link_local_def v4_is_documentation_def v4_is_multicast_def)
qed

lemma demo_egress_plain:
  "uppercase (ee_tools demo_egress_env) s = s" "ee_clock demo_egress_env k = 10" "ee_conn demo_egress_env k = healthy"
  "sha256_hex (tt_crypto (ee_token demo_egress_env)) s = s" "method_ok (ee_tools demo_egress_env) s"
  by (simp_all add: demo_egress_env_def sha256_hex_def demo_token_tools_def demo_egress_tools_def)

lemma demo_matched_here:
  "egress_matched (ge_env (ee_gate demo_egress_env)) (JObj [(''egress_allowlist'', JArr [JObj demo_entry])])
     ''api.example.com'' ''POST'' ''/v1/orders'' True = Some demo_match"
  by (rule demo_matched) (simp add: demo_egress_env_def)

lemma demo_consume:
  "consume_capability healthy (usable_capability ''egc'' ''t'' ''agt'' ''POST'' ''u'' [] 10) 10 demo_egress_db =
     (Ok (), mark_capabilities (usable_capability ''egc'' ''t'' ''agt'' ''POST'' ''u'' [] 10) 10 demo_egress_db)"
  by (simp add: consume_capability_def healthy_def run_stmt_def demo_egress_db_def usable_capability_def)

lemma demo_proxy_sends:
  "fst (snd (agent_egress_proxy demo_egress_env demo_network demo_proxy_call demo_proxy_request ([], au, demo_egress_db))) \<noteq> []"
proof -
  have trimmed: "trim ''egc'' = ''egc''"
    by (simp add: trim_graphic is_graphic_def byte_def)
  have url: "url_username demo_url = []" "url_password demo_url = None" "url_query demo_url = None"
      "url_path demo_url = ''/v1/orders''"
    by (simp_all add: demo_url_def)
  have req: "ep_method demo_proxy_request = ''POST''" "ep_url demo_proxy_request = ''u''" "ep_body demo_proxy_request = None"
      "ep_capability demo_proxy_request = ''egc''" "ep_headers demo_proxy_request = []"
    by (simp_all add: demo_proxy_request_def)
  have conn: "lock_fault healthy = None" "stmt_fault healthy k = None" for k
    by (simp_all add: healthy_def)
  have exchange: "fst (snd (proxy_exchange demo_egress_env demo_network ''t'' ''agt'' h p ''POST'' 10 demo_proxy_request
      demo_match None [] [] a ([], au, db))) \<noteq> []" for h p a db
    by (simp add: proxy_exchange_def Let_def demo_egress_plain req and_do_def pure_step_def send_out_def demo_network_def
        on_store_def on_db_def ignore_result_def conn read_reply_def)
  have body: "em_request_body_allowed demo_match" "em_max_request_bytes demo_match = 1000"
    by (simp_all add: demo_match_def)
  show ?thesis
    using exchange
    by (simp add: agent_egress_proxy_def Let_def demo_egress_parts url demo_egress_plain req on_store_def on_db_def conn
        demo_egress_runtime demo_matched_here proxy_granted_def demo_egress_gate proxy_vetted_def and_do_def pure_step_def
        read_step_def trimmed demo_consume body)
qed


lemma proxy_keeps_hashes:
  assumes "present_capability G (Proxy X N rq req) ((sent, au, db), used) = (ok, (sent', au', db'), used')" "rivals_spare X"
  shows "map cap_token_hash_hex (caps db') = map cap_token_hash_hex (caps db)"
proof -
  obtain r where "agent_egress_proxy X N rq req (sent, au, db) = (r, sent', au', db')"
    using assms(1) by (auto split: prod.splits)
  then show ?thesis
    using assms(2) by (cases rule: agent_egress_proxy_cases) (auto simp: o_def if_distrib cong: if_cong)
qed

theorem egress_capability_used_once_witness:
  "length (accepted (present_capability demo_curve)
     [Proxy demo_egress_env demo_network demo_proxy_call demo_proxy_request,
      Proxy demo_egress_env demo_network demo_proxy_call demo_proxy_request]
     (([], demo_sinks True healthy, demo_egress_db), [])) = 1"
proof -
  let ?e = "Proxy demo_egress_env demo_network demo_proxy_call demo_proxy_request :: (unit, unit) egress_event"
  let ?s = "(([], demo_sinks True healthy, demo_egress_db), [])"
  obtain ok sent' au' db' used' where run: "present_capability demo_curve ?e ?s = (ok, (sent', au', db'), used')"
    by (metis surj_pair)
  have ok: ok
    using run demo_proxy_sends [of "demo_sinks True healthy"] by (auto split: prod.splits)
  have "distinct (map cap_token_hash_hex (caps demo_egress_db))"
    by (simp add: demo_egress_db_def)
  moreover have "distinct (map cap_token_hash_hex (caps db'))"
    unfolding proxy_keeps_hashes [OF run demo_egress_runtime(4)] by fact
  ultimately have "timely_run capability_timely (present_capability demo_curve) [?e, ?e] ?s"
    using demo_egress_runtime(4) by (simp add: run del: present_capability.simps)
  from egress_capability_used_once [OF this] show ?thesis
    using ok by (auto simp: run simp del: present_capability.simps split: prod.splits if_splits)
qed
end
