(* ===== verification/Spec2Isabelle.thy ===== *)
theory Spec2Isabelle
  imports Ring_Membership Assurance Runtime_Mode Call_Sig Risk User_Session Egress_Gateway
begin

text \<open>
  SauronID: verification of the policy engine and the authorisation core.
\<close>

end
